theory Spec2Isabelle
  imports Complex_Main "HOL-Library.Word"
begin

unbundle bit_operations_syntax

section \<open>Errors\<close>

text \<open>
  What the JavaScript raises: a \<^verbatim>\<open>TypeError\<close> on a property read of
  \<^verbatim>\<open>null\<close> or \<^verbatim>\<open>undefined\<close>, a \<^verbatim>\<open>RangeError\<close> on a view outside its
  buffer, on a negative array length and on a call stack that is too deep, and the
  process exit of \<^verbatim>\<open>Sys_Error\<close>.
\<close>

datatype error = TypeError | RangeError | SysError


text \<open>The contents codes, which both files use.\<close>

definition CONTENTS_EMPTY :: int where "CONTENTS_EMPTY = -1"
definition CONTENTS_SOLID :: int where "CONTENTS_SOLID = -2"
definition CONTENTS_WATER :: int where "CONTENTS_WATER = -3"
definition CONTENTS_SLIME :: int where "CONTENTS_SLIME = -4"
definition CONTENTS_LAVA :: int where "CONTENTS_LAVA = -5"
definition CONTENTS_SKY :: int where "CONTENTS_SKY = -6"

section \<open>JavaScript numbers\<close>

text \<open>
  A JavaScript number is an IEEE 754 double: \<^verbatim>\<open>NaN\<close>, one of the two infinities, or a
  finite value. The finite values are kept as real numbers; the doubles among them are the
  reals that rounding to a double leaves unchanged (\<open>is_double\<close>). The two zeros are one
  value here: the code of this development adds, multiplies, compares and stores numbers,
  and none of these operations tells \<open>-0\<close> from \<open>+0\<close> in anything but the sign of a zero.
\<close>

datatype number = NaN | PlusInfinity | MinusInfinity | Finite real

text \<open>Rounding a real to an integer, to the nearest one and to the even one of two that are equally near.\<close>

definition rne :: "real \<Rightarrow> int" where
  "rne y =
     (let f = \<lfloor>y\<rfloor>; d = y - of_int f
      in if d < 1 / 2 then f else if 1 / 2 < d then f + 1 else if even f then f else f + 1)"

text \<open>
  The binary exponent of a positive real, within the exponent range of the format:
  \<open>bexp n lo a\<close> is the largest \<open>e\<close> from \<open>lo\<close> to \<open>lo + n\<close> with \<open>2 powi e \<le> a\<close>, and \<open>lo\<close> when
  there is none (a subnormal or zero).
\<close>

fun bexp :: "nat \<Rightarrow> int \<Rightarrow> real \<Rightarrow> int" where
  "bexp 0 lo a = lo"
| "bexp (Suc n) lo a = (if 2 powi (lo + int (Suc n)) \<le> a then lo + int (Suc n) else bexp n lo a)"

text \<open>
  Rounding to the nearest value of a binary format with precision \<open>p\<close> and exponents
  from \<open>emin\<close> to \<open>emax\<close>, ties to even (\<^verbatim>\<open>roundTiesToEven\<close>): the real is rounded to a
  multiple of the unit in the last place of its binade; a result of magnitude
  \<open>2 powi (emax + 1)\<close> or more overflows to an infinity. Doubles have precision 53 and exponents
  from -1022 to 1023, the elements of a \<^verbatim>\<open>Float32Array\<close> precision 24 and exponents from
  -126 to 127.
\<close>

definition round_real :: "nat \<Rightarrow> int \<Rightarrow> int \<Rightarrow> real \<Rightarrow> real" where
  "round_real p emin emax x =
     (let e = bexp (nat (emax - emin)) emin \<bar>x\<bar>;
          u = 2 powi (e - (int p - 1))
      in of_int (rne (x / u)) * u)"

definition round_float :: "nat \<Rightarrow> int \<Rightarrow> int \<Rightarrow> real \<Rightarrow> number" where
  "round_float p emin emax x =
     (let r = round_real p emin emax x
      in if 2 powi (emax + 1) \<le> \<bar>r\<bar> then (if 0 < x then PlusInfinity else MinusInfinity)
         else Finite r)"

definition round64 :: "real \<Rightarrow> number" where
  "round64 = round_float 53 (-1022) 1023"

definition round32 :: "real \<Rightarrow> number" where
  "round32 = round_float 24 (-126) 127"

text \<open>The operators \<^verbatim>\<open>+\<close> and \<^verbatim>\<open>*\<close> on numbers: the exact result, rounded to a double.\<close>

fun js_add :: "number \<Rightarrow> number \<Rightarrow> number" where
  "js_add (Finite x) (Finite y) = round64 (x + y)"
| "js_add NaN b = NaN"
| "js_add a NaN = NaN"
| "js_add PlusInfinity MinusInfinity = NaN"
| "js_add MinusInfinity PlusInfinity = NaN"
| "js_add PlusInfinity b = PlusInfinity"
| "js_add MinusInfinity b = MinusInfinity"
| "js_add (Finite x) b = b"

fun js_mul :: "number \<Rightarrow> number \<Rightarrow> number" where
  "js_mul (Finite x) (Finite y) = round64 (x * y)"
| "js_mul NaN b = NaN"
| "js_mul a NaN = NaN"
| "js_mul (Finite x) PlusInfinity =
     (if x = 0 then NaN else if 0 < x then PlusInfinity else MinusInfinity)"
| "js_mul (Finite x) MinusInfinity =
     (if x = 0 then NaN else if 0 < x then MinusInfinity else PlusInfinity)"
| "js_mul PlusInfinity (Finite y) =
     (if y = 0 then NaN else if 0 < y then PlusInfinity else MinusInfinity)"
| "js_mul MinusInfinity (Finite y) =
     (if y = 0 then NaN else if 0 < y then MinusInfinity else PlusInfinity)"
| "js_mul PlusInfinity PlusInfinity = PlusInfinity"
| "js_mul PlusInfinity MinusInfinity = MinusInfinity"
| "js_mul MinusInfinity PlusInfinity = MinusInfinity"
| "js_mul MinusInfinity MinusInfinity = PlusInfinity"

text \<open>
  The comparisons \<^verbatim>\<open>a <= b\<close> (\<open>num_le a b\<close>) and \<^verbatim>\<open>a < b\<close> (\<open>num_lt a b\<close>);
  \<^verbatim>\<open>a >= b\<close> is \<open>num_le b a\<close>. Every comparison with \<^verbatim>\<open>NaN\<close> is false.
\<close>

fun num_le :: "number \<Rightarrow> number \<Rightarrow> bool" where
  "num_le (Finite x) (Finite y) \<longleftrightarrow> x \<le> y"
| "num_le NaN b \<longleftrightarrow> False"
| "num_le a NaN \<longleftrightarrow> False"
| "num_le MinusInfinity b \<longleftrightarrow> True"
| "num_le a PlusInfinity \<longleftrightarrow> True"
| "num_le a b \<longleftrightarrow> False"

fun num_lt :: "number \<Rightarrow> number \<Rightarrow> bool" where
  "num_lt (Finite x) (Finite y) \<longleftrightarrow> x < y"
| "num_lt NaN b \<longleftrightarrow> False"
| "num_lt a NaN \<longleftrightarrow> False"
| "num_lt PlusInfinity b \<longleftrightarrow> False"
| "num_lt a MinusInfinity \<longleftrightarrow> False"
| "num_lt a b \<longleftrightarrow> True"

text \<open>A store into a \<^verbatim>\<open>Float32Array\<close> rounds the number to single precision.\<close>

fun fround :: "number \<Rightarrow> number" where
  "fround (Finite x) = round32 x"
| "fround a = a"

definition is_double :: "number \<Rightarrow> bool" where
  "is_double a = (case a of Finite x \<Rightarrow> round64 x = Finite x | _ \<Rightarrow> True)"

definition is_finite :: "number \<Rightarrow> bool" where
  "is_finite a = (case a of Finite x \<Rightarrow> True | _ \<Rightarrow> False)"

section \<open>Box/plane classifier (gl\_refrag.js, BOX\_ON\_PLANE\_SIDE)\<close>

text \<open>
  A \<^verbatim>\<open>Float32Array(3)\<close>, or any array of three numbers, is a triple; reading it at an
  index outside 0..2 gives \<^verbatim>\<open>undefined\<close>, which is \<open>None\<close> here, and every comparison
  with \<^verbatim>\<open>undefined\<close> is false.
\<close>

datatype vec3 = Vec3 number number number

fun vec_at :: "vec3 \<Rightarrow> int \<Rightarrow> number option" where
  "vec_at (Vec3 x y z) i =
     (if i = 0 then Some x else if i = 1 then Some y else if i = 2 then Some z else None)"

fun v0 :: "vec3 \<Rightarrow> number" where "v0 (Vec3 x y z) = x"
fun v1 :: "vec3 \<Rightarrow> number" where "v1 (Vec3 x y z) = y"
fun v2 :: "vec3 \<Rightarrow> number" where "v2 (Vec3 x y z) = z"

record plane =
  p_normal :: vec3
  p_dist :: number
  p_type :: int
  p_signbits :: int

definition js_le :: "number \<Rightarrow> number option \<Rightarrow> bool" where
  "js_le a b = (case b of None \<Rightarrow> False | Some y \<Rightarrow> num_le a y)"

definition js_ge :: "number \<Rightarrow> number option \<Rightarrow> bool" where
  "js_ge a b = (case b of None \<Rightarrow> False | Some y \<Rightarrow> num_le y a)"

text \<open>The fast axial cases: the three lines under \<^verbatim>\<open>if ( p.type < 3 )\<close>.\<close>

definition BOX_ON_PLANE_SIDE_axial :: "vec3 \<Rightarrow> vec3 \<Rightarrow> plane \<Rightarrow> int" where
  "BOX_ON_PLANE_SIDE_axial emins emaxs p =
     (if js_le (p_dist p) (vec_at emins (p_type p)) then 1
      else if js_ge (p_dist p) (vec_at emaxs (p_type p)) then 2
      else 3)"

text \<open>The \<^verbatim>\<open>switch ( p.signbits )\<close>: the pair \<open>(dist1, dist2)\<close>.\<close>

definition switch_signbits :: "vec3 \<Rightarrow> vec3 \<Rightarrow> vec3 \<Rightarrow> int \<Rightarrow> number \<times> number" where
  "switch_signbits emins emaxs normal sb =
     (if sb = 0 then
        (js_add (js_add (js_mul (v0 normal) (v0 emaxs)) (js_mul (v1 normal) (v1 emaxs))) (js_mul (v2 normal) (v2 emaxs)),
         js_add (js_add (js_mul (v0 normal) (v0 emins)) (js_mul (v1 normal) (v1 emins))) (js_mul (v2 normal) (v2 emins)))
      else if sb = 1 then
        (js_add (js_add (js_mul (v0 normal) (v0 emins)) (js_mul (v1 normal) (v1 emaxs))) (js_mul (v2 normal) (v2 emaxs)),
         js_add (js_add (js_mul (v0 normal) (v0 emaxs)) (js_mul (v1 normal) (v1 emins))) (js_mul (v2 normal) (v2 emins)))
      else if sb = 2 then
        (js_add (js_add (js_mul (v0 normal) (v0 emaxs)) (js_mul (v1 normal) (v1 emins))) (js_mul (v2 normal) (v2 emaxs)),
         js_add (js_add (js_mul (v0 normal) (v0 emins)) (js_mul (v1 normal) (v1 emaxs))) (js_mul (v2 normal) (v2 emins)))
      else if sb = 3 then
        (js_add (js_add (js_mul (v0 normal) (v0 emins)) (js_mul (v1 normal) (v1 emins))) (js_mul (v2 normal) (v2 emaxs)),
         js_add (js_add (js_mul (v0 normal) (v0 emaxs)) (js_mul (v1 normal) (v1 emaxs))) (js_mul (v2 normal) (v2 emins)))
      else if sb = 4 then
        (js_add (js_add (js_mul (v0 normal) (v0 emaxs)) (js_mul (v1 normal) (v1 emaxs))) (js_mul (v2 normal) (v2 emins)),
         js_add (js_add (js_mul (v0 normal) (v0 emins)) (js_mul (v1 normal) (v1 emins))) (js_mul (v2 normal) (v2 emaxs)))
      else if sb = 5 then
        (js_add (js_add (js_mul (v0 normal) (v0 emins)) (js_mul (v1 normal) (v1 emaxs))) (js_mul (v2 normal) (v2 emins)),
         js_add (js_add (js_mul (v0 normal) (v0 emaxs)) (js_mul (v1 normal) (v1 emins))) (js_mul (v2 normal) (v2 emaxs)))
      else if sb = 6 then
        (js_add (js_add (js_mul (v0 normal) (v0 emaxs)) (js_mul (v1 normal) (v1 emins))) (js_mul (v2 normal) (v2 emins)),
         js_add (js_add (js_mul (v0 normal) (v0 emins)) (js_mul (v1 normal) (v1 emaxs))) (js_mul (v2 normal) (v2 emaxs)))
      else if sb = 7 then
        (js_add (js_add (js_mul (v0 normal) (v0 emins)) (js_mul (v1 normal) (v1 emins))) (js_mul (v2 normal) (v2 emins)),
         js_add (js_add (js_mul (v0 normal) (v0 emaxs)) (js_mul (v1 normal) (v1 emaxs))) (js_mul (v2 normal) (v2 emaxs)))
      else (Finite 0, Finite 0))"

text \<open>The general case: everything below the fast axial cases.\<close>

definition BOX_ON_PLANE_SIDE_general :: "vec3 \<Rightarrow> vec3 \<Rightarrow> plane \<Rightarrow> int" where
  "BOX_ON_PLANE_SIDE_general emins emaxs p =
     (case switch_signbits emins emaxs (p_normal p) (p_signbits p) of
        (dist1, dist2) \<Rightarrow>
          (let sides = (if num_le (p_dist p) dist1 then 1 else 0)
           in if num_lt dist2 (p_dist p) then sides OR 2 else sides))"

definition BOX_ON_PLANE_SIDE :: "vec3 \<Rightarrow> vec3 \<Rightarrow> plane \<Rightarrow> int" where
  "BOX_ON_PLANE_SIDE emins emaxs p =
     (if p_type p < 3 then BOX_ON_PLANE_SIDE_axial emins emaxs p
      else BOX_ON_PLANE_SIDE_general emins emaxs p)"

text \<open>
  The sign mask of a normal, as the loaders compute it
  (\<^verbatim>\<open>if (plane.normal[j] < 0) bits |= 1 << j\<close>).
\<close>

definition signbits_of :: "vec3 \<Rightarrow> int" where
  "signbits_of n =
     (if num_lt (v0 n) (Finite 0) then 1 else 0) + (if num_lt (v1 n) (Finite 0) then 2 else 0)
       + (if num_lt (v2 n) (Finite 0) then 4 else 0)"

definition box_ok :: "vec3 \<Rightarrow> vec3 \<Rightarrow> bool" where
  "box_ok emins emaxs \<longleftrightarrow>
     num_le (v0 emins) (v0 emaxs) \<and> num_le (v1 emins) (v1 emaxs) \<and> num_le (v2 emins) (v2 emaxs)"

text \<open>
  The corners the specification speaks of: the far corner takes, in each component, the
  box's minimum where the sign mask has the component's bit and the maximum elsewhere; the
  near corner is the opposite one.
\<close>

definition far_corner :: "vec3 \<Rightarrow> vec3 \<Rightarrow> int \<Rightarrow> vec3" where
  "far_corner emins emaxs sb =
     Vec3 (if bit sb 0 then v0 emins else v0 emaxs)
          (if bit sb 1 then v1 emins else v1 emaxs)
          (if bit sb 2 then v2 emins else v2 emaxs)"

definition near_corner :: "vec3 \<Rightarrow> vec3 \<Rightarrow> int \<Rightarrow> vec3" where
  "near_corner emins emaxs sb =
     Vec3 (if bit sb 0 then v0 emaxs else v0 emins)
          (if bit sb 1 then v1 emaxs else v1 emins)
          (if bit sb 2 then v2 emaxs else v2 emins)"

text \<open>
  The projection of a corner on a normal as the code computes it, in double arithmetic:
  \<^verbatim>\<open>normal[0] * c[0] + normal[1] * c[1] + normal[2] * c[2]\<close>.
\<close>

definition dot :: "vec3 \<Rightarrow> vec3 \<Rightarrow> number" where
  "dot a b = js_add (js_add (js_mul (v0 a) (v0 b)) (js_mul (v1 a) (v1 b))) (js_mul (v2 a) (v2 b))"

definition axis :: "int \<Rightarrow> vec3" where
  "axis k = Vec3 (Finite (if k = 0 then 1 else 0)) (Finite (if k = 1 then 1 else 0))
                 (Finite (if k = 2 then 1 else 0))"

text \<open>The box coordinates on the two axes other than \<open>k\<close> are finite.\<close>

definition others_finite :: "int \<Rightarrow> vec3 \<Rightarrow> bool" where
  "others_finite k v \<longleftrightarrow>
     (k = 0 \<or> is_finite (v0 v)) \<and> (k = 1 \<or> is_finite (v1 v)) \<and> (k = 2 \<or> is_finite (v2 v))"

section \<open>Entity fragments (gl\_refrag.js)\<close>

text \<open>
  The world the fragments are linked into. A node object is its identity, its plane and its
  two children; a leaf object is its identity and its contents; \<open>Null\<close> is a missing
  child. The tree is never changed by the functions of this file; the field they do change,
  \<^verbatim>\<open>leaf.efrags\<close>, lives in the state below under the leaf's identity.
\<close>

datatype bsp = Null | Leaf nat int | Node nat plane bsp bsp

datatype node_ref = NodeRef nat | LeafRef nat

record model_bounds =
  mb_mins :: vec3
  mb_maxs :: vec3

record worldmodel_t =
  wm_nodes :: "bsp list option"

text \<open>
  The objects the functions mutate, one function per field: efrags
  (\<^verbatim>\<open>entity\<close>, \<^verbatim>\<open>leaf\<close>, \<^verbatim>\<open>entnext\<close>, \<^verbatim>\<open>leafnext\<close>), leafs
  (\<^verbatim>\<open>efrags\<close>) and entities (\<^verbatim>\<open>model\<close>, \<^verbatim>\<open>origin\<close>, \<^verbatim>\<open>efrag\<close>,
  \<^verbatim>\<open>topnode\<close>, \<^verbatim>\<open>visframe\<close>), each addressed by the object's identity; then the
  client state \<^verbatim>\<open>_cl\<close> (\<open>cl_present\<close> says that it is not \<^verbatim>\<open>null\<close>) and the
  variables of the module. A reference is \<open>Some\<close> identity, \<^verbatim>\<open>null\<close> is \<open>None\<close>.
\<close>

record refrag_state =
  ef_entity :: "nat \<Rightarrow> nat option"
  ef_leaf :: "nat \<Rightarrow> nat option"
  ef_entnext :: "nat \<Rightarrow> nat option"
  ef_leafnext :: "nat \<Rightarrow> nat option"
  leaf_efrags :: "nat \<Rightarrow> nat option"
  ent_model :: "nat \<Rightarrow> model_bounds option"
  ent_origin :: "nat \<Rightarrow> vec3"
  ent_efrag :: "nat \<Rightarrow> nat option"
  ent_topnode :: "nat \<Rightarrow> node_ref option"
  ent_visframe :: "nat \<Rightarrow> int"
  cl_present :: bool
  cl_free_efrags :: "nat option"
  cl_worldmodel :: "worldmodel_t option"
  r_pefragtopnode :: "node_ref option"
  lastlink :: "nat option"
  r_emins :: vec3
  r_emaxs :: vec3
  r_addent :: "nat option"

subsection \<open>R\_RemoveEfrags\<close>

text \<open>
  The inner loop
  \<^verbatim>\<open>while ( prev != null && prev.leafnext !== ef ) prev = prev.leafnext\<close>.
  It runs forever on a cyclic chain that does not hold \<open>ef\<close>; not returning is \<open>None\<close>.
\<close>

partial_function (option) find_prev :: "(nat \<Rightarrow> nat option) \<Rightarrow> nat \<Rightarrow> nat option \<Rightarrow> nat option option" where
  "find_prev leafnext ef prev =
     (case prev of
        None \<Rightarrow> Some None
      | Some p \<Rightarrow> if leafnext p \<noteq> Some ef then find_prev leafnext ef (leafnext p) else Some (Some p))"

text \<open>The block \<^verbatim>\<open>// Remove from leaf's efrag list\<close> of the outer loop's body.\<close>

definition unlink_from_leaf :: "nat \<Rightarrow> refrag_state \<Rightarrow> refrag_state option" where
  "unlink_from_leaf ef s =
     (case ef_leaf s ef of
        None \<Rightarrow> Some s
      | Some leaf \<Rightarrow>
          (case leaf_efrags s leaf of
             None \<Rightarrow> Some s
           | Some h \<Rightarrow>
               if h = ef then Some (s\<lparr>leaf_efrags := (leaf_efrags s)(leaf := ef_leafnext s ef)\<rparr>)
               else
                 Option.bind (find_prev (ef_leafnext s) ef (Some h))
                   (\<lambda>prev. case prev of
                      None \<Rightarrow> Some s
                    | Some p \<Rightarrow> Some (s\<lparr>ef_leafnext := (ef_leafnext s)(p := ef_leafnext s ef)\<rparr>))))"

text \<open>The outer loop \<^verbatim>\<open>while ( ef != null )\<close>, with \<open>ef\<close> as its argument.\<close>

partial_function (option) R_RemoveEfrags_loop :: "nat option \<Rightarrow> refrag_state \<Rightarrow> refrag_state option" where
  "R_RemoveEfrags_loop ef s =
     (case ef of
        None \<Rightarrow> Some s
      | Some old \<Rightarrow>
          Option.bind (unlink_from_leaf old s)
            (\<lambda>s1. R_RemoveEfrags_loop (ef_entnext s1 old)
                     (s1\<lparr>ef_entnext := (ef_entnext s1)(old := cl_free_efrags s1),
                         cl_free_efrags := Some old\<rparr>)))"

definition R_RemoveEfrags :: "nat \<Rightarrow> refrag_state \<Rightarrow> refrag_state option" where
  "R_RemoveEfrags ent s =
     (if \<not> cl_present s then Some s
      else Option.bind (R_RemoveEfrags_loop (ent_efrag s ent) s)
             (\<lambda>s1. Some (s1\<lparr>ent_efrag := (ent_efrag s1)(ent := None)\<rparr>)))"

subsection \<open>R\_SplitEntityOnNode and R\_AddEfrags\<close>

text \<open>
  The leaf branch of R\_SplitEntityOnNode, from
  \<^verbatim>\<open>if ( r_pefragtopnode == null )\<close> to its \<^verbatim>\<open>return\<close>. With an empty free list
  it prints \<^verbatim>\<open>Too many efrags!\<close> and returns.
\<close>

definition link_efrag :: "nat \<Rightarrow> refrag_state \<Rightarrow> error + refrag_state" where
  "link_efrag leaf s =
     (let s1 = (if r_pefragtopnode s = None then s\<lparr>r_pefragtopnode := Some (LeafRef leaf)\<rparr> else s)
      in if \<not> cl_present s1 then Inl TypeError
         else case cl_free_efrags s1 of
           None \<Rightarrow> Inr s1
         | Some ef \<Rightarrow>
             (let s2 = s1\<lparr>cl_free_efrags := ef_entnext s1 ef\<rparr>;
                  s3 = s2\<lparr>ef_entity := (ef_entity s2)(ef := r_addent s2)\<rparr>
              in case (case lastlink s3 of
                         Some l \<Rightarrow> Inr (s3\<lparr>ef_entnext := (ef_entnext s3)(l := Some ef)\<rparr>)
                       | None \<Rightarrow>
                           (case r_addent s3 of
                              None \<Rightarrow> Inl TypeError
                            | Some ent \<Rightarrow> Inr (s3\<lparr>ent_efrag := (ent_efrag s3)(ent := Some ef)\<rparr>))) of
                   Inl e \<Rightarrow> Inl e
                 | Inr s4 \<Rightarrow>
                     (let s5 = s4\<lparr>lastlink := Some ef\<rparr>;
                          s6 = s5\<lparr>ef_entnext := (ef_entnext s5)(ef := None)\<rparr>;
                          s7 = s6\<lparr>ef_leaf := (ef_leaf s6)(ef := Some leaf)\<rparr>;
                          s8 = s7\<lparr>ef_leafnext := (ef_leafnext s7)(ef := leaf_efrags s7 leaf)\<rparr>
                      in Inr (s8\<lparr>leaf_efrags := (leaf_efrags s8)(leaf := Some ef)\<rparr>))))"

text \<open>
  A leaf whose contents are not negative is taken for a node; it has no plane, and
  BOX\_ON\_PLANE\_SIDE raises on \<^verbatim>\<open>p.normal\<close>.
\<close>

fun R_SplitEntityOnNode :: "bsp \<Rightarrow> refrag_state \<Rightarrow> error + refrag_state" where
  "R_SplitEntityOnNode Null s = Inr s"
| "R_SplitEntityOnNode (Leaf leaf contents) s =
     (if contents = CONTENTS_SOLID then Inr s
      else if contents < 0 then link_efrag leaf s
      else Inl TypeError)"
| "R_SplitEntityOnNode (Node node splitplane c0 c1) s =
     (let sides = BOX_ON_PLANE_SIDE (r_emins s) (r_emaxs s) splitplane;
          s1 = (if sides = 3 \<and> r_pefragtopnode s = None
                then s\<lparr>r_pefragtopnode := Some (NodeRef node)\<rparr> else s)
      in case (if sides AND 1 \<noteq> 0 then R_SplitEntityOnNode c0 s1 else Inr s1) of
           Inl e \<Rightarrow> Inl e
         | Inr s2 \<Rightarrow> if sides AND 2 \<noteq> 0 then R_SplitEntityOnNode c1 s2 else Inr s2)"

text \<open>
  The loop \<^verbatim>\<open>r_emins[ i ] = ent.origin[ i ] + entmodel.mins[ i ]\<close> of R\_AddEfrags:
  \<^verbatim>\<open>r_emins\<close> and \<^verbatim>\<open>r_emaxs\<close> are \<^verbatim>\<open>Float32Array\<close>s, so each sum, a double, is rounded to
  single precision when it is stored.
\<close>

definition vadd :: "vec3 \<Rightarrow> vec3 \<Rightarrow> vec3" where
  "vadd a b = Vec3 (fround (js_add (v0 a) (v0 b))) (fround (js_add (v1 a) (v1 b)))
                   (fround (js_add (v2 a) (v2 b)))"

text \<open>\<^verbatim>\<open>_cl.worldmodel.nodes[ 0 ]\<close>: \<^verbatim>\<open>undefined\<close> when the array is empty.\<close>

definition nodes0 :: "bsp list \<Rightarrow> bsp" where
  "nodes0 ns = (case ns of [] \<Rightarrow> Null | t # _ \<Rightarrow> t)"

definition R_AddEfrags :: "nat \<Rightarrow> refrag_state \<Rightarrow> error + refrag_state" where
  "R_AddEfrags ent s =
     (if \<not> cl_present s then Inr s
      else case ent_model s ent of
        None \<Rightarrow> Inr s
      | Some entmodel \<Rightarrow>
          (let s1 = s\<lparr>r_addent := Some ent, lastlink := None, r_pefragtopnode := None,
                      r_emins := vadd (ent_origin s ent) (mb_mins entmodel),
                      r_emaxs := vadd (ent_origin s ent) (mb_maxs entmodel)\<rparr>
           in case (case cl_worldmodel s1 of
                      None \<Rightarrow> Inr s1
                    | Some w \<Rightarrow>
                        (case wm_nodes w of
                           None \<Rightarrow> Inr s1
                         | Some ns \<Rightarrow> R_SplitEntityOnNode (nodes0 ns) s1)) of
                Inl e \<Rightarrow> Inl e
              | Inr s2 \<Rightarrow> Inr (s2\<lparr>ent_topnode := (ent_topnode s2)(ent := r_pefragtopnode s2)\<rparr>)))"

subsection \<open>R\_StoreEfrags\<close>

text \<open>
  The array \<^verbatim>\<open>cl_visedicts\<close> is a map from indices to entities: a store at an index
  beyond its length extends it. The function returns the new count; the array and the
  entities' stamps it changed are returned with it.
\<close>

partial_function (option) R_StoreEfrags ::
  "nat option \<Rightarrow> (int \<Rightarrow> nat option) \<Rightarrow> int \<Rightarrow> int \<Rightarrow> int \<Rightarrow> refrag_state
     \<Rightarrow> (error + int \<times> (int \<Rightarrow> nat option) \<times> refrag_state) option" where
  "R_StoreEfrags pefrag cl_visedicts cl_numvisedicts MAX_VISEDICTS r_framecount s =
     (case pefrag of
        None \<Rightarrow> Some (Inr (cl_numvisedicts, cl_visedicts, s))
      | Some ef \<Rightarrow>
          (case ef_entity s ef of
             None \<Rightarrow> Some (Inl TypeError)
           | Some pent \<Rightarrow>
               if ent_model s pent \<noteq> None \<and> ent_visframe s pent \<noteq> r_framecount
                  \<and> cl_numvisedicts < MAX_VISEDICTS
               then R_StoreEfrags (ef_leafnext s ef) (cl_visedicts(cl_numvisedicts \<mapsto> pent))
                      (cl_numvisedicts + 1) MAX_VISEDICTS r_framecount
                      (s\<lparr>ent_visframe := (ent_visframe s)(pent := r_framecount)\<rparr>)
               else R_StoreEfrags (ef_leafnext s ef) cl_visedicts cl_numvisedicts
                      MAX_VISEDICTS r_framecount s))"

subsection \<open>Linked lists in the store\<close>

text \<open>
  \<open>chain nxt h xs\<close>: following the field \<open>nxt\<close> from the reference \<open>h\<close> one passes
  exactly the objects \<open>xs\<close>, in this order, and then reaches \<^verbatim>\<open>null\<close>.
\<close>

primrec chain :: "(nat \<Rightarrow> nat option) \<Rightarrow> nat option \<Rightarrow> nat list \<Rightarrow> bool" where
  "chain nxt h [] \<longleftrightarrow> h = None"
| "chain nxt h (x # xs) \<longleftrightarrow> h = Some x \<and> chain nxt (nxt x) xs"

subsection \<open>The descent, as the specification describes it\<close>

text \<open>
  The first node on the way down from the root at which the box straddles the plane. As
  long as the box lies on one side only, the descent follows a single path, so no node
  with a straddled plane is shallower than this one.
\<close>

fun first_split :: "vec3 \<Rightarrow> vec3 \<Rightarrow> bsp \<Rightarrow> node_ref option" where
  "first_split emins emaxs Null = None"
| "first_split emins emaxs (Leaf leaf contents) = None"
| "first_split emins emaxs (Node node splitplane c0 c1) =
     (let sides = BOX_ON_PLANE_SIDE emins emaxs splitplane
      in if sides = 3 then Some (NodeRef node)
         else if sides AND 1 \<noteq> 0 then first_split emins emaxs c0
         else if sides AND 2 \<noteq> 0 then first_split emins emaxs c1
         else None)"

text \<open>
  The leaf at which that single path ends, when no plane on it is straddled and the leaf
  is not solid.
\<close>

fun path_leaf :: "vec3 \<Rightarrow> vec3 \<Rightarrow> bsp \<Rightarrow> node_ref option" where
  "path_leaf emins emaxs Null = None"
| "path_leaf emins emaxs (Leaf leaf contents) =
     (if contents = CONTENTS_SOLID then None else Some (LeafRef leaf))"
| "path_leaf emins emaxs (Node node splitplane c0 c1) =
     (let sides = BOX_ON_PLANE_SIDE emins emaxs splitplane
      in if sides = 3 then None
         else if sides AND 1 \<noteq> 0 then path_leaf emins emaxs c0
         else if sides AND 2 \<noteq> 0 then path_leaf emins emaxs c1
         else None)"

text \<open>The state of the module when it is loaded, before any call: every variable is \<^verbatim>\<open>null\<close> and there are no objects.\<close>

definition module_init :: refrag_state where
  "module_init =
     \<lparr>ef_entity = (\<lambda>_. None), ef_leaf = (\<lambda>_. None), ef_entnext = (\<lambda>_. None),
      ef_leafnext = (\<lambda>_. None), leaf_efrags = (\<lambda>_. None), ent_model = (\<lambda>_. None),
      ent_origin = (\<lambda>_. Vec3 (Finite 0) (Finite 0) (Finite 0)), ent_efrag = (\<lambda>_. None), ent_topnode = (\<lambda>_. None),
      ent_visframe = (\<lambda>_. 0), cl_present = False, cl_free_efrags = None,
      cl_worldmodel = None, r_pefragtopnode = None, lastlink = None,
      r_emins = Vec3 (Finite 0) (Finite 0) (Finite 0), r_emaxs = Vec3 (Finite 0) (Finite 0) (Finite 0), r_addent = None\<rparr>"

text \<open>
  The shape of the store while an entity is being linked. The free list is the list \<open>fs\<close>;
  the fragments \<open>as\<close> have been taken from it for the entity \<open>ent\<close>, in this order, and
  form the entity's chain, with \<open>lastlink\<close> at its end; every leaf's chain is the
  fragments of \<open>as\<close> that were linked to this leaf, latest first, followed by the chain
  \<open>L leaf\<close> that the leaf had before.
\<close>

definition efrags_ok :: "nat \<Rightarrow> (nat \<Rightarrow> nat list) \<Rightarrow> nat list \<Rightarrow> nat list \<Rightarrow> refrag_state \<Rightarrow> bool" where
  "efrags_ok ent L as fs s \<longleftrightarrow>
     cl_present s \<and> r_addent s = Some ent \<and>
     chain (ef_entnext s) (cl_free_efrags s) fs \<and>
     (\<forall>l. chain (ef_leafnext s) (leaf_efrags s l)
            (filter (\<lambda>a. ef_leaf s a = Some l) (rev as) @ L l)) \<and>
     distinct (as @ fs) \<and>
     (\<forall>l. set (L l) \<inter> set (as @ fs) = {}) \<and>
     (\<forall>a\<in>set as. ef_leaf s a \<noteq> None) \<and>
     (if as = [] then lastlink s = None \<and> ent_efrag s ent = None
      else lastlink s = Some (last as) \<and> chain (ef_entnext s) (ent_efrag s ent) as)"

section \<open>The headless model loader (mod\_server.ts)\<close>

subsection \<open>Bytes, views and numbers\<close>

text \<open>
  A buffer is a list of bytes. A \<^verbatim>\<open>Float32\<close> is kept as its 32 bits: the loader only
  moves such values and tests their sign. (A NaN may come back from a typed array with
  another payload; no function here looks at it.) Integers read from a view are \<open>int\<close>.
\<close>

type_synonym byte = "8 word"
type_synonym float32 = "32 word"

definition bindE :: "error + 'a \<Rightarrow> ('a \<Rightarrow> error + 'b) \<Rightarrow> error + 'b" where
  "bindE m f = (case m of Inl e \<Rightarrow> Inl e | Inr x \<Rightarrow> f x)"

text \<open>A loop that builds an array, one element per index, and stops at the first error.\<close>

fun mapE :: "('a \<Rightarrow> error + 'b) \<Rightarrow> 'a list \<Rightarrow> error + 'b list" where
  "mapE f [] = Inr []"
| "mapE f (x # xs) =
     (case f x of
        Inl e \<Rightarrow> Inl e
      | Inr y \<Rightarrow> (case mapE f xs of Inl e \<Rightarrow> Inl e | Inr ys \<Rightarrow> Inr (y # ys)))"

text \<open>
  \<^verbatim>\<open>new DataView(buffer, byteOffset, byteLength)\<close>: a \<^verbatim>\<open>RangeError\<close> when the
  offset or the length is negative or the region does not lie within the buffer.
\<close>

definition new_DataView :: "byte list \<Rightarrow> int \<Rightarrow> int \<Rightarrow> error + byte list" where
  "new_DataView buffer byteOffset byteLength =
     (if byteOffset < 0 \<or> byteLength < 0 \<or> int (length buffer) < byteOffset + byteLength
      then Inl RangeError
      else Inr (take (nat byteLength) (drop (nat byteOffset) buffer)))"

text \<open>The bytes a view's getter reads: a \<^verbatim>\<open>RangeError\<close> outside the view.\<close>

definition view_bytes :: "byte list \<Rightarrow> int \<Rightarrow> nat \<Rightarrow> error + byte list" where
  "view_bytes view byteOffset n =
     (if byteOffset < 0 \<or> int (length view) < byteOffset + int n then Inl RangeError
      else Inr (take n (drop (nat byteOffset) view)))"

text \<open>The little-endian value of a byte sequence.\<close>

fun le_value :: "byte list \<Rightarrow> nat" where
  "le_value [] = 0"
| "le_value (b # bs) = unat b + 256 * le_value bs"

definition getInt32 :: "byte list \<Rightarrow> int \<Rightarrow> error + int" where
  "getInt32 view byteOffset =
     bindE (view_bytes view byteOffset 4) (\<lambda>bs. Inr (sint (word_of_nat (le_value bs) :: 32 word)))"

definition getInt16 :: "byte list \<Rightarrow> int \<Rightarrow> error + int" where
  "getInt16 view byteOffset =
     bindE (view_bytes view byteOffset 2) (\<lambda>bs. Inr (sint (word_of_nat (le_value bs) :: 16 word)))"

definition getUint16 :: "byte list \<Rightarrow> int \<Rightarrow> error + int" where
  "getUint16 view byteOffset =
     bindE (view_bytes view byteOffset 2) (\<lambda>bs. Inr (uint (word_of_nat (le_value bs) :: 16 word)))"

definition getFloat32 :: "byte list \<Rightarrow> int \<Rightarrow> error + float32" where
  "getFloat32 view byteOffset =
     bindE (view_bytes view byteOffset 4) (\<lambda>bs. Inr (word_of_nat (le_value bs)))"

text \<open>
  \<^verbatim>\<open>x < 0\<close> for a \<^verbatim>\<open>Float32\<close>: the sign bit is set and the value is neither
  \<open>-0\<close> (bits \<open>0x80000000\<close>) nor a NaN (bits above those of \<open>-Infinity\<close>, \<open>0xFF800000\<close>).
\<close>

definition float32_negative :: "float32 \<Rightarrow> bool" where
  "float32_negative w \<longleftrightarrow> 0x80000000 < w \<and> w \<le> 0xFF800000"

text \<open>
  \<^verbatim>\<open>a[i]\<close> on a \<^verbatim>\<open>Uint8Array\<close>, stored into another one or passed to
  \<^verbatim>\<open>String.fromCharCode\<close>: outside the array it is \<^verbatim>\<open>undefined\<close>, which both turn
  into 0.
\<close>

definition u8_at :: "byte list \<Rightarrow> int \<Rightarrow> byte" where
  "u8_at a i = (if 0 \<le> i \<and> i < int (length a) then a ! nat i else 0)"

text \<open>\<^verbatim>\<open>a.subarray(begin, end)\<close> and \<^verbatim>\<open>a.subarray(begin)\<close>: the indices are clamped, a negative one counts from the end.\<close>

definition clamp_index :: "nat \<Rightarrow> int \<Rightarrow> nat" where
  "clamp_index len i = (if i < 0 then nat (max (int len + i) 0) else nat (min i (int len)))"

definition subarray :: "byte list \<Rightarrow> int \<Rightarrow> int \<Rightarrow> byte list" where
  "subarray a begin end' =
     take (clamp_index (length a) end' - clamp_index (length a) begin)
       (drop (clamp_index (length a) begin) a)"

definition subarray_from :: "byte list \<Rightarrow> int \<Rightarrow> byte list" where
  "subarray_from a begin = drop (clamp_index (length a) begin) a"

subsection \<open>Constants\<close>

definition BSPVERSION :: int where "BSPVERSION = 29"

definition LUMP_ENTITIES :: nat where "LUMP_ENTITIES = 0"
definition LUMP_PLANES :: nat where "LUMP_PLANES = 1"
definition LUMP_TEXTURES :: nat where "LUMP_TEXTURES = 2"
definition LUMP_VERTEXES :: nat where "LUMP_VERTEXES = 3"
definition LUMP_VISIBILITY :: nat where "LUMP_VISIBILITY = 4"
definition LUMP_NODES :: nat where "LUMP_NODES = 5"
definition LUMP_TEXINFO :: nat where "LUMP_TEXINFO = 6"
definition LUMP_FACES :: nat where "LUMP_FACES = 7"
definition LUMP_LIGHTING :: nat where "LUMP_LIGHTING = 8"
definition LUMP_CLIPNODES :: nat where "LUMP_CLIPNODES = 9"
definition LUMP_LEAFS :: nat where "LUMP_LEAFS = 10"
definition LUMP_MARKSURFACES :: nat where "LUMP_MARKSURFACES = 11"
definition LUMP_EDGES :: nat where "LUMP_EDGES = 12"
definition LUMP_SURFEDGES :: nat where "LUMP_SURFEDGES = 13"
definition LUMP_MODELS :: nat where "LUMP_MODELS = 14"
definition HEADER_LUMPS :: nat where "HEADER_LUMPS = 15"

definition MAX_MAP_HULLS :: nat where "MAX_MAP_HULLS = 4"
definition MAX_MAP_LEAFS :: int where "MAX_MAP_LEAFS = 8192"

definition mod_brush :: int where "mod_brush = 0"
definition mod_sprite :: int where "mod_sprite = 1"
definition mod_alias :: int where "mod_alias = 2"

definition MAX_MOD_KNOWN :: int where "MAX_MOD_KNOWN = 512"

subsection \<open>In-memory model structures\<close>

text \<open>
  References between the objects of one model are indices: a node's plane is the index of
  that plane object in \<^verbatim>\<open>mod.planes\<close> (\<open>None\<close> for \<^verbatim>\<open>undefined\<close>), a child is a node
  or a leaf of the model's arrays or missing (\<^verbatim>\<open>null\<close> or \<^verbatim>\<open>undefined\<close>), a parent is a
  node. A hull's \<^verbatim>\<open>planes\<close> and \<^verbatim>\<open>clipnodes\<close> are \<^verbatim>\<open>null\<close>, the model's own arrays
  (the same array object, so later pushes show) or, for the clipnodes of hull 0, an array
  of the hull's own. The boxes of nodes, leafs and hulls hold 16-bit integers and integer
  constants, which a \<^verbatim>\<open>Float32Array\<close> holds exactly.
\<close>

record mplane_t =
  pl_normal :: "float32 list"
  pl_dist :: float32
  pl_type :: int
  pl_signbits :: int

record mclipnode_t =
  cn_planenum :: int
  cn_children :: "int list"

datatype planes_ref = NoPlanes | ModelPlanes

datatype clipnodes_ref = NoClipnodes | ModelClipnodes | OwnClipnodes "mclipnode_t list"

record hull_t =
  h_clipnodes :: clipnodes_ref
  h_planes :: planes_ref
  h_firstclipnode :: int
  h_lastclipnode :: int
  h_clip_mins :: "int list"
  h_clip_maxs :: "int list"

datatype child_ref = NoChild | NodeChild nat | LeafChild nat

record mnode_t =
  n_contents :: int
  n_visframe :: int
  n_mins :: "int list"
  n_maxs :: "int list"
  n_parent :: "nat option"
  n_plane :: "nat option"
  n_children :: "child_ref list"
  n_firstsurface :: int
  n_numsurfaces :: int

record mleaf_t =
  lf_contents :: int
  lf_visframe :: int
  lf_mins :: "int list"
  lf_maxs :: "int list"
  lf_parent :: "nat option"
  lf_compressed_vis :: "byte list option"
  lf_efrags :: "nat option"
  lf_firstmarksurface :: int
  lf_nummarksurfaces :: int
  lf_key :: int
  lf_ambient_sound_level :: "byte list"

record dmodel_t =
  dm_mins :: "float32 list"
  dm_maxs :: "float32 list"
  dm_origin :: "float32 list"
  dm_headnode :: "int list"
  dm_visleafs :: int
  dm_firstface :: int
  dm_numfaces :: int

record model_t =
  m_name :: string
  m_needload :: int
  m_type :: int
  m_numframes :: int
  m_synctype :: int
  m_flags :: int
  m_mins :: "float32 list"
  m_maxs :: "float32 list"
  m_radius :: int
  m_firstmodelsurface :: int
  m_nummodelsurfaces :: int
  m_numsubmodels :: int
  m_submodels :: "dmodel_t list"
  m_numplanes :: int
  m_planes :: "mplane_t list"
  m_numleafs :: int
  m_leafs :: "mleaf_t list"
  m_numvertexes :: int
  m_vertexes :: "float32 list option"
  m_numclipnodes :: int
  m_clipnodes :: "mclipnode_t list"
  m_numnodes :: int
  m_nodes :: "mnode_t list"
  m_hulls :: "hull_t list"
  m_entities :: "byte list"
  m_visdata :: "byte list option"
  m_loaded :: bool

definition new_mclipnode_t :: mclipnode_t where
  "new_mclipnode_t = \<lparr>cn_planenum = 0, cn_children = [0, 0]\<rparr>"

definition new_hull_t :: hull_t where
  "new_hull_t = \<lparr>h_clipnodes = NoClipnodes, h_planes = NoPlanes, h_firstclipnode = 0,
     h_lastclipnode = 0, h_clip_mins = [0, 0, 0], h_clip_maxs = [0, 0, 0]\<rparr>"

definition new_mnode_t :: mnode_t where
  "new_mnode_t = \<lparr>n_contents = 0, n_visframe = 0, n_mins = [0, 0, 0], n_maxs = [0, 0, 0],
     n_parent = None, n_plane = None, n_children = [NoChild, NoChild],
     n_firstsurface = 0, n_numsurfaces = 0\<rparr>"

definition new_mleaf_t :: mleaf_t where
  "new_mleaf_t = \<lparr>lf_contents = 0, lf_visframe = 0, lf_mins = [0, 0, 0], lf_maxs = [0, 0, 0],
     lf_parent = None, lf_compressed_vis = None, lf_efrags = None, lf_firstmarksurface = 0,
     lf_nummarksurfaces = 0, lf_key = 0, lf_ambient_sound_level = [0, 0, 0, 0]\<rparr>"

definition new_model_t :: model_t where
  "new_model_t = \<lparr>m_name = [], m_needload = 0, m_type = mod_brush, m_numframes = 0,
     m_synctype = 0, m_flags = 0, m_mins = [0, 0, 0], m_maxs = [0, 0, 0], m_radius = 0,
     m_firstmodelsurface = 0, m_nummodelsurfaces = 0, m_numsubmodels = 0, m_submodels = [],
     m_numplanes = 0, m_planes = [], m_numleafs = 0, m_leafs = [], m_numvertexes = 0,
     m_vertexes = None, m_numclipnodes = 0, m_clipnodes = [], m_numnodes = 0, m_nodes = [],
     m_hulls = [], m_entities = [], m_visdata = None, m_loaded = False\<rparr>"

subsection \<open>Loading the regions\<close>

text \<open>
  Each loader reads the module variable \<^verbatim>\<open>mod_base\<close>, here its argument \<open>base\<close>, and
  changes the model \<^verbatim>\<open>mod\<close> it is given (\<open>mdl\<close> here, since \<open>mod\<close> is an operator of
  HOL); the changed model is its result. An exception leaves the
  function at once and is its result instead.
\<close>

definition plane_signbits :: "float32 list \<Rightarrow> int" where
  "plane_signbits normal =
     (if float32_negative (normal ! 0) then 1 else 0)
     OR (if float32_negative (normal ! 1) then 2 else 0)
     OR (if float32_negative (normal ! 2) then 4 else 0)"

definition load_plane :: "byte list \<Rightarrow> nat \<Rightarrow> error + mplane_t" where
  "load_plane view i =
     (let offset = int i * 20 in
      bindE (getFloat32 view (offset + 0)) (\<lambda>n0.
      bindE (getFloat32 view (offset + 4)) (\<lambda>n1.
      bindE (getFloat32 view (offset + 8)) (\<lambda>n2.
      bindE (getFloat32 view (offset + 12)) (\<lambda>dist.
      bindE (getInt32 view (offset + 16)) (\<lambda>type.
        Inr \<lparr>pl_normal = [n0, n1, n2], pl_dist = dist, pl_type = type,
             pl_signbits = plane_signbits [n0, n1, n2]\<rparr>))))))"

definition Mod_LoadPlanes :: "model_t \<Rightarrow> byte list option \<Rightarrow> int \<Rightarrow> int \<Rightarrow> error + model_t" where
  "Mod_LoadPlanes mdl base fileofs filelen =
     (case base of
        None \<Rightarrow> Inr mdl
      | Some mod_base \<Rightarrow>
          bindE (new_DataView mod_base fileofs filelen) (\<lambda>view.
            let count = filelen div 20 in
            bindE (mapE (load_plane view) [0..<nat count]) (\<lambda>planes.
              Inr (mdl\<lparr>m_planes := planes, m_numplanes := count\<rparr>))))"

definition load_vertex :: "byte list \<Rightarrow> nat \<Rightarrow> error + float32 list" where
  "load_vertex view i =
     (let offset = int i * 12 in
      bindE (getFloat32 view (offset + 0)) (\<lambda>x.
      bindE (getFloat32 view (offset + 4)) (\<lambda>y.
      bindE (getFloat32 view (offset + 8)) (\<lambda>z. Inr [x, y, z]))))"

definition Mod_LoadVertexes :: "model_t \<Rightarrow> byte list option \<Rightarrow> int \<Rightarrow> int \<Rightarrow> error + model_t" where
  "Mod_LoadVertexes mdl base fileofs filelen =
     (case base of
        None \<Rightarrow> Inr mdl
      | Some mod_base \<Rightarrow>
          bindE (new_DataView mod_base fileofs filelen) (\<lambda>view.
            let count = filelen div 12 in
            bindE (mapE (load_vertex view) [0..<nat count]) (\<lambda>vs.
              Inr (mdl\<lparr>m_numvertexes := count, m_vertexes := Some (concat vs)\<rparr>))))"

text \<open>
  \<^verbatim>\<open>new Uint8Array(filelen)\<close> raises on a negative length; \<^verbatim>\<open>set\<close> raises when the
  source is longer than the target, and leaves the rest of the target zero.
\<close>

definition Mod_LoadVisibility :: "model_t \<Rightarrow> byte list option \<Rightarrow> int \<Rightarrow> int \<Rightarrow> error + model_t" where
  "Mod_LoadVisibility mdl base fileofs filelen =
     (case base of
        None \<Rightarrow> Inr mdl
      | Some mod_base \<Rightarrow>
          if filelen = 0 then Inr (mdl\<lparr>m_visdata := None\<rparr>)
          else if filelen < 0 then Inl RangeError
          else
            (let src = subarray mod_base fileofs (fileofs + filelen) in
             if nat filelen < length src then Inl RangeError
             else Inr (mdl\<lparr>m_visdata := Some (src @ replicate (nat filelen - length src) 0)\<rparr>)))"

definition load_leaf :: "byte list \<Rightarrow> byte list \<Rightarrow> int \<Rightarrow> byte list option \<Rightarrow> nat \<Rightarrow> error + mleaf_t" where
  "load_leaf view mod_base fileofs visdata i =
     (let offset = int i * 28 in
      bindE (getInt32 view (offset + 0)) (\<lambda>contents.
      bindE (getInt32 view (offset + 4)) (\<lambda>visofs.
      bindE (getInt16 view (offset + 8)) (\<lambda>mins0.
      bindE (getInt16 view (offset + 10)) (\<lambda>mins1.
      bindE (getInt16 view (offset + 12)) (\<lambda>mins2.
      bindE (getInt16 view (offset + 14)) (\<lambda>maxs0.
      bindE (getInt16 view (offset + 16)) (\<lambda>maxs1.
      bindE (getInt16 view (offset + 18)) (\<lambda>maxs2.
      bindE (getUint16 view (offset + 20)) (\<lambda>firstmarksurface.
      bindE (getUint16 view (offset + 22)) (\<lambda>nummarksurfaces.
        Inr (new_mleaf_t\<lparr>lf_contents := contents,
               lf_compressed_vis :=
                 (case visdata of
                    None \<Rightarrow> None
                  | Some vis \<Rightarrow> if visofs \<noteq> -1 then Some (subarray_from vis visofs) else None),
               lf_mins := [mins0, mins1, mins2], lf_maxs := [maxs0, maxs1, maxs2],
               lf_firstmarksurface := firstmarksurface, lf_nummarksurfaces := nummarksurfaces,
               lf_ambient_sound_level :=
                 map (\<lambda>j. u8_at mod_base (fileofs + offset + 24 + int j)) [0..<4]\<rparr>))))))))))))"

definition Mod_LoadLeafs :: "model_t \<Rightarrow> byte list option \<Rightarrow> int \<Rightarrow> int \<Rightarrow> error + model_t" where
  "Mod_LoadLeafs mdl base fileofs filelen =
     (case base of
        None \<Rightarrow> Inr mdl
      | Some mod_base \<Rightarrow>
          bindE (new_DataView mod_base fileofs filelen) (\<lambda>view.
            let count = filelen div 28 in
            bindE (mapE (load_leaf view mod_base fileofs (m_visdata mdl)) [0..<nat count]) (\<lambda>leafs.
              Inr (mdl\<lparr>m_leafs := leafs, m_numleafs := count\<rparr>))))"

text \<open>
  \<^verbatim>\<open>mod.planes[planenum]\<close>, \<^verbatim>\<open>mod.nodes[child]\<close> and \<^verbatim>\<open>mod.leafs[~child]\<close> are
  \<^verbatim>\<open>undefined\<close> outside the arrays. The node array has \<open>count\<close> objects when the second
  pass runs.
\<close>

definition load_child :: "nat \<Rightarrow> nat \<Rightarrow> int \<Rightarrow> child_ref" where
  "load_child count numleafs child =
     (if child \<ge> 0 then (if nat child < count then NodeChild (nat child) else NoChild)
      else (if nat (- child - 1) < numleafs then LeafChild (nat (- child - 1)) else NoChild))"

definition load_node :: "byte list \<Rightarrow> nat \<Rightarrow> nat \<Rightarrow> nat \<Rightarrow> nat \<Rightarrow> error + mnode_t" where
  "load_node view numplanes count numleafs i =
     (let offset = int i * 24 in
      bindE (getInt32 view (offset + 0)) (\<lambda>planenum.
      bindE (getInt16 view (offset + 4)) (\<lambda>child0.
      bindE (getInt16 view (offset + 6)) (\<lambda>child1.
      bindE (getInt16 view (offset + 8)) (\<lambda>mins0.
      bindE (getInt16 view (offset + 10)) (\<lambda>mins1.
      bindE (getInt16 view (offset + 12)) (\<lambda>mins2.
      bindE (getInt16 view (offset + 14)) (\<lambda>maxs0.
      bindE (getInt16 view (offset + 16)) (\<lambda>maxs1.
      bindE (getInt16 view (offset + 18)) (\<lambda>maxs2.
      bindE (getUint16 view (offset + 20)) (\<lambda>firstsurface.
      bindE (getUint16 view (offset + 22)) (\<lambda>numsurfaces.
        Inr (new_mnode_t\<lparr>
               n_plane := (if 0 \<le> planenum \<and> nat planenum < numplanes
                           then Some (nat planenum) else None),
               n_children := [load_child count numleafs child0, load_child count numleafs child1],
               n_mins := [mins0, mins1, mins2], n_maxs := [maxs0, maxs1, maxs2],
               n_firstsurface := firstsurface, n_numsurfaces := numsurfaces\<rparr>)))))))))))))"

text \<open>
  Mod\_SetParent. The first argument is the depth of call stack that is left: a call with
  none left is the \<^verbatim>\<open>RangeError\<close> of a stack that is too deep, which a cycle among the
  nodes ends in. A leaf whose contents are not negative is taken for a node, and the read
  of its \<^verbatim>\<open>children\<close> raises. A reference always points into the model's arrays (the
  loader builds no other); the function gives a \<^verbatim>\<open>TypeError\<close> for one that does not.
\<close>

fun Mod_SetParent :: "nat \<Rightarrow> child_ref \<Rightarrow> nat option \<Rightarrow> model_t \<Rightarrow> error + model_t" where
  "Mod_SetParent 0 node parent mdl = Inl RangeError"
| "Mod_SetParent (Suc depth) NoChild parent mdl = Inr mdl"
| "Mod_SetParent (Suc depth) (LeafChild i) parent mdl =
     (if i < length (m_leafs mdl) then
        (if lf_contents (m_leafs mdl ! i) < 0
         then Inr (mdl\<lparr>m_leafs := (m_leafs mdl)[i := (m_leafs mdl ! i)\<lparr>lf_parent := parent\<rparr>]\<rparr>)
         else Inl TypeError)
      else Inl TypeError)"
| "Mod_SetParent (Suc depth) (NodeChild i) parent mdl =
     (if i < length (m_nodes mdl) then
        (let mod1 = mdl\<lparr>m_nodes := (m_nodes mdl)[i := (m_nodes mdl ! i)\<lparr>n_parent := parent\<rparr>]\<rparr>
         in if n_contents (m_nodes mod1 ! i) < 0 then Inr mod1
            else
              (case Mod_SetParent depth (n_children (m_nodes mod1 ! i) ! 0) (Some i) mod1 of
                 Inl e \<Rightarrow> Inl e
               | Inr mod2 \<Rightarrow>
                   Mod_SetParent depth (n_children (m_nodes mod2 ! i) ! 1) (Some i) mod2))
      else Inl TypeError)"

definition Mod_LoadNodes :: "nat \<Rightarrow> model_t \<Rightarrow> byte list option \<Rightarrow> int \<Rightarrow> int \<Rightarrow> error + model_t" where
  "Mod_LoadNodes stack mdl base fileofs filelen =
     (case base of
        None \<Rightarrow> Inr mdl
      | Some mod_base \<Rightarrow>
          bindE (new_DataView mod_base fileofs filelen) (\<lambda>view.
            let count = filelen div 24 in
            bindE (mapE (load_node view (length (m_planes mdl)) (nat count) (length (m_leafs mdl)))
                     [0..<nat count]) (\<lambda>nodes.
              Mod_SetParent stack (if nodes = [] then NoChild else NodeChild 0) None
                (mdl\<lparr>m_nodes := nodes, m_numnodes := count\<rparr>))))"

definition load_clipnode :: "byte list \<Rightarrow> nat \<Rightarrow> error + mclipnode_t" where
  "load_clipnode view i =
     (let offset = int i * 8 in
      bindE (getInt32 view (offset + 0)) (\<lambda>planenum.
      bindE (getInt16 view (offset + 4)) (\<lambda>child0.
      bindE (getInt16 view (offset + 6)) (\<lambda>child1.
        Inr \<lparr>cn_planenum = planenum, cn_children = [child0, child1]\<rparr>))))"

definition Mod_LoadClipnodes :: "model_t \<Rightarrow> byte list option \<Rightarrow> int \<Rightarrow> int \<Rightarrow> error + model_t" where
  "Mod_LoadClipnodes mdl base fileofs filelen =
     (case base of
        None \<Rightarrow> Inr mdl
      | Some mod_base \<Rightarrow>
          bindE (new_DataView mod_base fileofs filelen) (\<lambda>view.
            let count = filelen div 8;
                hull1 = new_hull_t\<lparr>h_clipnodes := ModelClipnodes, h_planes := ModelPlanes,
                          h_clip_mins := [-16, -16, -24], h_clip_maxs := [16, 16, 32]\<rparr>;
                hull2 = new_hull_t\<lparr>h_clipnodes := ModelClipnodes, h_planes := ModelPlanes,
                          h_clip_mins := [-32, -32, -24], h_clip_maxs := [32, 32, 64]\<rparr>
            in bindE (mapE (load_clipnode view) [0..<nat count]) (\<lambda>clipnodes.
                 Inr (mdl\<lparr>m_clipnodes := clipnodes, m_numclipnodes := count,
                        m_hulls := [new_hull_t, hull1, hull2, new_hull_t]\<rparr>))))"

text \<open>The entity string, one character per byte; the loop leaves the last byte out.\<close>

definition Mod_LoadEntities :: "model_t \<Rightarrow> byte list option \<Rightarrow> int \<Rightarrow> int \<Rightarrow> error + model_t" where
  "Mod_LoadEntities mdl base fileofs filelen =
     (case base of
        None \<Rightarrow> Inr mdl
      | Some mod_base \<Rightarrow>
          if filelen = 0 then Inr (mdl\<lparr>m_entities := []\<rparr>)
          else Inr (mdl\<lparr>m_entities :=
                 map (\<lambda>i. u8_at mod_base (fileofs + int i)) [0..<nat (filelen - 1)]\<rparr>))"

definition load_submodel :: "byte list \<Rightarrow> nat \<Rightarrow> error + dmodel_t" where
  "load_submodel view i =
     (let offset = int i * 64 in
      bindE (mapE (\<lambda>k. getFloat32 view (offset + 4 * int k)) [0..<9]) (\<lambda>fs.
      bindE (mapE (\<lambda>j. getInt32 view (offset + 36 + int j * 4)) [0..<MAX_MAP_HULLS]) (\<lambda>headnode.
      bindE (getInt32 view (offset + 52)) (\<lambda>visleafs.
      bindE (getInt32 view (offset + 56)) (\<lambda>firstface.
      bindE (getInt32 view (offset + 60)) (\<lambda>numfaces.
        Inr \<lparr>dm_mins = take 3 fs, dm_maxs = take 3 (drop 3 fs), dm_origin = drop 6 fs,
             dm_headnode = headnode, dm_visleafs = visleafs, dm_firstface = firstface,
             dm_numfaces = numfaces\<rparr>))))))"

definition Mod_LoadSubmodels :: "model_t \<Rightarrow> byte list option \<Rightarrow> int \<Rightarrow> int \<Rightarrow> error + model_t" where
  "Mod_LoadSubmodels mdl base fileofs filelen =
     (case base of
        None \<Rightarrow> Inr mdl
      | Some mod_base \<Rightarrow>
          bindE (new_DataView mod_base fileofs filelen) (\<lambda>view.
            let count = filelen div 64 in
            bindE (mapE (load_submodel view) [0..<nat count]) (\<lambda>submodels.
              Inr (mdl\<lparr>m_submodels := submodels, m_numsubmodels := count\<rparr>))))"

subsection \<open>Mod\_MakeHull0\<close>

text \<open>\<^verbatim>\<open>a.indexOf(x)\<close>: the first index that holds \<open>x\<close>, or \<open>-1\<close>.\<close>

fun indexOf :: "'a list \<Rightarrow> 'a \<Rightarrow> int" where
  "indexOf [] x = -1"
| "indexOf (y # ys) x =
     (if y = x then 0 else (let r = indexOf ys x in if r < 0 then -1 else r + 1))"

text \<open>
  The value of one child slot. The search \<^verbatim>\<open>mod.nodes.indexOf(child)\<close> compares
  object identities; the node objects of the array are \<open>NodeChild 0\<close>, \<open>NodeChild 1\<close>,
  and so on.
\<close>

definition hull0_child :: "model_t \<Rightarrow> child_ref \<Rightarrow> error + int" where
  "hull0_child mdl child =
     (case child of
        NoChild \<Rightarrow> Inr CONTENTS_SOLID
      | LeafChild k \<Rightarrow>
          if k < length (m_leafs mdl) then
            (if lf_contents (m_leafs mdl ! k) < 0 then Inr (lf_contents (m_leafs mdl ! k))
             else Inr (indexOf (map NodeChild [0..<length (m_nodes mdl)]) child))
          else Inl TypeError
      | NodeChild k \<Rightarrow>
          if k < length (m_nodes mdl) then
            (if n_contents (m_nodes mdl ! k) < 0 then Inr (n_contents (m_nodes mdl ! k))
             else Inr (indexOf (map NodeChild [0..<length (m_nodes mdl)]) child))
          else Inl TypeError)"

definition hull0_clipnode :: "model_t \<Rightarrow> nat \<Rightarrow> error + mclipnode_t" where
  "hull0_clipnode mdl i =
     (if i < length (m_nodes mdl) then
        (let node = m_nodes mdl ! i in
         bindE (mapE (\<lambda>j. hull0_child mdl (n_children node ! j)) [0..<2]) (\<lambda>children.
           Inr \<lparr>cn_planenum = indexOf (map Some [0..<length (m_planes mdl)]) (n_plane node),
                cn_children = children\<rparr>))
      else Inl TypeError)"

definition Mod_MakeHull0 :: "model_t \<Rightarrow> error + model_t" where
  "Mod_MakeHull0 mdl =
     (case m_hulls mdl of
        [] \<Rightarrow> Inl TypeError
      | hull0 # rest \<Rightarrow>
          (let hull0' = hull0\<lparr>h_planes := ModelPlanes, h_firstclipnode := 0,
                         h_lastclipnode := m_numnodes mdl - 1\<rparr>
           in bindE (mapE (hull0_clipnode mdl) [0..<nat (m_numnodes mdl)]) (\<lambda>clipnodes.
                Inr (mdl\<lparr>m_hulls := (hull0'\<lparr>h_clipnodes := OwnClipnodes clipnodes\<rparr>) # rest\<rparr>))))"

subsection \<open>Mod\_LoadBrushModel\<close>

definition read_lump :: "byte list \<Rightarrow> nat \<Rightarrow> error + int \<times> int" where
  "read_lump view i =
     (let offset = 4 + int i * 8 in
      bindE (getInt32 view offset) (\<lambda>fileofs.
      bindE (getInt32 view (offset + 4)) (\<lambda>filelen. Inr (fileofs, filelen))))"

definition Mod_LoadBrushModel :: "nat \<Rightarrow> model_t \<Rightarrow> byte list \<Rightarrow> byte list option \<Rightarrow> error + model_t" where
  "Mod_LoadBrushModel stack mdl buffer base =
     (let mod0 = mdl\<lparr>m_type := mod_brush\<rparr> in
      bindE (getInt32 buffer 0) (\<lambda>version.
        if version \<noteq> BSPVERSION then Inl SysError
        else
          bindE (mapE (read_lump buffer) [0..<HEADER_LUMPS]) (\<lambda>lumps.
          bindE (Mod_LoadPlanes mod0 base (fst (lumps ! LUMP_PLANES)) (snd (lumps ! LUMP_PLANES))) (\<lambda>mod1.
          bindE (Mod_LoadVertexes mod1 base (fst (lumps ! LUMP_VERTEXES)) (snd (lumps ! LUMP_VERTEXES))) (\<lambda>mod2.
          bindE (Mod_LoadVisibility mod2 base (fst (lumps ! LUMP_VISIBILITY)) (snd (lumps ! LUMP_VISIBILITY))) (\<lambda>mod3.
          bindE (Mod_LoadLeafs mod3 base (fst (lumps ! LUMP_LEAFS)) (snd (lumps ! LUMP_LEAFS))) (\<lambda>mod4.
          bindE (Mod_LoadNodes stack mod4 base (fst (lumps ! LUMP_NODES)) (snd (lumps ! LUMP_NODES))) (\<lambda>mod5.
          bindE (Mod_LoadClipnodes mod5 base (fst (lumps ! LUMP_CLIPNODES)) (snd (lumps ! LUMP_CLIPNODES))) (\<lambda>mod6.
          bindE (Mod_LoadEntities mod6 base (fst (lumps ! LUMP_ENTITIES)) (snd (lumps ! LUMP_ENTITIES))) (\<lambda>mod7.
          bindE (Mod_LoadSubmodels mod7 base (fst (lumps ! LUMP_MODELS)) (snd (lumps ! LUMP_MODELS))) (\<lambda>mod8.
          bindE (Mod_MakeHull0 mod8) (\<lambda>mod9.
            Inr (case m_submodels mod9 of
                   [] \<Rightarrow> mod9
                 | sub # _ \<Rightarrow> mod9\<lparr>m_mins := dm_mins sub, m_maxs := dm_maxs sub\<rparr>)))))))))))))"

subsection \<open>The model cache\<close>

text \<open>
  The module's variables. \<open>COM_LoadFile\<close> belongs to another module: its files are the
  function \<open>com_files\<close> of the environment, and \<open>com_loaded\<close> keeps the names it was
  called with, in order. The environment also gives the depth of the call stack. A model
  object is its slot in \<^verbatim>\<open>mod_known\<close>; Mod\_LoadModel is only ever given an object of
  that array, and the model gives a \<^verbatim>\<open>TypeError\<close> for any other slot. The lines that
  \<^verbatim>\<open>Sys_Printf\<close> prints are left out.
\<close>

record env =
  com_files :: "string \<Rightarrow> byte list option"
  stack_limit :: nat

record mod_state =
  mod_known :: "model_t list"
  mod_numknown :: int
  loadmodel :: "nat option"
  mod_base :: "byte list option"
  com_loaded :: "string list"

definition Mod_Init :: "mod_state \<Rightarrow> mod_state" where
  "Mod_Init s =
     s\<lparr>mod_known := replicate (nat MAX_MOD_KNOWN) new_model_t
                       @ drop (nat MAX_MOD_KNOWN) (mod_known s),
       mod_numknown := 0\<rparr>"

text \<open>Marking the first \<open>n\<close> slots unloaded; a missing slot raises.\<close>

definition Mod_ClearAll :: "mod_state \<Rightarrow> error + mod_state" where
  "Mod_ClearAll s =
     (if int (length (mod_known s)) < mod_numknown s then Inl TypeError
      else Inr (s\<lparr>mod_known :=
                  map (\<lambda>m. m\<lparr>m_loaded := False\<rparr>) (take (nat (mod_numknown s)) (mod_known s))
                  @ drop (nat (mod_numknown s)) (mod_known s)\<rparr>))"

text \<open>The search \<^verbatim>\<open>for (let i = 0; i < mod_numknown; i++)\<close> of Mod\_FindName, over the indices it visits.\<close>

fun find_known :: "model_t list \<Rightarrow> string \<Rightarrow> nat list \<Rightarrow> error + nat option" where
  "find_known known name [] = Inr None"
| "find_known known name (i # is) =
     (if i < length known then
        (if m_name (known ! i) = name then Inr (Some i) else find_known known name is)
      else Inl TypeError)"

definition Mod_FindName :: "string \<Rightarrow> mod_state \<Rightarrow> error + nat \<times> mod_state" where
  "Mod_FindName name s =
     (if name = [] then Inl SysError
      else
        bindE (find_known (mod_known s) name [0..<nat (mod_numknown s)]) (\<lambda>found.
          case found of
            Some i \<Rightarrow> Inr (i, s)
          | None \<Rightarrow>
              if mod_numknown s \<ge> MAX_MOD_KNOWN then Inl SysError
              else if 0 \<le> mod_numknown s \<and> nat (mod_numknown s) < length (mod_known s) then
                Inr (nat (mod_numknown s),
                     s\<lparr>mod_known := (mod_known s)[nat (mod_numknown s) :=
                                       (mod_known s ! nat (mod_numknown s))\<lparr>m_name := name\<rparr>],
                       mod_numknown := mod_numknown s + 1\<rparr>)
              else Inl TypeError))"

definition endsWith :: "string \<Rightarrow> string \<Rightarrow> bool" where
  "endsWith s suffix \<longleftrightarrow>
     length suffix \<le> length s \<and> drop (length s - length suffix) s = suffix"

definition Mod_LoadModel :: "env \<Rightarrow> nat \<Rightarrow> bool \<Rightarrow> mod_state \<Rightarrow> error + nat option \<times> mod_state" where
  "Mod_LoadModel e slot crash s =
     (if length (mod_known s) \<le> slot then Inl TypeError
      else
      let mdl = mod_known s ! slot in
      if m_loaded mdl then Inr (Some slot, s)
      else
        (let s1 = s\<lparr>com_loaded := com_loaded s @ [m_name mdl]\<rparr> in
         case com_files e (m_name mdl) of
           None \<Rightarrow> if crash then Inl SysError else Inr (None, s1)
         | Some buf \<Rightarrow>
             (let s2 = s1\<lparr>loadmodel := Some slot, mod_base := Some buf\<rparr> in
              bindE (getInt32 buf 0) (\<lambda>magic.
              bindE (if magic = BSPVERSION
                     then Mod_LoadBrushModel (stack_limit e) mdl buf (mod_base s2)
                     else Inr (mdl\<lparr>m_type := (if endsWith (m_name mdl) ''.spr''
                                                then mod_sprite else mod_alias)\<rparr>)) (\<lambda>mdl'.
                Inr (Some slot,
                     s2\<lparr>mod_known := (mod_known s2)[slot := mdl'\<lparr>m_loaded := True\<rparr>]\<rparr>))))))"

definition Mod_ForName :: "env \<Rightarrow> string \<Rightarrow> bool \<Rightarrow> mod_state \<Rightarrow> error + nat option \<times> mod_state" where
  "Mod_ForName e name crash s =
     bindE (Mod_FindName name s) (\<lambda>(slot, s1). Mod_LoadModel e slot crash s1)"

subsection \<open>Loaded models and hull 0, as the specification describes them\<close>

text \<open>
  What the node loader builds: the node count is the length of the node array, every node
  has contents 0 and two child slots, and every reference of a node points into the
  model's arrays.
\<close>

definition child_ok :: "model_t \<Rightarrow> child_ref \<Rightarrow> bool" where
  "child_ok mdl c =
     (case c of
        NoChild \<Rightarrow> True
      | NodeChild k \<Rightarrow> k < length (m_nodes mdl)
      | LeafChild k \<Rightarrow> k < length (m_leafs mdl))"

definition node_ok :: "model_t \<Rightarrow> mnode_t \<Rightarrow> bool" where
  "node_ok mdl node \<longleftrightarrow>
     n_contents node = 0 \<and> length (n_children node) = 2 \<and>
     child_ok mdl (n_children node ! 0) \<and> child_ok mdl (n_children node ! 1) \<and>
     (case n_plane node of None \<Rightarrow> True | Some p \<Rightarrow> p < length (m_planes mdl))"

definition model_ok :: "model_t \<Rightarrow> bool" where
  "model_ok mdl \<longleftrightarrow>
     m_numnodes mdl = int (length (m_nodes mdl)) \<and> list_all (node_ok mdl) (m_nodes mdl)"

text \<open>
  The clipnodes \<open>cs\<close> match the node tree: as many as nodes; a clipnode's plane number is
  the index of the node's plane in the plane table (\<open>-1\<close> for a node without one); a
  child slot is the node-array index of a child node, the contents of a child leaf with
  negative contents, and CONTENTS\_SOLID for a missing child. (A child leaf whose
  contents are not negative is searched for among the nodes and gives \<open>-1\<close>.)
\<close>

definition hull0_slot :: "model_t \<Rightarrow> child_ref \<Rightarrow> int" where
  "hull0_slot mdl c =
     (case c of
        NoChild \<Rightarrow> CONTENTS_SOLID
      | NodeChild k \<Rightarrow> int k
      | LeafChild k \<Rightarrow>
          if lf_contents (m_leafs mdl ! k) < 0 then lf_contents (m_leafs mdl ! k) else -1)"

definition hull0_matches :: "model_t \<Rightarrow> mclipnode_t list \<Rightarrow> bool" where
  "hull0_matches mdl cs \<longleftrightarrow>
     length cs = length (m_nodes mdl) \<and>
     (\<forall>i<length (m_nodes mdl).
        cn_planenum (cs ! i) = (case n_plane (m_nodes mdl ! i) of None \<Rightarrow> -1 | Some p \<Rightarrow> int p) \<and>
        cn_children (cs ! i) =
          [hull0_slot mdl (n_children (m_nodes mdl ! i) ! 0),
           hull0_slot mdl (n_children (m_nodes mdl ! i) ! 1)])"

text \<open>A model with every parent reference cleared: what Mod\_SetParent leaves unchanged.\<close>

definition no_parents :: "model_t \<Rightarrow> model_t" where
  "no_parents m =
     m\<lparr>m_nodes := map (\<lambda>n. n\<lparr>n_parent := None\<rparr>) (m_nodes m),
       m_leafs := map (\<lambda>l. l\<lparr>lf_parent := None\<rparr>) (m_leafs m)\<rparr>"

subsection \<open>An example map\<close>

text \<open>
  A small version-29 file of 278 bytes: one plane with normal \<open>(1, 0, 0)\<close> at offset 124, a
  visibility lump of two bytes at 144, three leafs (contents \<open>-2\<close>, \<open>-1\<close>, \<open>-3\<close>; visibility
  offsets \<open>-1\<close>, \<open>0\<close>, \<open>-1\<close>) at 146 and two nodes at 230 (children: node 1 and leaf 0;
  leaf 1 and the child number \<open>-10\<close>, past the leaf table). All other lumps are empty.
\<close>

definition example_bsp :: "byte list" where
  "example_bsp =
     [29, 0, 0, 0, 0, 0, 0, 0, 0, 0, 0, 0, 124, 0, 0, 0,
      20, 0, 0, 0, 0, 0, 0, 0, 0, 0, 0, 0, 0, 0, 0, 0,
      0, 0, 0, 0, 144, 0, 0, 0, 2, 0, 0, 0, 230, 0, 0, 0,
      48, 0, 0, 0, 0, 0, 0, 0, 0, 0, 0, 0, 0, 0, 0, 0,
      0, 0, 0, 0, 0, 0, 0, 0, 0, 0, 0, 0, 0, 0, 0, 0,
      0, 0, 0, 0, 146, 0, 0, 0, 84, 0, 0, 0, 0, 0, 0, 0,
      0, 0, 0, 0, 0, 0, 0, 0, 0, 0, 0, 0, 0, 0, 0, 0,
      0, 0, 0, 0, 0, 0, 0, 0, 0, 0, 0, 0, 0, 0, 128, 63,
      0, 0, 0, 0, 0, 0, 0, 0, 0, 0, 0, 0, 0, 0, 0, 0,
      255, 1, 254, 255, 255, 255, 255, 255, 255, 255, 0, 0, 0, 0, 0, 0,
      0, 0, 0, 0, 0, 0, 0, 0, 0, 0, 0, 0, 0, 0, 255, 255,
      255, 255, 0, 0, 0, 0, 0, 0, 0, 0, 0, 0, 0, 0, 0, 0,
      0, 0, 0, 0, 0, 0, 0, 0, 0, 0, 253, 255, 255, 255, 255, 255,
      255, 255, 0, 0, 0, 0, 0, 0, 0, 0, 0, 0, 0, 0, 0, 0,
      0, 0, 0, 0, 0, 0, 0, 0, 0, 0, 1, 0, 255, 255, 0, 0,
      0, 0, 0, 0, 0, 0, 0, 0, 0, 0, 0, 0, 0, 0, 0, 0,
      0, 0, 254, 255, 246, 255, 0, 0, 0, 0, 0, 0, 0, 0, 0, 0,
      0, 0, 0, 0, 0, 0]"

definition example_model :: model_t where
  "example_model =
     new_model_t\<lparr>
       m_numplanes := 1,
       m_planes := [\<lparr>pl_normal = [0x3F800000, 0, 0], pl_dist = 0, pl_type = 0, pl_signbits = 0\<rparr>],
       m_numleafs := 3,
       m_leafs := [new_mleaf_t\<lparr>lf_contents := -2, lf_parent := Some 0\<rparr>,
                   new_mleaf_t\<lparr>lf_contents := -1, lf_compressed_vis := Some [255, 1],
                     lf_parent := Some 1\<rparr>,
                   new_mleaf_t\<lparr>lf_contents := -3\<rparr>],
       m_numvertexes := 0, m_vertexes := Some [],
       m_numclipnodes := 0, m_clipnodes := [],
       m_numnodes := 2,
       m_nodes := [new_mnode_t\<lparr>n_plane := Some 0, n_children := [NodeChild 1, LeafChild 0]\<rparr>,
                   new_mnode_t\<lparr>n_plane := Some 0, n_children := [LeafChild 1, NoChild],
                     n_parent := Some 0\<rparr>],
       m_hulls := [new_hull_t\<lparr>h_planes := ModelPlanes, h_firstclipnode := 0, h_lastclipnode := 1,
                     h_clipnodes := OwnClipnodes [\<lparr>cn_planenum = 0, cn_children = [1, -2]\<rparr>,
                                                  \<lparr>cn_planenum = 0, cn_children = [-1, -2]\<rparr>]\<rparr>,
                   new_hull_t\<lparr>h_clipnodes := ModelClipnodes, h_planes := ModelPlanes,
                     h_clip_mins := [-16, -16, -24], h_clip_maxs := [16, 16, 32]\<rparr>,
                   new_hull_t\<lparr>h_clipnodes := ModelClipnodes, h_planes := ModelPlanes,
                     h_clip_mins := [-32, -32, -24], h_clip_maxs := [32, 32, 64]\<rparr>,
                   new_hull_t],
       m_visdata := Some [255, 1]\<rparr>"

text \<open>
  The same file with the length of the visibility lump set to 0 (byte 40), and the model
  it loads to: no visibility data, and no leaf with a \<^verbatim>\<open>compressed_vis\<close>, although leaf 1
  still stores the visibility offset 0.
\<close>

definition example_bsp0 :: "byte list" where
  "example_bsp0 =
     [29, 0, 0, 0, 0, 0, 0, 0, 0, 0, 0, 0, 124, 0, 0, 0,
      20, 0, 0, 0, 0, 0, 0, 0, 0, 0, 0, 0, 0, 0, 0, 0,
      0, 0, 0, 0, 144, 0, 0, 0, 0, 0, 0, 0, 230, 0, 0, 0,
      48, 0, 0, 0, 0, 0, 0, 0, 0, 0, 0, 0, 0, 0, 0, 0,
      0, 0, 0, 0, 0, 0, 0, 0, 0, 0, 0, 0, 0, 0, 0, 0,
      0, 0, 0, 0, 146, 0, 0, 0, 84, 0, 0, 0, 0, 0, 0, 0,
      0, 0, 0, 0, 0, 0, 0, 0, 0, 0, 0, 0, 0, 0, 0, 0,
      0, 0, 0, 0, 0, 0, 0, 0, 0, 0, 0, 0, 0, 0, 128, 63,
      0, 0, 0, 0, 0, 0, 0, 0, 0, 0, 0, 0, 0, 0, 0, 0,
      255, 1, 254, 255, 255, 255, 255, 255, 255, 255, 0, 0, 0, 0, 0, 0,
      0, 0, 0, 0, 0, 0, 0, 0, 0, 0, 0, 0, 0, 0, 255, 255,
      255, 255, 0, 0, 0, 0, 0, 0, 0, 0, 0, 0, 0, 0, 0, 0,
      0, 0, 0, 0, 0, 0, 0, 0, 0, 0, 253, 255, 255, 255, 255, 255,
      255, 255, 0, 0, 0, 0, 0, 0, 0, 0, 0, 0, 0, 0, 0, 0,
      0, 0, 0, 0, 0, 0, 0, 0, 0, 0, 1, 0, 255, 255, 0, 0,
      0, 0, 0, 0, 0, 0, 0, 0, 0, 0, 0, 0, 0, 0, 0, 0,
      0, 0, 254, 255, 246, 255, 0, 0, 0, 0, 0, 0, 0, 0, 0, 0,
      0, 0, 0, 0, 0, 0]"

definition example_model0 :: model_t where
  "example_model0 =
     new_model_t\<lparr>
       m_numplanes := 1,
       m_planes := [\<lparr>pl_normal = [0x3F800000, 0, 0], pl_dist = 0, pl_type = 0, pl_signbits = 0\<rparr>],
       m_numleafs := 3,
       m_leafs := [new_mleaf_t\<lparr>lf_contents := -2, lf_parent := Some 0\<rparr>,
                   new_mleaf_t\<lparr>lf_contents := -1, lf_parent := Some 1\<rparr>,
                   new_mleaf_t\<lparr>lf_contents := -3\<rparr>],
       m_numvertexes := 0, m_vertexes := Some [],
       m_numclipnodes := 0, m_clipnodes := [],
       m_numnodes := 2,
       m_nodes := [new_mnode_t\<lparr>n_plane := Some 0, n_children := [NodeChild 1, LeafChild 0]\<rparr>,
                   new_mnode_t\<lparr>n_plane := Some 0, n_children := [LeafChild 1, NoChild],
                     n_parent := Some 0\<rparr>],
       m_hulls := [new_hull_t\<lparr>h_planes := ModelPlanes, h_firstclipnode := 0, h_lastclipnode := 1,
                     h_clipnodes := OwnClipnodes [\<lparr>cn_planenum = 0, cn_children = [1, -2]\<rparr>,
                                                  \<lparr>cn_planenum = 0, cn_children = [-1, -2]\<rparr>]\<rparr>,
                   new_hull_t\<lparr>h_clipnodes := ModelClipnodes, h_planes := ModelPlanes,
                     h_clip_mins := [-16, -16, -24], h_clip_maxs := [16, 16, 32]\<rparr>,
                   new_hull_t\<lparr>h_clipnodes := ModelClipnodes, h_planes := ModelPlanes,
                     h_clip_mins := [-32, -32, -24], h_clip_maxs := [32, 32, 64]\<rparr>,
                   new_hull_t],
       m_visdata := None\<rparr>"

text \<open>
  The module's variables before Mod\_Init, a file system that holds the example map, and
  the module's variables after the example map has been loaded into slot 0.
\<close>

definition module_vars :: mod_state where
  "module_vars = \<lparr>mod_known = [], mod_numknown = 0, loadmodel = None, mod_base = None,
                   com_loaded = []\<rparr>"

definition example_env :: env where
  "example_env = \<lparr>com_files = (\<lambda>name. if name = ''maps/example.bsp'' then Some example_bsp else None),
                   stack_limit = 10\<rparr>"

definition example_loaded :: mod_state where
  "example_loaded =
     \<lparr>mod_known = (example_model\<lparr>m_name := ''maps/example.bsp'', m_loaded := True\<rparr>)
                     # replicate 511 new_model_t,
      mod_numknown = 1, loadmodel = Some 0, mod_base = Some example_bsp,
      com_loaded = [''maps/example.bsp'']\<rparr>"

section \<open>Properties of the arithmetic\<close>

lemma rne_of_int [simp]: "rne (of_int k) = k"
  by (simp add: rne_def)

lemma rne_bounds: "of_int (rne y) \<le> y + 1/2" "y - 1/2 \<le> of_int (rne y)"
  unfolding rne_def Let_def by (auto; linarith)+





lemma bexp_range: "lo \<le> bexp n lo a \<and> bexp n lo a \<le> lo + int n"
  by (induction n) auto

lemma bexp_lower: "lo < bexp n lo a \<Longrightarrow> 2 powi (bexp n lo a) \<le> a"
  by (induction n) (auto split: if_splits)

lemma bexp_upper: "bexp n lo a < lo + int n \<Longrightarrow> a < 2 powi (bexp n lo a + 1)"
proof (induction n)
  case 0
  then show ?case by simp
next
  case (Suc n)
  show ?case
  proof (cases "2 powi (lo + int (Suc n)) \<le> a")
    case True
    with Suc.prems show ?thesis by simp
  next
    case False
    then have e: "bexp (Suc n) lo a = bexp n lo a" by simp
    show ?thesis
    proof (cases "bexp n lo a < lo + int n")
      case True
      with Suc.IH e show ?thesis by simp
    next
      case False
      with bexp_range[of lo n a] have "bexp n lo a = lo + int n" by simp
      with \<open>\<not> 2 powi (lo + int (Suc n)) \<le> a\<close> e show ?thesis
        by (simp add: ac_simps)
    qed
  qed
qed


lemma bexp_eq:
  assumes "lo \<le> e" "e \<le> lo + int n" "lo < e \<longrightarrow> 2 powi e \<le> a"
    "e < lo + int n \<longrightarrow> a < 2 powi (e + 1)"
  shows "bexp n lo a = e"
proof (rule ccontr)
  assume ne: "bexp n lo a \<noteq> e"
  let ?e = "bexp n lo a"
  note r = bexp_range[of lo n a]
  show False
  proof (cases "?e < e")
    case True
    with assms(2) have "?e < lo + int n" by simp
    from bexp_upper[OF this] have "a < 2 powi (?e + 1)" .
    also have "\<dots> \<le> 2 powi e" using True by (intro power_int_increasing) auto
    finally show False using assms(3) True r by simp
  next
    case False
    with ne have g: "e < ?e" by simp
    with assms(1) have "lo < ?e" by simp
    from bexp_lower[OF this] have "2 powi ?e \<le> a" .
    moreover have "2 powi (e + 1) \<le> (2::real) powi ?e" using g by (intro power_int_increasing) auto
    ultimately show False using assms(4) g r by simp
  qed
qed


lemma powi2_pos: "(0::real) < 2 powi a"
  by (simp add: zero_less_power_int)











lemma round_float_exact:
  assumes "x / 2 powi (bexp (nat (emax - emin)) emin \<bar>x\<bar> - (int p - 1)) = of_int k"
    and "\<bar>x\<bar> < 2 powi (emax + 1)"
  shows "round_float p emin emax x = Finite x"
proof -
  let ?u = "(2::real) powi (bexp (nat (emax - emin)) emin \<bar>x\<bar> - (int p - 1))"
  have u: "0 < ?u" by (rule powi2_pos)
  from assms(1) u have x: "x = of_int k * ?u" by (simp add: field_simps)
  have "round_real p emin emax x = of_int k * ?u"
    by (simp only: round_real_def Let_def assms(1) rne_of_int)
  with x have "round_real p emin emax x = x" by simp
  with assms(2) show ?thesis by (simp add: round_float_def Let_def)
qed

lemma round_float_int:
  assumes p: "1 \<le> p" and emin: "emin \<le> 0" and emax: "int p \<le> emax" and k: "\<bar>k\<bar> \<le> 2 ^ p"
  shows "round_float p emin emax (of_int k) = Finite (of_int k)"
proof -
  let ?n = "nat (emax - emin)"
  let ?a = "\<bar>of_int k :: real\<bar>"
  let ?e = "bexp ?n emin ?a"
  note r = bexp_range[of emin ?n ?a]
  have "(of_int \<bar>k\<bar> :: real) \<le> of_int (2 ^ p)" using k by (simp only: of_int_le_iff)
  then have ak: "?a \<le> 2 powi (int p)" by simp
  have ep: "?e \<le> int p"
  proof (rule ccontr)
    assume "\<not> ?e \<le> int p"
    then have g: "int p < ?e" by simp
    with emin have "emin < ?e" by simp
    from bexp_lower[OF this] have "2 powi ?e \<le> ?a" .
    moreover have "(2::real) powi (int p) < 2 powi ?e"
      using g by (intro power_int_strict_increasing) auto
    ultimately show False using ak by linarith
  qed
  have lt: "?a < 2 powi (emax + 1)"
  proof -
    have "(2::real) powi (int p) < 2 powi (emax + 1)"
      using emax by (intro power_int_strict_increasing) auto
    with ak show ?thesis by linarith
  qed
  have "\<exists>j. of_int k / (2::real) powi (?e - (int p - 1)) = of_int j"
  proof (cases "?e = int p")
    case True
    with emin p have "emin < ?e" by simp
    from bexp_lower[OF this] True ak have "?a = 2 powi (int p)" by simp
    then have "(of_int \<bar>k\<bar> :: real) = of_int (2 ^ p)" by simp
    then have "\<bar>k\<bar> = 2 ^ p" by (simp only: of_int_eq_iff)
    then have kk: "k = 2 ^ p \<or> k = - (2 ^ p)" by linarith
    have pp: "(2::int) ^ p = 2 * 2 ^ (p - 1)" using p by (cases p) simp_all
    have u2: "(2::real) powi (?e - (int p - 1)) = 2" using True by simp
    from kk show ?thesis
    proof
      assume "k = 2 ^ p"
      then have "k = 2 * 2 ^ (p - 1)" using pp by simp
      then have "of_int k / (2::real) = of_int (2 ^ (p - 1))" by simp
      then show ?thesis unfolding u2 by blast
    next
      assume "k = - (2 ^ p)"
      then have "k = 2 * (- (2 ^ (p - 1)))" using pp by simp
      then have "of_int k / (2::real) = of_int (- (2 ^ (p - 1)))" by simp
      then show ?thesis unfolding u2 by blast
    qed
  next
    case False
    with ep have "0 \<le> int p - 1 - ?e" by simp
    then obtain m where m: "int p - 1 - ?e = int m" using nonneg_int_cases by blast
    have "?e - (int p - 1) = - int m" using m by simp
    then have "(2::real) powi (?e - (int p - 1)) = inverse (2 ^ m)"
      by (simp add: power_int_minus)
    then have "of_int k / (2::real) powi (?e - (int p - 1)) = of_int (k * 2 ^ m)"
      by (simp add: field_simps)
    then show ?thesis by blast
  qed
  then obtain j where "of_int k / (2::real) powi (?e - (int p - 1)) = of_int j" ..
  from round_float_exact[OF this lt] show ?thesis .
qed

lemma round64_int: "\<bar>k\<bar> \<le> 9007199254740992 \<Longrightarrow> round64 (of_int k) = Finite (of_int k)"
  unfolding round64_def by (rule round_float_int) simp_all

lemma round32_int: "\<bar>k\<bar> \<le> 16777216 \<Longrightarrow> round32 (of_int k) = Finite (of_int k)"
  unfolding round32_def by (rule round_float_int) simp_all

lemma round64_numeral:
  "numeral n \<le> (9007199254740992::int) \<Longrightarrow> round64 (numeral n) = Finite (numeral n)"
  "numeral n \<le> (9007199254740992::int) \<Longrightarrow> round64 (- numeral n) = Finite (- numeral n)"
  "round64 0 = Finite 0" "round64 1 = Finite 1" "round64 (- 1) = Finite (- 1)"
  using round64_int[of "numeral n"] round64_int[of "- numeral n"] round64_int[of 0]
    round64_int[of 1] round64_int[of "- 1"]
  by simp_all

lemma round32_numeral:
  "numeral n \<le> (16777216::int) \<Longrightarrow> round32 (numeral n) = Finite (numeral n)"
  "numeral n \<le> (16777216::int) \<Longrightarrow> round32 (- numeral n) = Finite (- numeral n)"
  "round32 0 = Finite 0" "round32 1 = Finite 1" "round32 (- 1) = Finite (- 1)"
  using round32_int[of "numeral n"] round32_int[of "- numeral n"] round32_int[of 0]
    round32_int[of 1] round32_int[of "- 1"]
  by simp_all


lemma round_float_not_NaN [simp]: "round_float p emin emax x \<noteq> NaN"
  by (simp add: round_float_def Let_def)

lemma round64_not_NaN [simp]: "round64 x \<noteq> NaN"
  by (simp add: round64_def)

lemma num_le_top [simp]: "num_le a PlusInfinity \<longleftrightarrow> a \<noteq> NaN"
  by (cases a) simp_all

lemma num_le_bot [simp]: "num_le MinusInfinity b \<longleftrightarrow> b \<noteq> NaN"
  by (cases b) simp_all

lemma num_le_NaN [simp]: "\<not> num_le a NaN" "\<not> num_lt a NaN"
  by (cases a; simp)+

lemma num_le_not_NaN: "num_le a b \<Longrightarrow> a \<noteq> NaN \<and> b \<noteq> NaN"
  by (cases a; cases b) simp_all

lemma num_lt_not_NaN: "num_lt a b \<Longrightarrow> a \<noteq> NaN \<and> b \<noteq> NaN"
  by (cases a; cases b) simp_all



lemma num_le_refl: "a \<noteq> NaN \<Longrightarrow> num_le a a"
  by (cases a) simp_all

lemma num_le_antisym: "num_le a b \<Longrightarrow> num_le b a \<Longrightarrow> a = b"
  by (cases a; cases b) simp_all

lemma js_add_NaN [simp]: "js_add a NaN = NaN"
  by (cases a) simp_all

lemma js_mul_NaN [simp]: "js_mul a NaN = NaN"
  by (cases a) simp_all






lemma rne_eval:
  assumes "of_int f \<le> y" "y < of_int f + 1"
  shows "rne y = (if y - of_int f < 1 / 2 then f else if 1 / 2 < y - of_int f then f + 1
                  else if even f then f else f + 1)"
proof -
  from assms have "\<lfloor>y\<rfloor> = f" by (intro floor_unique) simp_all
  then show ?thesis by (simp add: rne_def Let_def)
qed

lemma round_real_at:
  assumes "emin \<le> e" "e \<le> emax" "emin < e \<longrightarrow> 2 powi e \<le> \<bar>x\<bar>"
    "e < emax \<longrightarrow> \<bar>x\<bar> < 2 powi (e + 1)"
  shows "round_real p emin emax x =
           of_int (rne (x / 2 powi (e - (int p - 1)))) * 2 powi (e - (int p - 1))"
proof -
  from assms(1,2) have n: "emin + int (nat (emax - emin)) = emax" by simp
  have "bexp (nat (emax - emin)) emin \<bar>x\<bar> = e"
    using assms by (intro bexp_eq) (simp_all add: n)
  then show ?thesis by (simp add: round_real_def Let_def)
qed

lemma is_double_simps [simp]:
  "is_double NaN" "is_double PlusInfinity" "is_double MinusInfinity"
  "is_double (Finite 0)" "is_double (Finite 1)" "is_double (Finite (- 1))"
  "numeral n \<le> (9007199254740992::int) \<Longrightarrow> is_double (Finite (numeral n))"
  "numeral n \<le> (9007199254740992::int) \<Longrightarrow> is_double (Finite (- numeral n))"
  by (simp_all add: is_double_def round64_numeral)

lemma js_mul_one: "is_double a \<Longrightarrow> js_mul (Finite 1) a = a"
  by (cases a) (simp_all add: is_double_def)

lemma js_mul_zero: "is_finite a \<Longrightarrow> js_mul (Finite 0) a = Finite 0"
  by (cases a) (simp_all add: is_finite_def round64_numeral)

lemma js_add_zero: "is_double a \<Longrightarrow> js_add a (Finite 0) = a" "is_double a \<Longrightarrow> js_add (Finite 0) a = a"
  by (cases a; simp add: is_double_def)+

text \<open>Two roundings that are not exact.\<close>

lemma round32_tie_up: "round32 16777219 = Finite 16777220"
proof -
  have "round_real 24 (-126) 127 16777219 =
          of_int (rne (16777219 / 2 powi (24 - (int 24 - 1)))) * 2 powi (24 - (int 24 - 1))"
    by (rule round_real_at) simp_all
  moreover have "rne (16777219 / 2) = 8388610"
    by (subst rne_eval[of 8388609]) simp_all
  ultimately have "round_real 24 (-126) 127 16777219 = 16777220" by simp
  then show ?thesis by (simp add: round32_def round_float_def Let_def)
qed

lemma round32_tie_down: "round32 16777221 = Finite 16777220"
proof -
  have "round_real 24 (-126) 127 16777221 =
          of_int (rne (16777221 / 2 powi (24 - (int 24 - 1)))) * 2 powi (24 - (int 24 - 1))"
    by (rule round_real_at) simp_all
  moreover have "rne (16777221 / 2) = 8388610"
    by (subst rne_eval[of 8388610]) simp_all
  ultimately have "round_real 24 (-126) 127 16777221 = 16777220" by simp
  then show ?thesis by (simp add: round32_def round_float_def Let_def)
qed



section \<open>Properties of the classifier\<close>

lemma vec_at_axis [simp]:
  "vec_at v 0 = Some (v0 v)" "vec_at v 1 = Some (v1 v)" "vec_at v 2 = Some (v2 v)"
  by (cases v; simp)+


text \<open>
  The eight branches of the switch compute the projections of the far and of the near
  corner that the mask selects.
\<close>

lemma switch_signbits_corners:
  assumes "0 \<le> sb" "sb < 8"
  shows "switch_signbits emins emaxs n sb =
           (dot n (far_corner emins emaxs sb), dot n (near_corner emins emaxs sb))"
proof -
  from assms have "sb = 0 \<or> sb = 1 \<or> sb = 2 \<or> sb = 3 \<or> sb = 4 \<or> sb = 5 \<or> sb = 6 \<or> sb = 7"
    by arith
  then show ?thesis
    by (elim disjE) (simp_all add: switch_signbits_def dot_def far_corner_def near_corner_def)
qed




text \<open>The result of the general case in terms of the two computed projections.\<close>

lemma general_bits:
  assumes "0 \<le> p_signbits p" "p_signbits p < 8"
  shows "BOX_ON_PLANE_SIDE_general emins emaxs p =
     (if num_le (p_dist p) (dot (p_normal p) (far_corner emins emaxs (p_signbits p))) then 1 else 0)
     + (if num_lt (dot (p_normal p) (near_corner emins emaxs (p_signbits p))) (p_dist p) then 2 else 0)"
  by (simp add: BOX_ON_PLANE_SIDE_general_def switch_signbits_corners[OF assms] Let_def)

lemma axial_sides_range: "BOX_ON_PLANE_SIDE_axial emins emaxs p \<in> {1, 2, 3}"
  by (simp add: BOX_ON_PLANE_SIDE_axial_def)

text \<open>
  The projections on the unit vector of an axis are the coordinates on this axis, when
  these are doubles and the other coordinates are finite.
\<close>

lemma dot_axis:
  assumes "k \<in> {0, 1, 2}" "vec_at c k = Some x" "is_double x" "others_finite k c"
  shows "dot (axis k) c = x"
  using assms
  by (cases c)
     (auto simp: dot_def axis_def others_finite_def js_mul_one js_mul_zero js_add_zero
        round64_numeral split: if_splits)

lemma corner_at_axis:
  assumes "k \<in> {0, 1, 2}" "vec_at emins k = Some lo" "vec_at emaxs k = Some hi"
  shows "vec_at (far_corner emins emaxs sb) k = Some (if bit sb (nat k) then lo else hi)"
    and "vec_at (near_corner emins emaxs sb) k = Some (if bit sb (nat k) then hi else lo)"
  using assms by (auto simp: far_corner_def near_corner_def)

lemma corner_others_finite:
  assumes "others_finite k emins" "others_finite k emaxs"
  shows "others_finite k (far_corner emins emaxs sb)" "others_finite k (near_corner emins emaxs sb)"
  using assms by (auto simp: others_finite_def far_corner_def near_corner_def)

text \<open>The two paths on a plane whose normal is the unit vector of its axis.\<close>

lemma axial_path:
  assumes "k \<in> {0, 1, 2}" "p_type p = k" "vec_at emins k = Some lo" "vec_at emaxs k = Some hi"
  shows "BOX_ON_PLANE_SIDE emins emaxs p =
           (if num_le (p_dist p) lo then 1 else if num_le hi (p_dist p) then 2 else 3)"
  using assms
  by (auto simp: BOX_ON_PLANE_SIDE_def BOX_ON_PLANE_SIDE_axial_def js_le_def js_ge_def)

lemma general_path_axis:
  assumes k: "k \<in> {0, 1, 2}" and n: "p_normal p = axis k" and sb: "0 \<le> sb" "sb < 8"
    and lo: "vec_at emins k = Some lo" and hi: "vec_at emaxs k = Some hi"
    and d: "is_double lo" "is_double hi"
    and f: "others_finite k emins" "others_finite k emaxs"
  shows "BOX_ON_PLANE_SIDE_general emins emaxs (p\<lparr>p_signbits := sb\<rparr>) =
           (if bit sb (nat k)
            then (if num_le (p_dist p) lo then 1 else 0) + (if num_lt hi (p_dist p) then 2 else 0)
            else (if num_le (p_dist p) hi then 1 else 0) + (if num_lt lo (p_dist p) then 2 else 0))"
proof -
  have "dot (axis k) (far_corner emins emaxs sb) = (if bit sb (nat k) then lo else hi)"
    using d by (intro dot_axis[OF k corner_at_axis(1)[OF k lo hi] _ corner_others_finite(1)[OF f]])
      simp
  moreover have "dot (axis k) (near_corner emins emaxs sb) = (if bit sb (nat k) then hi else lo)"
    using d by (intro dot_axis[OF k corner_at_axis(2)[OF k lo hi] _ corner_others_finite(2)[OF f]])
      simp
  ultimately show ?thesis
    using general_bits[of "p\<lparr>p_signbits := sb\<rparr>" emins emaxs] sb n by simp
qed

lemma num_order_cases:
  assumes "d \<noteq> NaN" "num_le lo hi"
  shows "num_le d lo \<or> (num_lt lo d \<and> num_lt d hi) \<or> (hi = d \<and> num_lt lo d) \<or> num_lt hi d"
  using assms by (cases d; cases lo; cases hi) auto




text \<open>
  Claim C2, as the code has it. Take a plane of axial type \<open>k < 3\<close> whose normal is the unit
  vector of axis \<open>k\<close> (its matching sign mask is 0) and whose distance is not \<^verbatim>\<open>NaN\<close>, and
  a box with \<open>mins \<le> maxs\<close> whose coordinates on the other two axes are finite; write \<open>lo\<close>
  and \<open>hi\<close> for the extent of the box along \<open>k\<close>. The fast axial path returns 1 when
  \<open>dist \<le> lo\<close>, else 2 when \<open>hi \<le> dist\<close>, else 3. The general path, under a mask that
  leaves the bit of axis \<open>k\<close> clear (the matching mask is one), sets bit 0 iff
  \<open>dist \<le> hi\<close> and bit 1 iff \<open>lo < dist\<close>; under a mask with that bit set it sets bit 0
  iff \<open>dist \<le> lo\<close> and bit 1 iff \<open>hi < dist\<close>. So under each of the 8 masks both paths
  return 1 for a box in front of the plane (\<open>dist \<le> lo\<close>) and 2 for a box strictly behind
  it (\<open>hi < dist\<close>); for a box that straddles the plane (\<open>lo < dist < hi\<close>) the fast path
  returns 3 and the general path 3 under the masks with the bit clear and 0 under the
  others; and for a box that only touches the plane from behind (\<open>hi = dist\<close>, \<open>lo < dist\<close>)
  the fast path returns 2 and the general path 3 or 0.
\<close>

theorem BOX_ON_PLANE_SIDE_axial_general:
  assumes "p_type p \<in> {0, 1, 2}" and "p_normal p = axis (p_type p)"
    and "0 \<le> sb" and "sb < 8" and "box_ok emins emaxs"
    and "vec_at emins (p_type p) = Some lo" and "vec_at emaxs (p_type p) = Some hi"
    and "is_double lo" and "is_double hi"
    and "others_finite (p_type p) emins" and "others_finite (p_type p) emaxs"
    and "p_dist p \<noteq> NaN"
  shows "signbits_of (p_normal p) = 0 \<and>
     BOX_ON_PLANE_SIDE emins emaxs p =
       (if num_le (p_dist p) lo then 1 else if num_le hi (p_dist p) then 2 else 3) \<and>
     BOX_ON_PLANE_SIDE_general emins emaxs (p\<lparr>p_signbits := sb\<rparr>) =
       (if bit sb (nat (p_type p))
        then (if num_le (p_dist p) lo then 1 else 0) + (if num_lt hi (p_dist p) then 2 else 0)
        else (if num_le (p_dist p) hi then 1 else 0) + (if num_lt lo (p_dist p) then 2 else 0)) \<and>
     (num_le (p_dist p) lo \<longrightarrow>
        BOX_ON_PLANE_SIDE emins emaxs p = 1 \<and>
        BOX_ON_PLANE_SIDE_general emins emaxs (p\<lparr>p_signbits := sb\<rparr>) = 1) \<and>
     (num_lt hi (p_dist p) \<longrightarrow>
        BOX_ON_PLANE_SIDE emins emaxs p = 2 \<and>
        BOX_ON_PLANE_SIDE_general emins emaxs (p\<lparr>p_signbits := sb\<rparr>) = 2) \<and>
     (num_lt lo (p_dist p) \<and> num_lt (p_dist p) hi \<longrightarrow>
        BOX_ON_PLANE_SIDE emins emaxs p = 3 \<and>
        BOX_ON_PLANE_SIDE_general emins emaxs (p\<lparr>p_signbits := sb\<rparr>)
          = (if bit sb (nat (p_type p)) then 0 else 3)) \<and>
     (hi = p_dist p \<and> num_lt lo (p_dist p) \<longrightarrow>
        BOX_ON_PLANE_SIDE emins emaxs p = 2 \<and>
        BOX_ON_PLANE_SIDE_general emins emaxs (p\<lparr>p_signbits := sb\<rparr>)
          = (if bit sb (nat (p_type p)) then 0 else 3)) \<and>
     (BOX_ON_PLANE_SIDE emins emaxs p = BOX_ON_PLANE_SIDE_general emins emaxs (p\<lparr>p_signbits := sb\<rparr>)
        \<longleftrightarrow> num_le (p_dist p) lo \<or> num_lt hi (p_dist p)
             \<or> (\<not> bit sb (nat (p_type p)) \<and> num_lt lo (p_dist p) \<and> num_lt (p_dist p) hi))"
proof -
  let ?d = "p_dist p"
  have s: "signbits_of (p_normal p) = 0"
    using assms(1,2) by (auto simp: signbits_of_def axis_def)
  note a = axial_path[OF assms(1) refl assms(6,7)]
  note g = general_path_axis[OF assms(1,2,3,4,6,7,8,9,10,11)]
  have lh: "num_le lo hi"
    using assms(1,5,6,7) by (cases emins; cases emaxs) (auto simp: box_ok_def)
  have r: "(num_le ?d lo \<or> num_lt hi ?d \<or> (num_lt lo ?d \<and> num_lt ?d hi) \<or> (hi = ?d \<and> num_lt lo ?d))"
    using num_order_cases[OF assms(12) lh] by blast
  have x: "num_le ?d lo \<Longrightarrow> \<not> num_lt lo ?d \<and> \<not> num_lt hi ?d \<and> num_le ?d hi"
    "num_lt hi ?d \<Longrightarrow> \<not> num_le ?d hi \<and> \<not> num_le ?d lo \<and> num_lt lo ?d \<and> num_le hi ?d
       \<and> \<not> num_lt ?d hi \<and> hi \<noteq> ?d"
    "num_lt lo ?d \<and> num_lt ?d hi \<Longrightarrow> \<not> num_le ?d lo \<and> \<not> num_le hi ?d \<and> num_le ?d hi \<and> \<not> num_lt hi ?d
       \<and> hi \<noteq> ?d"
    "hi = ?d \<and> num_lt lo ?d \<Longrightarrow> \<not> num_le ?d lo \<and> num_le hi ?d \<and> num_le ?d hi \<and> \<not> num_lt hi ?d
       \<and> \<not> num_lt ?d hi"
    using lh assms(12) by (cases ?d; cases lo; cases hi; auto)+
  from r show ?thesis
  proof (elim disjE)
    assume c: "num_le ?d lo"
    with x(1)[OF c] show ?thesis by (simp add: s a g)
  next
    assume c: "num_lt hi ?d"
    with x(2)[OF c] show ?thesis by (simp add: s a g)
  next
    assume c: "num_lt lo ?d \<and> num_lt ?d hi"
    with x(3)[OF c] show ?thesis by (simp add: s a g)
  next
    assume c: "hi = ?d \<and> num_lt lo ?d"
    with x(4)[OF c] show ?thesis by (simp add: s a g)
  qed
qed

text \<open>
  The theorem at the plane \<open>y = 2\<close> (type 1) and the box from \<open>(0, 1, 0)\<close> to
  \<open>(4, 3, 4)\<close>, which straddles it, under the mask 5, which leaves the bit of axis 1 clear.
\<close>

theorem BOX_ON_PLANE_SIDE_axial_general_witness:
  "p_type \<lparr>p_normal = Vec3 (Finite 0) (Finite 1) (Finite 0), p_dist = Finite 2,
           p_type = 1, p_signbits = 0\<rparr> \<in> {0, 1, 2} \<and>
   Vec3 (Finite 0) (Finite 1) (Finite 0) = axis 1 \<and>
   box_ok (Vec3 (Finite 0) (Finite 1) (Finite 0)) (Vec3 (Finite 4) (Finite 3) (Finite 4)) \<and>
   vec_at (Vec3 (Finite 0) (Finite 1) (Finite 0)) 1 = Some (Finite 1) \<and>
   vec_at (Vec3 (Finite 4) (Finite 3) (Finite 4)) 1 = Some (Finite 3) \<and>
   is_double (Finite 1) \<and> is_double (Finite 3) \<and>
   others_finite 1 (Vec3 (Finite 0) (Finite 1) (Finite 0)) \<and>
   others_finite 1 (Vec3 (Finite 4) (Finite 3) (Finite 4)) \<and>
   BOX_ON_PLANE_SIDE (Vec3 (Finite 0) (Finite 1) (Finite 0)) (Vec3 (Finite 4) (Finite 3) (Finite 4))
     \<lparr>p_normal = Vec3 (Finite 0) (Finite 1) (Finite 0), p_dist = Finite 2,
      p_type = 1, p_signbits = 0\<rparr> = 3 \<and>
   BOX_ON_PLANE_SIDE_general (Vec3 (Finite 0) (Finite 1) (Finite 0))
     (Vec3 (Finite 4) (Finite 3) (Finite 4))
     \<lparr>p_normal = Vec3 (Finite 0) (Finite 1) (Finite 0), p_dist = Finite 2,
      p_type = 1, p_signbits = 5\<rparr> = 3"
  using BOX_ON_PLANE_SIDE_axial_general[of
      "\<lparr>p_normal = Vec3 (Finite 0) (Finite 1) (Finite 0), p_dist = Finite 2,
        p_type = 1, p_signbits = 0\<rparr>" 5
      "Vec3 (Finite 0) (Finite 1) (Finite 0)" "Vec3 (Finite 4) (Finite 3) (Finite 4)"
      "Finite 1" "Finite 3"]
  by (simp add: box_ok_def axis_def others_finite_def is_finite_def)

text \<open>
  Claim C2 as stated fails in four ways, each at the plane \<open>x = 0\<close> (type 0, normal
  \<open>(1, 0, 0)\<close>) or one like it. The box from \<open>(-1, 0, 0)\<close> to \<open>(0, 0, 0)\<close> touches the
  plane from behind: under the matching mask 0 the fast path returns 2 and the general path
  3. The box from \<open>(-1, 0, 0)\<close> to \<open>(1, 0, 0)\<close> straddles the plane: under the mask 1 the
  fast path returns 3 and the general path 0. With the distance \<^verbatim>\<open>NaN\<close> the fast path
  returns 3 and the general path 0. And for the box from \<open>(-1, -\<infinity>, 0)\<close> to
  \<open>(1, \<infinity>, 0)\<close>, with \<open>mins \<le> maxs\<close>, the fast path returns 3 and the general path 0.
\<close>

theorem BOX_ON_PLANE_SIDE_axial_general_counterexample:
  "Vec3 (Finite 1) (Finite 0) (Finite 0) = axis 0 \<and>
   signbits_of (Vec3 (Finite 1) (Finite 0) (Finite 0)) = 0 \<and>
   box_ok (Vec3 (Finite (-1)) (Finite 0) (Finite 0)) (Vec3 (Finite 0) (Finite 0) (Finite 0)) \<and>
   BOX_ON_PLANE_SIDE (Vec3 (Finite (-1)) (Finite 0) (Finite 0)) (Vec3 (Finite 0) (Finite 0) (Finite 0))
     \<lparr>p_normal = Vec3 (Finite 1) (Finite 0) (Finite 0), p_dist = Finite 0,
      p_type = 0, p_signbits = 0\<rparr> = 2 \<and>
   BOX_ON_PLANE_SIDE_general (Vec3 (Finite (-1)) (Finite 0) (Finite 0))
     (Vec3 (Finite 0) (Finite 0) (Finite 0))
     \<lparr>p_normal = Vec3 (Finite 1) (Finite 0) (Finite 0), p_dist = Finite 0,
      p_type = 0, p_signbits = 0\<rparr> = 3 \<and>
   box_ok (Vec3 (Finite (-1)) (Finite 0) (Finite 0)) (Vec3 (Finite 1) (Finite 0) (Finite 0)) \<and>
   BOX_ON_PLANE_SIDE (Vec3 (Finite (-1)) (Finite 0) (Finite 0)) (Vec3 (Finite 1) (Finite 0) (Finite 0))
     \<lparr>p_normal = Vec3 (Finite 1) (Finite 0) (Finite 0), p_dist = Finite 0,
      p_type = 0, p_signbits = 1\<rparr> = 3 \<and>
   BOX_ON_PLANE_SIDE_general (Vec3 (Finite (-1)) (Finite 0) (Finite 0))
     (Vec3 (Finite 1) (Finite 0) (Finite 0))
     \<lparr>p_normal = Vec3 (Finite 1) (Finite 0) (Finite 0), p_dist = Finite 0,
      p_type = 0, p_signbits = 1\<rparr> = 0 \<and>
   BOX_ON_PLANE_SIDE (Vec3 (Finite (-1)) (Finite 0) (Finite 0)) (Vec3 (Finite 1) (Finite 0) (Finite 0))
     \<lparr>p_normal = Vec3 (Finite 1) (Finite 0) (Finite 0), p_dist = NaN,
      p_type = 0, p_signbits = 0\<rparr> = 3 \<and>
   BOX_ON_PLANE_SIDE_general (Vec3 (Finite (-1)) (Finite 0) (Finite 0))
     (Vec3 (Finite 1) (Finite 0) (Finite 0))
     \<lparr>p_normal = Vec3 (Finite 1) (Finite 0) (Finite 0), p_dist = NaN,
      p_type = 0, p_signbits = 0\<rparr> = 0 \<and>
   box_ok (Vec3 (Finite (-1)) MinusInfinity (Finite 0)) (Vec3 (Finite 1) PlusInfinity (Finite 0)) \<and>
   BOX_ON_PLANE_SIDE (Vec3 (Finite (-1)) MinusInfinity (Finite 0))
     (Vec3 (Finite 1) PlusInfinity (Finite 0))
     \<lparr>p_normal = Vec3 (Finite 1) (Finite 0) (Finite 0), p_dist = Finite 0,
      p_type = 0, p_signbits = 0\<rparr> = 3 \<and>
   BOX_ON_PLANE_SIDE_general (Vec3 (Finite (-1)) MinusInfinity (Finite 0))
     (Vec3 (Finite 1) PlusInfinity (Finite 0))
     \<lparr>p_normal = Vec3 (Finite 1) (Finite 0) (Finite 0), p_dist = Finite 0,
      p_type = 0, p_signbits = 0\<rparr> = 0"
  by (simp add: box_ok_def signbits_of_def axis_def BOX_ON_PLANE_SIDE_def
      BOX_ON_PLANE_SIDE_axial_def BOX_ON_PLANE_SIDE_general_def switch_signbits_def
      js_le_def js_ge_def round64_numeral)

section \<open>Properties of the fragment functions\<close>

lemma sides_range: "BOX_ON_PLANE_SIDE emins emaxs p \<in> {0, 1, 2, 3}"
  using axial_sides_range[of emins emaxs p]
  by (auto simp: BOX_ON_PLANE_SIDE_def BOX_ON_PLANE_SIDE_general_def Let_def split: prod.splits)

lemma link_efrag_globals:
  assumes "link_efrag leaf s = Inr s'"
  shows "r_emins s' = r_emins s \<and> r_emaxs s' = r_emaxs s \<and>
         r_pefragtopnode s' = (case r_pefragtopnode s of None \<Rightarrow> Some (LeafRef leaf) | Some r \<Rightarrow> Some r)"
  using assms
  by (auto simp: link_efrag_def Let_def split: if_splits option.splits sum.splits)

lemma split_globals:
  "R_SplitEntityOnNode t s = Inr s' \<Longrightarrow>
     r_emins s' = r_emins s \<and> r_emaxs s' = r_emaxs s \<and>
     r_pefragtopnode s' =
       (case r_pefragtopnode s of
          Some r \<Rightarrow> Some r
        | None \<Rightarrow> (case first_split (r_emins s) (r_emaxs s) t of
                     Some r \<Rightarrow> Some r
                   | None \<Rightarrow> path_leaf (r_emins s) (r_emaxs s) t))"
proof (induction t arbitrary: s s')
  case Null
  then show ?case by (auto split: option.splits)
next
  case (Leaf l c)
  then show ?case
    by (auto simp: CONTENTS_SOLID_def dest: link_efrag_globals split: if_splits option.splits)
next
  case (Node n pl c0 c1)
  let ?sides = "BOX_ON_PLANE_SIDE (r_emins s) (r_emaxs s) pl"
  let ?s1 = "(if ?sides = 3 \<and> r_pefragtopnode s = None
                then s\<lparr>r_pefragtopnode := Some (NodeRef n)\<rparr> else s)"
  have rng: "?sides = 0 \<or> ?sides = 1 \<or> ?sides = 2 \<or> ?sides = 3"
    using sides_range[of "r_emins s" "r_emaxs s" pl] by simp
  from Node.prems obtain s2 where
    a: "(if ?sides AND 1 \<noteq> 0 then R_SplitEntityOnNode c0 ?s1 else Inr ?s1) = Inr s2"
    and b: "(if ?sides AND 2 \<noteq> 0 then R_SplitEntityOnNode c1 s2 else Inr s2) = Inr s'"
    by (auto simp: Let_def split: sum.splits)
  from rng show ?case
  proof (elim disjE)
    assume z: "?sides = 0"
    with a b show ?thesis by (auto split: option.splits)
  next
    assume z: "?sides = 1"
    with a b have "R_SplitEntityOnNode c0 s = Inr s'" by auto
    from Node.IH(1)[OF this] show ?thesis using z by (auto simp: Let_def split: option.splits)
  next
    assume z: "?sides = 2"
    with a b have "R_SplitEntityOnNode c1 s = Inr s'" by auto
    from Node.IH(2)[OF this] show ?thesis using z by (auto simp: Let_def split: option.splits)
  next
    assume z: "?sides = 3"
    with a b have a': "R_SplitEntityOnNode c0 ?s1 = Inr s2" and b': "R_SplitEntityOnNode c1 s2 = Inr s'"
      by auto
    from Node.IH(1)[OF a'] Node.IH(2)[OF b'] show ?thesis using z
      by (auto simp: Let_def split: option.splits)
  qed
qed

lemma R_StoreEfrags_chain:
  assumes "chain (ef_leafnext s) pefrag xs" and "\<forall>x\<in>set xs. ef_entity s x \<noteq> None"
  shows "\<exists>n' v' s'. R_StoreEfrags pefrag v n M fc s = Some (Inr (n', v', s'))
           \<and> n \<le> n' \<and> (n' \<le> M \<or> n' = n)
           \<and> (\<forall>i. i < n \<or> n' \<le> i \<longrightarrow> v' i = v i)
           \<and> (\<forall>i. n \<le> i \<and> i < n' \<longrightarrow> i < M \<and>
                 (\<exists>e. v' i = Some e \<and> ent_model s e \<noteq> None \<and> ent_visframe s e \<noteq> fc
                      \<and> ent_visframe s' e = fc))
           \<and> inj_on v' {n..<n'}
           \<and> (\<forall>e. ent_visframe s e = fc \<longrightarrow> ent_visframe s' e = fc)
           \<and> s' = s\<lparr>ent_visframe := ent_visframe s'\<rparr>"
  using assms
proof (induction xs arbitrary: pefrag v n s)
  case Nil
  then show ?case by (simp add: R_StoreEfrags.simps)
next
  case (Cons x xs)
  from Cons.prems obtain pent where p: "pefrag = Some x" and ch: "chain (ef_leafnext s) (ef_leafnext s x) xs"
    and ent: "ef_entity s x = Some pent" and rest: "\<forall>y\<in>set xs. ef_entity s y \<noteq> None"
    by auto
  show ?case
  proof (cases "ent_model s pent \<noteq> None \<and> ent_visframe s pent \<noteq> fc \<and> n < M")
    case False
    then have unf: "R_StoreEfrags pefrag v n M fc s = R_StoreEfrags (ef_leafnext s x) v n M fc s"
      by (subst R_StoreEfrags.simps) (auto simp: p ent)
    show ?thesis unfolding unf using Cons.IH[OF ch rest] by blast
  next
    case True
    let ?s1 = "s\<lparr>ent_visframe := (ent_visframe s)(pent := fc)\<rparr>"
    let ?v1 = "v(n \<mapsto> pent)"
    have unf: "R_StoreEfrags pefrag v n M fc s = R_StoreEfrags (ef_leafnext s x) ?v1 (n + 1) M fc ?s1"
      using True by (subst R_StoreEfrags.simps) (simp add: p ent)
    have ch1: "chain (ef_leafnext ?s1) (ef_leafnext s x) xs" using ch by simp
    have rest1: "\<forall>y\<in>set xs. ef_entity ?s1 y \<noteq> None" using rest by simp
    from Cons.IH[OF ch1 rest1, of ?v1 "n + 1"] obtain n' v' s' where
      r: "R_StoreEfrags (ef_leafnext s x) ?v1 (n + 1) M fc ?s1 = Some (Inr (n', v', s'))"
      and le: "n + 1 \<le> n'" and bound: "n' \<le> M \<or> n' = n + 1"
      and same: "\<forall>i. i < n + 1 \<or> n' \<le> i \<longrightarrow> v' i = ?v1 i"
      and app: "\<forall>i. n + 1 \<le> i \<and> i < n' \<longrightarrow> i < M \<and>
                 (\<exists>e. v' i = Some e \<and> ent_model ?s1 e \<noteq> None \<and> ent_visframe ?s1 e \<noteq> fc
                      \<and> ent_visframe s' e = fc)"
      and inj: "inj_on v' {n + 1..<n'}"
      and keep: "\<forall>e. ent_visframe ?s1 e = fc \<longrightarrow> ent_visframe s' e = fc"
      and st: "s' = ?s1\<lparr>ent_visframe := ent_visframe s'\<rparr>"
      by (elim exE conjE) 
    have vn: "v' n = Some pent" using same by simp
    have pfc: "ent_visframe s' pent = fc" using keep by simp
    have c1: "n \<le> n'" using le by simp
    have c2: "n' \<le> M \<or> n' = n" using bound True by auto
    have c3: "\<forall>i. i < n \<or> n' \<le> i \<longrightarrow> v' i = v i" using same le by auto
    have c4: "\<forall>i. n \<le> i \<and> i < n' \<longrightarrow> i < M \<and>
                 (\<exists>e. v' i = Some e \<and> ent_model s e \<noteq> None \<and> ent_visframe s e \<noteq> fc
                      \<and> ent_visframe s' e = fc)"
    proof (intro allI impI)
      fix i assume i: "n \<le> i \<and> i < n'"
      show "i < M \<and> (\<exists>e. v' i = Some e \<and> ent_model s e \<noteq> None \<and> ent_visframe s e \<noteq> fc
                      \<and> ent_visframe s' e = fc)"
      proof (cases "i = n")
        case True
        then show ?thesis using vn pfc \<open>ent_model s pent \<noteq> None \<and> ent_visframe s pent \<noteq> fc \<and> n < M\<close> by simp
      next
        case False
        then have "n + 1 \<le> i \<and> i < n'" using i by simp
        with app obtain e where "i < M" "v' i = Some e" "ent_model ?s1 e \<noteq> None"
          "ent_visframe ?s1 e \<noteq> fc" "ent_visframe s' e = fc" by blast
        then show ?thesis by (auto split: if_splits)
      qed
    qed
    have c5: "inj_on v' {n..<n'}"
    proof (rule inj_onI)
      fix i j assume ij: "i \<in> {n..<n'}" "j \<in> {n..<n'}" "v' i = v' j"
      have other: "v' k \<noteq> Some pent" if "n + 1 \<le> k" "k < n'" for k
      proof -
        from app that obtain e where "v' k = Some e" "ent_visframe ?s1 e \<noteq> fc" by blast
        then show ?thesis by (auto split: if_splits)
      qed
      show "i = j"
      proof (cases "i = n"; cases "j = n")
        assume "i \<noteq> n" "j \<noteq> n"
        then have "i \<in> {n + 1..<n'}" "j \<in> {n + 1..<n'}" using ij by auto
        with inj ij(3) show ?thesis by (auto dest: inj_onD)
      next
        assume "i = n" "j \<noteq> n"
        then show ?thesis using other[of j] ij vn by auto
      next
        assume "i \<noteq> n" "j = n"
        then show ?thesis using other[of i] ij vn by auto
      qed simp
    qed
    have c6: "\<forall>e. ent_visframe s e = fc \<longrightarrow> ent_visframe s' e = fc" using keep by simp
    have c7: "s' = s\<lparr>ent_visframe := ent_visframe s'\<rparr>" using st by simp
    show ?thesis unfolding unf r using c1 c2 c3 c4 c5 c6 c7 by blast
  qed
qed

subsection \<open>Lists in the store, unlinking and linking\<close>

lemma chain_upd:
  "x \<notin> set xs \<Longrightarrow> chain (nxt(x := y)) h xs = chain nxt h xs"
  by (induction xs arbitrary: h) auto

lemma chain_unique:
  "chain nxt h xs \<Longrightarrow> chain nxt h ys \<Longrightarrow> xs = ys"
proof (induction xs arbitrary: h ys)
  case Nil
  then show ?case by (cases ys) auto
next
  case (Cons x xs)
  then show ?case by (cases ys) auto
qed

lemma chain_suffix:
  "chain nxt h (xs @ y # ys) \<Longrightarrow> chain nxt (nxt y) ys"
  by (induction xs arbitrary: h) auto

lemma chain_head_notin:
  assumes "chain nxt (nxt a) xs"
  shows "a \<notin> set xs"
proof
  assume "a \<in> set xs"
  then obtain bs cs where xs: "xs = bs @ a # cs" by (auto simp: in_set_conv_decomp)
  with assms have "chain nxt (nxt a) cs" by (auto dest: chain_suffix)
  with assms have "cs = xs" by (rule chain_unique[rotated])
  with xs show False by (auto dest: arg_cong[where f = length])
qed

lemma chain_distinct:
  "chain nxt h xs \<Longrightarrow> distinct xs"
  by (induction xs arbitrary: h) (auto dest: chain_head_notin)

lemma chain_snoc:
  assumes "chain nxt h xs" "xs \<noteq> []" "f \<notin> set xs"
  shows "chain (nxt(last xs := Some f, f := None)) h (xs @ [f])"
  using assms
proof (induction xs arbitrary: h)
  case Nil
  then show ?case by simp
next
  case (Cons x xs)
  show ?case
  proof (cases "xs = []")
    case True
    with Cons.prems show ?thesis by auto
  next
    case False
    from Cons.prems have x: "h = Some x" "chain nxt (nxt x) xs" "f \<notin> set xs" "x \<noteq> f" by auto
    have "x \<notin> set xs" using x(2) by (rule chain_head_notin)
    then have "x \<noteq> last xs" using False by auto
    with Cons.IH[OF x(2) False x(3)] x False show ?thesis by auto
  qed
qed

lemma chain_unlink:
  assumes "chain nxt h (xs @ r # ys)" "xs \<noteq> []"
  shows "chain (nxt(last xs := nxt r)) h (xs @ ys)"
  using assms
proof (induction xs arbitrary: h)
  case Nil
  then show ?case by simp
next
  case (Cons x xs)
  have d: "distinct (x # xs @ r # ys)" using chain_distinct[OF Cons.prems(1)] by simp
  show "chain (nxt(last (x # xs) := nxt r)) h ((x # xs) @ ys)"
  proof (cases "xs = []")
    case True
    with Cons.prems d have "h = Some x" "chain nxt (nxt r) ys" "x \<notin> set ys" by auto
    then have "h = Some x" "chain (nxt(x := nxt r)) (nxt r) ys" by (simp_all add: chain_upd)
    with True show ?thesis by simp
  next
    case False
    from d False have "x \<noteq> last xs" by auto
    moreover have "chain nxt (nxt x) (xs @ r # ys)" using Cons.prems by simp
    then have "chain (nxt(last xs := nxt r)) (nxt x) (xs @ ys)"
      using False by (rule Cons.IH)
    ultimately show ?thesis using Cons.prems False by simp
  qed
qed

lemma find_prev_None: "find_prev nxt ef None = Some None"
  by (subst find_prev.simps) simp

lemma find_prev_Some:
  "find_prev nxt ef (Some p) = (if nxt p \<noteq> Some ef then find_prev nxt ef (nxt p) else Some (Some p))"
  by (subst find_prev.simps) simp

lemma find_prev_chain:
  assumes "chain nxt h (xs @ r # ys)" "xs \<noteq> []" "r \<notin> set xs"
  shows "find_prev nxt r h = Some (Some (last xs))"
  using assms
proof (induction xs arbitrary: h)
  case Nil
  then show ?case by simp
next
  case (Cons x xs)
  show ?case
  proof (cases "xs = []")
    case True
    with Cons.prems show ?thesis by (auto simp: find_prev_Some)
  next
    case False
    then obtain x' xs' where xs: "xs = x' # xs'" by (cases xs) auto
    with Cons.prems have "nxt x = Some x'" "x' \<noteq> r" "h = Some x" by auto
    with Cons.IH[OF _ False, of "nxt x"] Cons.prems False show ?thesis
      by (auto simp: find_prev_Some)
  qed
qed

lemma unlink_from_leaf_chain:
  assumes "ef_leaf s r = Some l"
    and "chain (ef_leafnext s) (leaf_efrags s l) (xs @ r # ys)"
  shows "unlink_from_leaf r s =
           Some (if xs = [] then s\<lparr>leaf_efrags := (leaf_efrags s)(l := ef_leafnext s r)\<rparr>
                 else s\<lparr>ef_leafnext := (ef_leafnext s)(last xs := ef_leafnext s r)\<rparr>)"
proof (cases "xs = []")
  case True
  with assms show ?thesis by (auto simp: unlink_from_leaf_def)
next
  case False
  from assms(2) have d: "distinct (xs @ r # ys)" by (rule chain_distinct)
  from False obtain x xs' where xs: "xs = x # xs'" by (cases xs) auto
  with assms(2) d have h: "leaf_efrags s l = Some x" "x \<noteq> r" by auto
  have "find_prev (ef_leafnext s) r (Some x) = Some (Some (last xs))"
    using find_prev_chain[OF _ False, of "ef_leafnext s" "Some x" r ys] assms(2) d h by auto
  with assms(1) h False show ?thesis by (simp add: unlink_from_leaf_def)
qed


lemma R_RemoveEfrags_loop_None: "R_RemoveEfrags_loop None s = Some s"
  by (subst R_RemoveEfrags_loop.simps) simp

lemma R_RemoveEfrags_loop_Some:
  "R_RemoveEfrags_loop (Some old) s =
     Option.bind (unlink_from_leaf old s)
       (\<lambda>s1. R_RemoveEfrags_loop (ef_entnext s1 old)
                (s1\<lparr>ef_entnext := (ef_entnext s1)(old := cl_free_efrags s1),
                    cl_free_efrags := Some old\<rparr>))"
  by (subst R_RemoveEfrags_loop.simps) simp

lemma remove_loop_chain:
  assumes "chain (ef_entnext s) cur rs"
    and "chain (ef_entnext s) (cl_free_efrags s) fs"
    and "\<forall>l. chain (ef_leafnext s) (leaf_efrags s l)
               (filter (\<lambda>a. ef_leaf s a = Some l) (rev rs) @ L l)"
    and "distinct (rs @ fs)"
    and "\<forall>l. set (L l) \<inter> set rs = {}"
    and "\<forall>a\<in>set rs. ef_leaf s a \<noteq> None"
  shows "\<exists>s'. R_RemoveEfrags_loop cur s = Some s'
           \<and> chain (ef_entnext s') (cl_free_efrags s') (rev rs @ fs)
           \<and> (\<forall>l. chain (ef_leafnext s') (leaf_efrags s' l) (L l))
           \<and> ef_entity s' = ef_entity s \<and> ent_efrag s' = ent_efrag s
           \<and> cl_present s' = cl_present s"
  using assms
proof (induction rs arbitrary: cur s fs)
  case Nil
  then show ?case by (simp add: R_RemoveEfrags_loop_None)
next
  case (Cons r rs)
  from Cons.prems(1) have cur: "cur = Some r" and ent: "chain (ef_entnext s) (ef_entnext s r) rs"
    by simp_all
  from Cons.prems(6) obtain l where l: "ef_leaf s r = Some l" by auto
  define xs where "xs = filter (\<lambda>a. ef_leaf s a = Some l) (rev rs)"
  define s1 where "s1 = (if xs = [] then s\<lparr>leaf_efrags := (leaf_efrags s)(l := ef_leafnext s r)\<rparr>
                 else s\<lparr>ef_leafnext := (ef_leafnext s)(last xs := ef_leafnext s r)\<rparr>)"
  define s2 where "s2 = s1\<lparr>ef_entnext := (ef_entnext s1)(r := cl_free_efrags s1),
                    cl_free_efrags := Some r\<rparr>"
  have chl: "chain (ef_leafnext s) (leaf_efrags s l) (xs @ r # L l)"
    using Cons.prems(3)[rule_format, of l] l by (simp add: xs_def)
  have u: "unlink_from_leaf r s = Some s1"
    unfolding s1_def by (rule unlink_from_leaf_chain[OF l chl])
  have same1: "ef_entnext s1 = ef_entnext s" "cl_free_efrags s1 = cl_free_efrags s"
    "ef_leaf s1 = ef_leaf s" "ef_entity s1 = ef_entity s" "ent_efrag s1 = ent_efrag s"
    "cl_present s1 = cl_present s"
    by (simp_all add: s1_def)
  have xs_sub: "set xs \<subseteq> set rs" "\<forall>a\<in>set xs. ef_leaf s a = Some l"
    by (auto simp: xs_def)
  have leaf1: "chain (ef_leafnext s1) (leaf_efrags s1 l')
                 (filter (\<lambda>a. ef_leaf s a = Some l') (rev rs) @ L l')" for l'
  proof (cases "l' = l")
    case True
    show ?thesis
    proof (cases "xs = []")
      case e: True
      with chl have "chain (ef_leafnext s) (ef_leafnext s r) (L l)" by simp
      with e True show ?thesis by (simp add: s1_def xs_def)
    next
      case ne: False
      have "chain ((ef_leafnext s)(last xs := ef_leafnext s r)) (leaf_efrags s l) (xs @ L l)"
        using chl ne by (rule chain_unlink)
      with ne True show ?thesis by (simp add: s1_def xs_def)
    qed
  next
    case False
    have old: "chain (ef_leafnext s) (leaf_efrags s l')
                 (filter (\<lambda>a. ef_leaf s a = Some l') (rev rs) @ L l')"
      using Cons.prems(3)[rule_format, of l'] l False by simp
    show ?thesis
    proof (cases "xs = []")
      case True
      with old False show ?thesis by (simp add: s1_def)
    next
      case ne: False
      then have lx: "last xs \<in> set xs" by simp
      with xs_sub have "last xs \<in> set rs" "ef_leaf s (last xs) = Some l" by auto
      with Cons.prems(5) False
      have "last xs \<notin> set (filter (\<lambda>a. ef_leaf s a = Some l') (rev rs) @ L l')"
        by auto
      then have "chain ((ef_leafnext s)(last xs := ef_leafnext s r)) (leaf_efrags s l')
                 (filter (\<lambda>a. ef_leaf s a = Some l') (rev rs) @ L l')"
        using old by (simp add: chain_upd)
      with ne show ?thesis by (simp add: s1_def)
    qed
  qed
  from Cons.prems(4) have d: "r \<notin> set rs" "r \<notin> set fs" "distinct (rs @ r # fs)" by auto
  have p1: "chain (ef_entnext s2) (ef_entnext s1 r) rs"
    using ent d(1) by (simp add: s2_def same1 chain_upd)
  have p2: "chain (ef_entnext s2) (cl_free_efrags s2) (r # fs)"
    using Cons.prems(2) d(2) by (simp add: s2_def same1 chain_upd)
  have p3: "\<forall>l. chain (ef_leafnext s2) (leaf_efrags s2 l)
               (filter (\<lambda>a. ef_leaf s2 a = Some l) (rev rs) @ L l)"
    using leaf1 by (simp add: s2_def same1)
  have p5: "\<forall>l. set (L l) \<inter> set rs = {}" using Cons.prems(5) by auto
  have p6: "\<forall>a\<in>set rs. ef_leaf s2 a \<noteq> None" using Cons.prems(6) by (simp add: s2_def same1)
  from Cons.IH[OF p1 p2 p3 d(3) p5 p6] obtain s' where
    r: "R_RemoveEfrags_loop (ef_entnext s1 r) s2 = Some s'"
    and c: "chain (ef_entnext s') (cl_free_efrags s') (rev rs @ r # fs)"
       "\<forall>l. chain (ef_leafnext s') (leaf_efrags s' l) (L l)"
       "ef_entity s' = ef_entity s2" "ent_efrag s' = ent_efrag s2" "cl_present s' = cl_present s2"
    by blast
  have "R_RemoveEfrags_loop cur s = Some s'"
    using r u by (simp add: cur R_RemoveEfrags_loop_Some s2_def)
  with c show ?case by (simp add: s2_def same1)
qed


lemma efrags_ok_topnode:
  "efrags_ok ent L as fs (s\<lparr>r_pefragtopnode := t\<rparr>) = efrags_ok ent L as fs s"
  by (simp add: efrags_ok_def)

lemma link_efrag_ok:
  assumes ok: "efrags_ok ent L as fs s" and lk: "link_efrag l s = Inr s'"
  shows "(fs = [] \<and> efrags_ok ent L as fs s' \<and> ef_entity s' = ef_entity s) \<or>
         (\<exists>f fs'. fs = f # fs' \<and> efrags_ok ent L (as @ [f]) fs' s'
                   \<and> (\<forall>x. x \<noteq> f \<longrightarrow> ef_entity s' x = ef_entity s x))"
proof (cases fs)
  case Nil
  with ok have "cl_free_efrags s = None" "cl_present s" by (simp_all add: efrags_ok_def)
  with lk have "s' = s \<or> s' = s\<lparr>r_pefragtopnode := Some (LeafRef l)\<rparr>"
    by (auto simp: link_efrag_def Let_def split: if_splits)
  with ok Nil show ?thesis by (auto simp: efrags_ok_topnode)
next
  case (Cons f fs')
  from ok Cons have pre: "cl_present s" "r_addent s = Some ent" "cl_free_efrags s = Some f"
    "chain (ef_entnext s) (ef_entnext s f) fs'"
    "distinct (as @ f # fs')" "\<forall>l. set (L l) \<inter> set (as @ f # fs') = {}"
    "\<forall>a\<in>set as. ef_leaf s a \<noteq> None"
    and leafs: "\<And>l. chain (ef_leafnext s) (leaf_efrags s l)
                     (filter (\<lambda>a. ef_leaf s a = Some l) (rev as) @ L l)"
    by (simp_all add: efrags_ok_def)
  have fld: "cl_present s'" "r_addent s' = Some ent" "cl_free_efrags s' = ef_entnext s f"
    "ef_leaf s' = (ef_leaf s)(f := Some l)"
    "ef_leafnext s' = (ef_leafnext s)(f := leaf_efrags s l)"
    "leaf_efrags s' = (leaf_efrags s)(l := Some f)"
    "lastlink s' = Some f"
    "ef_entity s' = (ef_entity s)(f := Some ent)"
    using lk pre(1,2,3)
    by (auto simp: link_efrag_def Let_def split: if_splits option.splits)
  have fld_nil: "ef_entnext s' = (ef_entnext s)(f := None)"
      "ent_efrag s' = (ent_efrag s)(ent := Some f)" if "as = []"
    using lk pre(1,2,3) ok that
    by (auto simp: link_efrag_def efrags_ok_def Let_def split: if_splits option.splits)
  have fld_cons: "ef_entnext s' = (ef_entnext s)(last as := Some f, f := None)"
      "ent_efrag s' = ent_efrag s" if "as \<noteq> []"
    using lk pre(1,2,3) ok that
    by (auto simp: link_efrag_def efrags_ok_def Let_def split: if_splits option.splits)
  have f_notin: "f \<notin> set as" "f \<notin> set fs'" "\<And>l. f \<notin> set (L l)"
    using pre(5,6) by auto
  have free': "chain (ef_entnext s') (cl_free_efrags s') fs'"
  proof (cases "as = []")
    case True
    with pre(4) f_notin show ?thesis by (simp add: fld fld_nil chain_upd)
  next
    case False
    then have "last as \<in> set as" by simp
    with pre(5) have "last as \<notin> set fs'" by auto
    with pre(4) f_notin False show ?thesis by (simp add: fld fld_cons chain_upd)
  qed
  have filt: "filter (\<lambda>a. ef_leaf s' a = Some l') (rev (as @ [f]))
               = (if l' = l then [f] else []) @ filter (\<lambda>a. ef_leaf s a = Some l') (rev as)" for l'
  proof -
    have "filter (\<lambda>a. ef_leaf s' a = Some l') (rev as) = filter (\<lambda>a. ef_leaf s a = Some l') (rev as)"
      using f_notin(1) by (intro filter_cong) (auto simp: fld)
    then show ?thesis by (simp add: fld)
  qed
  have leafs': "chain (ef_leafnext s') (leaf_efrags s' l')
                  (filter (\<lambda>a. ef_leaf s' a = Some l') (rev (as @ [f])) @ L l')" for l'
  proof -
    have nin: "f \<notin> set (filter (\<lambda>a. ef_leaf s a = Some l') (rev as) @ L l')"
      using f_notin by auto
    have keep: "chain ((ef_leafnext s)(f := leaf_efrags s l)) (leaf_efrags s l')
                 (filter (\<lambda>a. ef_leaf s a = Some l') (rev as) @ L l')"
      using leafs[of l'] nin by (simp add: chain_upd)
    show ?thesis
    proof (cases "l' = l")
      case True
      with keep show ?thesis unfolding filt by (simp add: fld(5,6))
    next
      case False
      with keep show ?thesis unfolding filt by (simp add: fld(5,6))
    qed
  qed
  have ent': "chain (ef_entnext s') (ent_efrag s' ent) (as @ [f])"
  proof (cases "as = []")
    case True
    then show ?thesis by (simp add: fld_nil)
  next
    case False
    from ok False have "chain (ef_entnext s) (ent_efrag s ent) as" by (simp add: efrags_ok_def)
    then have "chain ((ef_entnext s)(last as := Some f, f := None)) (ent_efrag s ent) (as @ [f])"
      using False f_notin(1) by (rule chain_snoc)
    with False show ?thesis by (simp add: fld_cons)
  qed
  have "efrags_ok ent L (as @ [f]) fs' s'"
    unfolding efrags_ok_def
    using fld(1,2,7) free' leafs' pre(5,6,7) ent' by (auto simp: fld(4))
  moreover have "\<forall>x. x \<noteq> f \<longrightarrow> ef_entity s' x = ef_entity s x" by (simp add: fld)
  ultimately show ?thesis using Cons by blast
qed

lemma split_ok:
  assumes "efrags_ok ent L as fs s" and "R_SplitEntityOnNode t s = Inr s'"
  shows "\<exists>bs fs'. fs = bs @ fs' \<and> efrags_ok ent L (as @ bs) fs' s'
           \<and> (\<forall>x. x \<notin> set bs \<longrightarrow> ef_entity s' x = ef_entity s x)"
  using assms
proof (induction t arbitrary: as fs s s')
  case Null
  then have "fs = [] @ fs \<and> efrags_ok ent L (as @ []) fs s'
           \<and> (\<forall>x. x \<notin> set [] \<longrightarrow> ef_entity s' x = ef_entity s x)" by simp
  then show ?case by blast
next
  case (Leaf l c)
  show ?case
  proof (cases "c = CONTENTS_SOLID")
    case True
    with Leaf have "fs = [] @ fs \<and> efrags_ok ent L (as @ []) fs s'
           \<and> (\<forall>x. x \<notin> set [] \<longrightarrow> ef_entity s' x = ef_entity s x)" by simp
    then show ?thesis by blast
  next
    case False
    with Leaf.prems(2) have "link_efrag l s = Inr s'" by (auto split: if_splits)
    from link_efrag_ok[OF Leaf.prems(1) this] show ?thesis
    proof (elim disjE exE conjE)
      assume "fs = []" "efrags_ok ent L as fs s'" "ef_entity s' = ef_entity s"
      then have "fs = [] @ fs \<and> efrags_ok ent L (as @ []) fs s'
           \<and> (\<forall>x. x \<notin> set [] \<longrightarrow> ef_entity s' x = ef_entity s x)" by simp
      then show ?thesis by blast
    next
      fix f fs' assume a: "fs = f # fs'" "efrags_ok ent L (as @ [f]) fs' s'"
        "\<forall>x. x \<noteq> f \<longrightarrow> ef_entity s' x = ef_entity s x"
      then have "fs = [f] @ fs' \<and> efrags_ok ent L (as @ [f]) fs' s'
           \<and> (\<forall>x. x \<notin> set [f] \<longrightarrow> ef_entity s' x = ef_entity s x)" by simp
      then show ?thesis by blast
    qed
  qed
next
  case (Node n pl c0 c1)
  let ?sides = "BOX_ON_PLANE_SIDE (r_emins s) (r_emaxs s) pl"
  let ?s1 = "(if ?sides = 3 \<and> r_pefragtopnode s = None
                then s\<lparr>r_pefragtopnode := Some (NodeRef n)\<rparr> else s)"
  have ok1: "efrags_ok ent L as fs ?s1" "ef_entity ?s1 = ef_entity s"
    using Node.prems(1) by (simp_all add: efrags_ok_topnode)
  from Node.prems(2) obtain s2 where
    a: "(if ?sides AND 1 \<noteq> 0 then R_SplitEntityOnNode c0 ?s1 else Inr ?s1) = Inr s2"
    and b: "(if ?sides AND 2 \<noteq> 0 then R_SplitEntityOnNode c1 s2 else Inr s2) = Inr s'"
    by (auto simp: Let_def split: sum.splits)
  have "\<exists>bs fs2. fs = bs @ fs2 \<and> efrags_ok ent L (as @ bs) fs2 s2
           \<and> (\<forall>x. x \<notin> set bs \<longrightarrow> ef_entity s2 x = ef_entity s x)"
  proof (cases "?sides AND 1 \<noteq> 0")
    case True
    with a have "R_SplitEntityOnNode c0 ?s1 = Inr s2" by simp
    from Node.IH(1)[OF ok1(1) this] show ?thesis using ok1(2) by simp
  next
    case False
    with a have "s2 = ?s1" by simp
    with ok1 have "fs = [] @ fs \<and> efrags_ok ent L (as @ []) fs s2
           \<and> (\<forall>x. x \<notin> set [] \<longrightarrow> ef_entity s2 x = ef_entity s x)" by simp
    then show ?thesis by blast
  qed
  then obtain bs fs2 where s2: "fs = bs @ fs2" "efrags_ok ent L (as @ bs) fs2 s2"
    "\<forall>x. x \<notin> set bs \<longrightarrow> ef_entity s2 x = ef_entity s x" by blast
  have "\<exists>cs fs3. fs2 = cs @ fs3 \<and> efrags_ok ent L ((as @ bs) @ cs) fs3 s'
           \<and> (\<forall>x. x \<notin> set cs \<longrightarrow> ef_entity s' x = ef_entity s2 x)"
  proof (cases "?sides AND 2 \<noteq> 0")
    case True
    with b have "R_SplitEntityOnNode c1 s2 = Inr s'" by simp
    from Node.IH(2)[OF s2(2) this] show ?thesis by simp
  next
    case False
    with b have "s' = s2" by simp
    with s2(2) have "fs2 = [] @ fs2 \<and> efrags_ok ent L ((as @ bs) @ []) fs2 s'
           \<and> (\<forall>x. x \<notin> set [] \<longrightarrow> ef_entity s' x = ef_entity s2 x)" by simp
    then show ?thesis by blast
  qed
  then obtain cs fs3 where s3: "fs2 = cs @ fs3" "efrags_ok ent L ((as @ bs) @ cs) fs3 s'"
    "\<forall>x. x \<notin> set cs \<longrightarrow> ef_entity s' x = ef_entity s2 x" by blast
  have "fs = (bs @ cs) @ fs3 \<and> efrags_ok ent L (as @ (bs @ cs)) fs3 s'
          \<and> (\<forall>x. x \<notin> set (bs @ cs) \<longrightarrow> ef_entity s' x = ef_entity s x)"
    using s2 s3 by simp
  then show ?case by blast
qed

text \<open>
  Claim C8, as the code has it. The box of the entity is the one R\_AddEfrags stores in
  \<^verbatim>\<open>r_emins\<close> and \<^verbatim>\<open>r_emaxs\<close>: origin plus model bounds, each sum rounded to a double and
  then, by the store into the \<^verbatim>\<open>Float32Array\<close>, to single precision (\<open>vadd\<close>). After
  R\_AddEfrags completes for an entity with a model, in a world with a node array, the
  recorded top node is the first node of the descent at which this box straddles the
  plane (classifier result 3), when there is one; when the box straddles no plane on its
  way down, the top node is the leaf that the descent ends in if that leaf is not solid,
  and \<^verbatim>\<open>null\<close> otherwise.
\<close>

theorem R_AddEfrags_topnode:
  assumes "R_AddEfrags ent s = Inr s'" and "cl_present s" and "ent_model s ent = Some m"
    and "cl_worldmodel s = Some w" and "wm_nodes w = Some ns"
  shows "ent_topnode s' ent =
           (case first_split (vadd (ent_origin s ent) (mb_mins m))
                   (vadd (ent_origin s ent) (mb_maxs m)) (nodes0 ns) of
              Some r \<Rightarrow> Some r
            | None \<Rightarrow> path_leaf (vadd (ent_origin s ent) (mb_mins m))
                        (vadd (ent_origin s ent) (mb_maxs m)) (nodes0 ns))"
proof -
  let ?s1 = "s\<lparr>r_addent := Some ent, lastlink := None, r_pefragtopnode := None,
                r_emins := vadd (ent_origin s ent) (mb_mins m),
                r_emaxs := vadd (ent_origin s ent) (mb_maxs m)\<rparr>"
  from assms obtain s2 where split: "R_SplitEntityOnNode (nodes0 ns) ?s1 = Inr s2"
    and s': "s' = s2\<lparr>ent_topnode := (ent_topnode s2)(ent := r_pefragtopnode s2)\<rparr>"
    by (auto simp: R_AddEfrags_def Let_def split: sum.splits)
  from split_globals[OF split] show ?thesis
    by (simp add: s' cong: option.case_cong)
qed

text \<open>
  The theorem in two worlds of one node, with an empty leaf in front of the plane and a
  water leaf behind it. At the plane \<open>x = 0\<close>, for the box from \<open>(-1, -1, -1)\<close> to
  \<open>(1, 1, 1)\<close>, the top node is the node. At the plane \<open>x = 16777220\<close>, for an entity at
  \<open>(16777216, 0, 0)\<close> with the bounds \<open>(3, -1, -1)\<close> and \<open>(5, 1, 1)\<close>, the sums 16777219 and
  16777221 are both stored as 16777220: the stored box lies on the plane, in front, and the
  top node is the empty leaf.
\<close>

theorem R_AddEfrags_topnode_witness:
  "R_AddEfrags 0
     (module_init\<lparr>cl_present := True, cl_free_efrags := Some 0,
        ef_entnext := (\<lambda>_. None)(0 := Some 1),
        cl_worldmodel := Some \<lparr>wm_nodes = Some
          [Node 0 \<lparr>p_normal = Vec3 (Finite 1) (Finite 0) (Finite 0), p_dist = Finite 0, p_type = 0, p_signbits = 0\<rparr>
             (Leaf 0 CONTENTS_EMPTY) (Leaf 1 CONTENTS_WATER)]\<rparr>,
        ent_model := (\<lambda>_. None)(0 := Some \<lparr>mb_mins = Vec3 (Finite (-1)) (Finite (-1)) (Finite (-1)), mb_maxs = Vec3 (Finite 1) (Finite 1) (Finite 1)\<rparr>)\<rparr>)
   = Inr (projr (R_AddEfrags 0
     (module_init\<lparr>cl_present := True, cl_free_efrags := Some 0,
        ef_entnext := (\<lambda>_. None)(0 := Some 1),
        cl_worldmodel := Some \<lparr>wm_nodes = Some
          [Node 0 \<lparr>p_normal = Vec3 (Finite 1) (Finite 0) (Finite 0), p_dist = Finite 0, p_type = 0, p_signbits = 0\<rparr>
             (Leaf 0 CONTENTS_EMPTY) (Leaf 1 CONTENTS_WATER)]\<rparr>,
        ent_model := (\<lambda>_. None)(0 := Some \<lparr>mb_mins = Vec3 (Finite (-1)) (Finite (-1)) (Finite (-1)), mb_maxs = Vec3 (Finite 1) (Finite 1) (Finite 1)\<rparr>)\<rparr>)))
   \<and> ent_topnode (projr (R_AddEfrags 0
     (module_init\<lparr>cl_present := True, cl_free_efrags := Some 0,
        ef_entnext := (\<lambda>_. None)(0 := Some 1),
        cl_worldmodel := Some \<lparr>wm_nodes = Some
          [Node 0 \<lparr>p_normal = Vec3 (Finite 1) (Finite 0) (Finite 0), p_dist = Finite 0, p_type = 0, p_signbits = 0\<rparr>
             (Leaf 0 CONTENTS_EMPTY) (Leaf 1 CONTENTS_WATER)]\<rparr>,
        ent_model := (\<lambda>_. None)(0 := Some \<lparr>mb_mins = Vec3 (Finite (-1)) (Finite (-1)) (Finite (-1)), mb_maxs = Vec3 (Finite 1) (Finite 1) (Finite 1)\<rparr>)\<rparr>))) 0
     = Some (NodeRef 0)
   \<and> R_AddEfrags 0
     (module_init\<lparr>cl_present := True, cl_free_efrags := Some 0,
        ef_entnext := (\<lambda>_. None)(0 := Some 1),
        cl_worldmodel := Some \<lparr>wm_nodes = Some
          [Node 0 \<lparr>p_normal = Vec3 (Finite 1) (Finite 0) (Finite 0), p_dist = Finite 16777220, p_type = 0, p_signbits = 0\<rparr>
             (Leaf 0 CONTENTS_EMPTY) (Leaf 1 CONTENTS_WATER)]\<rparr>,
        ent_origin := (\<lambda>_. Vec3 (Finite 16777216) (Finite 0) (Finite 0)),
        ent_model := (\<lambda>_. None)(0 := Some \<lparr>mb_mins = Vec3 (Finite 3) (Finite (-1)) (Finite (-1)), mb_maxs = Vec3 (Finite 5) (Finite 1) (Finite 1)\<rparr>)\<rparr>)
   = Inr (projr (R_AddEfrags 0
     (module_init\<lparr>cl_present := True, cl_free_efrags := Some 0,
        ef_entnext := (\<lambda>_. None)(0 := Some 1),
        cl_worldmodel := Some \<lparr>wm_nodes = Some
          [Node 0 \<lparr>p_normal = Vec3 (Finite 1) (Finite 0) (Finite 0), p_dist = Finite 16777220, p_type = 0, p_signbits = 0\<rparr>
             (Leaf 0 CONTENTS_EMPTY) (Leaf 1 CONTENTS_WATER)]\<rparr>,
        ent_origin := (\<lambda>_. Vec3 (Finite 16777216) (Finite 0) (Finite 0)),
        ent_model := (\<lambda>_. None)(0 := Some \<lparr>mb_mins = Vec3 (Finite 3) (Finite (-1)) (Finite (-1)), mb_maxs = Vec3 (Finite 5) (Finite 1) (Finite 1)\<rparr>)\<rparr>)))
   \<and> r_emins (projr (R_AddEfrags 0
     (module_init\<lparr>cl_present := True, cl_free_efrags := Some 0,
        ef_entnext := (\<lambda>_. None)(0 := Some 1),
        cl_worldmodel := Some \<lparr>wm_nodes = Some
          [Node 0 \<lparr>p_normal = Vec3 (Finite 1) (Finite 0) (Finite 0), p_dist = Finite 16777220, p_type = 0, p_signbits = 0\<rparr>
             (Leaf 0 CONTENTS_EMPTY) (Leaf 1 CONTENTS_WATER)]\<rparr>,
        ent_origin := (\<lambda>_. Vec3 (Finite 16777216) (Finite 0) (Finite 0)),
        ent_model := (\<lambda>_. None)(0 := Some \<lparr>mb_mins = Vec3 (Finite 3) (Finite (-1)) (Finite (-1)), mb_maxs = Vec3 (Finite 5) (Finite 1) (Finite 1)\<rparr>)\<rparr>)))
     = Vec3 (Finite 16777220) (Finite (-1)) (Finite (-1))
   \<and> r_emaxs (projr (R_AddEfrags 0
     (module_init\<lparr>cl_present := True, cl_free_efrags := Some 0,
        ef_entnext := (\<lambda>_. None)(0 := Some 1),
        cl_worldmodel := Some \<lparr>wm_nodes = Some
          [Node 0 \<lparr>p_normal = Vec3 (Finite 1) (Finite 0) (Finite 0), p_dist = Finite 16777220, p_type = 0, p_signbits = 0\<rparr>
             (Leaf 0 CONTENTS_EMPTY) (Leaf 1 CONTENTS_WATER)]\<rparr>,
        ent_origin := (\<lambda>_. Vec3 (Finite 16777216) (Finite 0) (Finite 0)),
        ent_model := (\<lambda>_. None)(0 := Some \<lparr>mb_mins = Vec3 (Finite 3) (Finite (-1)) (Finite (-1)), mb_maxs = Vec3 (Finite 5) (Finite 1) (Finite 1)\<rparr>)\<rparr>)))
     = Vec3 (Finite 16777220) (Finite 1) (Finite 1)
   \<and> ent_topnode (projr (R_AddEfrags 0
     (module_init\<lparr>cl_present := True, cl_free_efrags := Some 0,
        ef_entnext := (\<lambda>_. None)(0 := Some 1),
        cl_worldmodel := Some \<lparr>wm_nodes = Some
          [Node 0 \<lparr>p_normal = Vec3 (Finite 1) (Finite 0) (Finite 0), p_dist = Finite 16777220, p_type = 0, p_signbits = 0\<rparr>
             (Leaf 0 CONTENTS_EMPTY) (Leaf 1 CONTENTS_WATER)]\<rparr>,
        ent_origin := (\<lambda>_. Vec3 (Finite 16777216) (Finite 0) (Finite 0)),
        ent_model := (\<lambda>_. None)(0 := Some \<lparr>mb_mins = Vec3 (Finite 3) (Finite (-1)) (Finite (-1)), mb_maxs = Vec3 (Finite 5) (Finite 1) (Finite 1)\<rparr>)\<rparr>))) 0
     = Some (LeafRef 0)"
  using R_AddEfrags_topnode[of 0
     "module_init\<lparr>cl_present := True, cl_free_efrags := Some 0,
        ef_entnext := (\<lambda>_. None)(0 := Some 1),
        cl_worldmodel := Some \<lparr>wm_nodes = Some
          [Node 0 \<lparr>p_normal = Vec3 (Finite 1) (Finite 0) (Finite 0), p_dist = Finite 0, p_type = 0, p_signbits = 0\<rparr>
             (Leaf 0 CONTENTS_EMPTY) (Leaf 1 CONTENTS_WATER)]\<rparr>,
        ent_model := (\<lambda>_. None)(0 := Some \<lparr>mb_mins = Vec3 (Finite (-1)) (Finite (-1)) (Finite (-1)), mb_maxs = Vec3 (Finite 1) (Finite 1) (Finite 1)\<rparr>)\<rparr>"
     _ "\<lparr>mb_mins = Vec3 (Finite (-1)) (Finite (-1)) (Finite (-1)), mb_maxs = Vec3 (Finite 1) (Finite 1) (Finite 1)\<rparr>"
     "\<lparr>wm_nodes = Some
          [Node 0 \<lparr>p_normal = Vec3 (Finite 1) (Finite 0) (Finite 0), p_dist = Finite 0, p_type = 0, p_signbits = 0\<rparr>
             (Leaf 0 CONTENTS_EMPTY) (Leaf 1 CONTENTS_WATER)]\<rparr>"]
    R_AddEfrags_topnode[of 0
     "module_init\<lparr>cl_present := True, cl_free_efrags := Some 0,
        ef_entnext := (\<lambda>_. None)(0 := Some 1),
        cl_worldmodel := Some \<lparr>wm_nodes = Some
          [Node 0 \<lparr>p_normal = Vec3 (Finite 1) (Finite 0) (Finite 0), p_dist = Finite 16777220, p_type = 0, p_signbits = 0\<rparr>
             (Leaf 0 CONTENTS_EMPTY) (Leaf 1 CONTENTS_WATER)]\<rparr>,
        ent_origin := (\<lambda>_. Vec3 (Finite 16777216) (Finite 0) (Finite 0)),
        ent_model := (\<lambda>_. None)(0 := Some \<lparr>mb_mins = Vec3 (Finite 3) (Finite (-1)) (Finite (-1)), mb_maxs = Vec3 (Finite 5) (Finite 1) (Finite 1)\<rparr>)\<rparr>"
     _ "\<lparr>mb_mins = Vec3 (Finite 3) (Finite (-1)) (Finite (-1)), mb_maxs = Vec3 (Finite 5) (Finite 1) (Finite 1)\<rparr>"
     "\<lparr>wm_nodes = Some
          [Node 0 \<lparr>p_normal = Vec3 (Finite 1) (Finite 0) (Finite 0), p_dist = Finite 16777220, p_type = 0, p_signbits = 0\<rparr>
             (Leaf 0 CONTENTS_EMPTY) (Leaf 1 CONTENTS_WATER)]\<rparr>"]
  by (simp add: module_init_def R_AddEfrags_def link_efrag_def Let_def nodes0_def vadd_def
      round64_numeral round32_numeral round32_tie_up round32_tie_down
      BOX_ON_PLANE_SIDE_def BOX_ON_PLANE_SIDE_axial_def js_le_def js_ge_def
      CONTENTS_EMPTY_def CONTENTS_WATER_def CONTENTS_SOLID_def)

text \<open>
  Claim C8 as stated fails. In the same world with a solid leaf behind the plane, the box
  from \<open>(1, 1, 1)\<close> to \<open>(2, 2, 2)\<close> lies in front of the plane: it is linked into the
  empty leaf (fragment 0), no plane is straddled, and the recorded top node is that leaf.
\<close>

theorem R_AddEfrags_topnode_counterexample:
  "isl (R_AddEfrags 0
     (module_init\<lparr>cl_present := True, cl_free_efrags := Some 0,
        ef_entnext := (\<lambda>_. None)(0 := Some 1),
        cl_worldmodel := Some \<lparr>wm_nodes = Some
          [Node 0 \<lparr>p_normal = Vec3 (Finite 1) (Finite 0) (Finite 0), p_dist = Finite 0, p_type = 0, p_signbits = 0\<rparr>
             (Leaf 0 CONTENTS_EMPTY) (Leaf 1 CONTENTS_SOLID)]\<rparr>,
        ent_model := (\<lambda>_. None)(0 := Some \<lparr>mb_mins = Vec3 (Finite 1) (Finite 1) (Finite 1), mb_maxs = Vec3 (Finite 2) (Finite 2) (Finite 2)\<rparr>)\<rparr>)) = False
   \<and> leaf_efrags (projr (R_AddEfrags 0
     (module_init\<lparr>cl_present := True, cl_free_efrags := Some 0,
        ef_entnext := (\<lambda>_. None)(0 := Some 1),
        cl_worldmodel := Some \<lparr>wm_nodes = Some
          [Node 0 \<lparr>p_normal = Vec3 (Finite 1) (Finite 0) (Finite 0), p_dist = Finite 0, p_type = 0, p_signbits = 0\<rparr>
             (Leaf 0 CONTENTS_EMPTY) (Leaf 1 CONTENTS_SOLID)]\<rparr>,
        ent_model := (\<lambda>_. None)(0 := Some \<lparr>mb_mins = Vec3 (Finite 1) (Finite 1) (Finite 1), mb_maxs = Vec3 (Finite 2) (Finite 2) (Finite 2)\<rparr>)\<rparr>))) 0
     = Some 0
   \<and> ent_efrag (projr (R_AddEfrags 0
     (module_init\<lparr>cl_present := True, cl_free_efrags := Some 0,
        ef_entnext := (\<lambda>_. None)(0 := Some 1),
        cl_worldmodel := Some \<lparr>wm_nodes = Some
          [Node 0 \<lparr>p_normal = Vec3 (Finite 1) (Finite 0) (Finite 0), p_dist = Finite 0, p_type = 0, p_signbits = 0\<rparr>
             (Leaf 0 CONTENTS_EMPTY) (Leaf 1 CONTENTS_SOLID)]\<rparr>,
        ent_model := (\<lambda>_. None)(0 := Some \<lparr>mb_mins = Vec3 (Finite 1) (Finite 1) (Finite 1), mb_maxs = Vec3 (Finite 2) (Finite 2) (Finite 2)\<rparr>)\<rparr>))) 0
     = Some 0
   \<and> first_split (Vec3 (Finite 1) (Finite 1) (Finite 1)) (Vec3 (Finite 2) (Finite 2) (Finite 2))
        (Node 0 \<lparr>p_normal = Vec3 (Finite 1) (Finite 0) (Finite 0), p_dist = Finite 0, p_type = 0, p_signbits = 0\<rparr>
           (Leaf 0 CONTENTS_EMPTY) (Leaf 1 CONTENTS_SOLID)) = None
   \<and> ent_topnode (projr (R_AddEfrags 0
     (module_init\<lparr>cl_present := True, cl_free_efrags := Some 0,
        ef_entnext := (\<lambda>_. None)(0 := Some 1),
        cl_worldmodel := Some \<lparr>wm_nodes = Some
          [Node 0 \<lparr>p_normal = Vec3 (Finite 1) (Finite 0) (Finite 0), p_dist = Finite 0, p_type = 0, p_signbits = 0\<rparr>
             (Leaf 0 CONTENTS_EMPTY) (Leaf 1 CONTENTS_SOLID)]\<rparr>,
        ent_model := (\<lambda>_. None)(0 := Some \<lparr>mb_mins = Vec3 (Finite 1) (Finite 1) (Finite 1), mb_maxs = Vec3 (Finite 2) (Finite 2) (Finite 2)\<rparr>)\<rparr>))) 0
     = Some (LeafRef 0)"
  by (simp add: module_init_def R_AddEfrags_def link_efrag_def Let_def nodes0_def vadd_def round64_numeral round32_numeral
      BOX_ON_PLANE_SIDE_def BOX_ON_PLANE_SIDE_axial_def js_le_def js_ge_def
      CONTENTS_EMPTY_def CONTENTS_WATER_def CONTENTS_SOLID_def)

lemma R_StoreEfrags_None:
  "R_StoreEfrags None v n M fc s = Some (Inr (n, v, s))"
  by (subst R_StoreEfrags.simps) simp

lemma R_StoreEfrags_Some:
  "R_StoreEfrags (Some ef) v n M fc s =
     (case ef_entity s ef of
        None \<Rightarrow> Some (Inl TypeError)
      | Some pent \<Rightarrow>
          if ent_model s pent \<noteq> None \<and> ent_visframe s pent \<noteq> fc \<and> n < M
          then R_StoreEfrags (ef_leafnext s ef) (v(n \<mapsto> pent)) (n + 1) M fc
                 (s\<lparr>ent_visframe := (ent_visframe s)(pent := fc)\<rparr>)
          else R_StoreEfrags (ef_leafnext s ef) v n M fc s)"
  by (subst R_StoreEfrags.simps) simp

text \<open>
  Claim C10, as the code has it. On a fragment chain that ends (the fragments \<open>xs\<close>, each with an entity),
  R\_StoreEfrags returns, with a count \<open>n'\<close> and the list \<open>v'\<close>: the list is unchanged
  outside the indices from the incoming count \<open>n\<close> up to \<open>n'\<close>; every entry written has
  an index below MAX\_VISEDICTS and holds an entity with a model whose stamp was not the
  frame count before the call and is the frame count after it; no entity is written twice;
  and the returned count is at most MAX\_VISEDICTS when the incoming count was; when the
  incoming count is above MAX\_VISEDICTS nothing is stored and it is returned unchanged.
\<close>

theorem R_StoreEfrags_once_bounded:
  assumes "chain (ef_leafnext s) pefrag xs" and "\<forall>x\<in>set xs. ef_entity s x \<noteq> None"
  shows "\<exists>n' v' s'. R_StoreEfrags pefrag v n M fc s = Some (Inr (n', v', s'))
           \<and> n \<le> n' \<and> (n' \<le> M \<or> n' = n) \<and> (n \<le> M \<longrightarrow> n' \<le> M)
           \<and> (\<forall>i. i < n \<or> n' \<le> i \<longrightarrow> v' i = v i)
           \<and> (\<forall>i. n \<le> i \<and> i < n' \<longrightarrow> i < M \<and>
                 (\<exists>e. v' i = Some e \<and> ent_model s e \<noteq> None \<and> ent_visframe s e \<noteq> fc
                      \<and> ent_visframe s' e = fc))
           \<and> inj_on v' {n..<n'}"
proof -
  from R_StoreEfrags_chain[OF assms, of v n M fc] obtain n' v' s' where
    "R_StoreEfrags pefrag v n M fc s = Some (Inr (n', v', s'))"
    "n \<le> n'" "n' \<le> M \<or> n' = n" "\<forall>i. i < n \<or> n' \<le> i \<longrightarrow> v' i = v i"
    "\<forall>i. n \<le> i \<and> i < n' \<longrightarrow> i < M \<and>
        (\<exists>e. v' i = Some e \<and> ent_model s e \<noteq> None \<and> ent_visframe s e \<noteq> fc
             \<and> ent_visframe s' e = fc)"
    "inj_on v' {n..<n'}"
    by (elim exE conjE)
  then show ?thesis by auto
qed

text \<open>
  The theorem on a chain of three fragments, two of entity 0 and one of entity 1, with
  room for eight entities: entity 0 is stored once, then entity 1, and the count is 2.
\<close>

theorem R_StoreEfrags_once_bounded_witness:
  "chain (ef_leafnext (module_init\<lparr>ef_leafnext := (\<lambda>_. None)(0 := Some 1, 1 := Some 2),
            ef_entity := (\<lambda>_. None)(0 := Some 0, 1 := Some 0, 2 := Some 1),
            ent_model := (\<lambda>_. Some \<lparr>mb_mins = Vec3 (Finite 0) (Finite 0) (Finite 0), mb_maxs = Vec3 (Finite 1) (Finite 1) (Finite 1)\<rparr>)\<rparr>))
     (Some 0) [0, 1, 2]
   \<and> (\<exists>v' s'. R_StoreEfrags (Some 0) (\<lambda>_. None) 0 8 1
         (module_init\<lparr>ef_leafnext := (\<lambda>_. None)(0 := Some 1, 1 := Some 2),
            ef_entity := (\<lambda>_. None)(0 := Some 0, 1 := Some 0, 2 := Some 1),
            ent_model := (\<lambda>_. Some \<lparr>mb_mins = Vec3 (Finite 0) (Finite 0) (Finite 0), mb_maxs = Vec3 (Finite 1) (Finite 1) (Finite 1)\<rparr>)\<rparr>)
         = Some (Inr (2, v', s'))
       \<and> v' 0 = Some 0 \<and> v' 1 = Some 1 \<and> inj_on v' {0..<2})"
  using R_StoreEfrags_once_bounded[of
      "module_init\<lparr>ef_leafnext := (\<lambda>_. None)(0 := Some 1, 1 := Some 2),
            ef_entity := (\<lambda>_. None)(0 := Some 0, 1 := Some 0, 2 := Some 1),
            ent_model := (\<lambda>_. Some \<lparr>mb_mins = Vec3 (Finite 0) (Finite 0) (Finite 0), mb_maxs = Vec3 (Finite 1) (Finite 1) (Finite 1)\<rparr>)\<rparr>"
      "Some 0" "[0, 1, 2]" "\<lambda>_. None" 0 8 1]
  by (simp add: module_init_def R_StoreEfrags_None R_StoreEfrags_Some)

text \<open>
  Claim C10 as stated fails: called with a count of 10 and MAX\_VISEDICTS 8, on the empty
  chain, R\_StoreEfrags returns the count 10, which exceeds MAX\_VISEDICTS.
\<close>

theorem R_StoreEfrags_count_counterexample:
  "R_StoreEfrags None (\<lambda>_. None) 10 8 1 module_init = Some (Inr (10, (\<lambda>_. None), module_init))
   \<and> (8::int) < 10"
  by (simp add: R_StoreEfrags_None)

text \<open>
  Claim C5, as the code has it. Take a store in which the free list and every leaf's chain
  are lists that end (\<open>fs\<close> and \<open>L leaf\<close>), no free fragment stands in a leaf's chain,
  and the entity is not linked: its own chain is empty and no leaf's chain holds a
  fragment that refers to it. If R\_AddEfrags returns for the entity, then R\_RemoveEfrags
  on the resulting store returns as well; afterwards the free list has its former length,
  the entity's chain is empty, every leaf's chain is the list it was, and none holds a
  fragment that refers to the entity.
\<close>

theorem R_AddEfrags_R_RemoveEfrags:
  assumes free: "chain (ef_entnext s) (cl_free_efrags s) fs"
    and leafs: "\<forall>l. chain (ef_leafnext s) (leaf_efrags s l) (L l)"
    and disj: "\<forall>l. set (L l) \<inter> set fs = {}"
    and unlinked: "ent_efrag s ent = None" "\<forall>l. \<forall>x\<in>set (L l). ef_entity s x \<noteq> Some ent"
    and add: "R_AddEfrags ent s = Inr s1"
  shows "\<exists>s2 fs2. R_RemoveEfrags ent s1 = Some s2
           \<and> chain (ef_entnext s2) (cl_free_efrags s2) fs2 \<and> length fs2 = length fs
           \<and> ent_efrag s2 ent = None
           \<and> (\<forall>l. chain (ef_leafnext s2) (leaf_efrags s2 l) (L l))
           \<and> (\<forall>l. \<forall>x\<in>set (L l). ef_entity s2 x \<noteq> Some ent)"
proof (cases "cl_present s")
  case False
  with add have "s1 = s" by (simp add: R_AddEfrags_def)
  with False assms show ?thesis by (auto simp: R_RemoveEfrags_def)
next
  case present: True
  have "\<exists>bs fs' sx. fs = bs @ fs' \<and> efrags_ok ent L bs fs' sx
          \<and> (\<forall>x. x \<notin> set bs \<longrightarrow> ef_entity sx x = ef_entity s x)
          \<and> s1 = sx\<lparr>ent_topnode := ent_topnode s1\<rparr>
        \<or> s1 = s"
  proof (cases "ent_model s ent")
    case None
    with add present show ?thesis by (simp add: R_AddEfrags_def)
  next
    case (Some m)
    define s0 where "s0 = s\<lparr>r_addent := Some ent, lastlink := None, r_pefragtopnode := None,
                      r_emins := vadd (ent_origin s ent) (mb_mins m),
                      r_emaxs := vadd (ent_origin s ent) (mb_maxs m)\<rparr>"
    have ok0: "efrags_ok ent L [] fs s0"
      using present free leafs disj unlinked(1) chain_distinct[OF free]
      by (simp add: efrags_ok_def s0_def)
    have e0: "ef_entity s0 = ef_entity s" by (simp add: s0_def)
    have unf: "R_AddEfrags ent s =
        (case (case cl_worldmodel s0 of None \<Rightarrow> Inr s0
               | Some w \<Rightarrow> (case wm_nodes w of None \<Rightarrow> Inr s0
                            | Some ns \<Rightarrow> R_SplitEntityOnNode (nodes0 ns) s0)) of
           Inl e \<Rightarrow> Inl e
         | Inr s2 \<Rightarrow> Inr (s2\<lparr>ent_topnode := (ent_topnode s2)(ent := r_pefragtopnode s2)\<rparr>))"
      using present Some
      by (simp add: R_AddEfrags_def Let_def s0_def cong: option.case_cong sum.case_cong)
    from add obtain sx where
      sx: "(case cl_worldmodel s0 of None \<Rightarrow> Inr s0
            | Some w \<Rightarrow> (case wm_nodes w of None \<Rightarrow> Inr s0
                         | Some ns \<Rightarrow> R_SplitEntityOnNode (nodes0 ns) s0)) = Inr sx"
      and s1: "s1 = sx\<lparr>ent_topnode := (ent_topnode sx)(ent := r_pefragtopnode sx)\<rparr>"
      unfolding unf by (auto split: sum.splits)
    have "\<exists>bs fs'. fs = bs @ fs' \<and> efrags_ok ent L ([] @ bs) fs' sx
          \<and> (\<forall>x. x \<notin> set bs \<longrightarrow> ef_entity sx x = ef_entity s0 x)"
    proof (cases "\<exists>w ns. cl_worldmodel s0 = Some w \<and> wm_nodes w = Some ns")
      case True
      then obtain w ns where "cl_worldmodel s0 = Some w" "wm_nodes w = Some ns" by blast
      with sx have "R_SplitEntityOnNode (nodes0 ns) s0 = Inr sx" by simp
      from split_ok[OF ok0 this] show ?thesis .
    next
      case False
      with sx have "sx = s0" by (auto split: option.splits)
      with ok0 have "fs = [] @ fs \<and> efrags_ok ent L ([] @ []) fs sx
          \<and> (\<forall>x. x \<notin> set [] \<longrightarrow> ef_entity sx x = ef_entity s0 x)" by simp
      then show ?thesis by blast
    qed
    with e0 s1 show ?thesis by auto
  qed
  then show ?thesis
  proof (elim disjE exE conjE)
    assume "s1 = s"
    with present assms show ?thesis
      by (auto simp: R_RemoveEfrags_def R_RemoveEfrags_loop_None)
  next
    fix bs fs' sx
    assume fs: "fs = bs @ fs'" and ok: "efrags_ok ent L bs fs' sx"
      and ents: "\<forall>x. x \<notin> set bs \<longrightarrow> ef_entity sx x = ef_entity s x"
      and s1: "s1 = sx\<lparr>ent_topnode := ent_topnode s1\<rparr>"
    have f1: "ef_entnext s1 = ef_entnext sx" "cl_free_efrags s1 = cl_free_efrags sx"
      "ef_leafnext s1 = ef_leafnext sx" "leaf_efrags s1 = leaf_efrags sx"
      "ef_leaf s1 = ef_leaf sx" "ent_efrag s1 = ent_efrag sx" "cl_present s1 = cl_present sx"
      "ef_entity s1 = ef_entity sx"
      by (subst s1, simp)+
    from ok have p: "cl_present s1"
      and p1: "chain (ef_entnext s1) (ent_efrag s1 ent) bs"
      and p2: "chain (ef_entnext s1) (cl_free_efrags s1) fs'"
      and p3: "\<forall>l. chain (ef_leafnext s1) (leaf_efrags s1 l)
                 (filter (\<lambda>a. ef_leaf s1 a = Some l) (rev bs) @ L l)"
      and p4: "distinct (bs @ fs')"
      and p5: "\<forall>l. set (L l) \<inter> set bs = {}"
      and p6: "\<forall>a\<in>set bs. ef_leaf s1 a \<noteq> None"
      by (auto simp: efrags_ok_def f1 split: if_splits)
    from remove_loop_chain[OF p1 p2 p3 p4 p5 p6] obtain s' where
      lp: "R_RemoveEfrags_loop (ent_efrag s1 ent) s1 = Some s'"
      and c: "chain (ef_entnext s') (cl_free_efrags s') (rev bs @ fs')"
        "\<forall>l. chain (ef_leafnext s') (leaf_efrags s' l) (L l)"
        "ef_entity s' = ef_entity s1"
      by blast
    let ?s2 = "s'\<lparr>ent_efrag := (ent_efrag s')(ent := None)\<rparr>"
    have r: "R_RemoveEfrags ent s1 = Some ?s2"
      using p lp by (simp add: R_RemoveEfrags_def)
    have e: "\<forall>l. \<forall>x\<in>set (L l). ef_entity ?s2 x \<noteq> Some ent"
    proof (intro allI ballI)
      fix l x assume x: "x \<in> set (L l)"
      with p5 have "x \<notin> set bs" by auto
      with ents have "ef_entity ?s2 x = ef_entity s x" by (simp add: c(3) f1)
      with unlinked(2) x show "ef_entity ?s2 x \<noteq> Some ent" by simp
    qed
    have "R_RemoveEfrags ent s1 = Some ?s2
           \<and> chain (ef_entnext ?s2) (cl_free_efrags ?s2) (rev bs @ fs')
           \<and> length (rev bs @ fs') = length fs
           \<and> ent_efrag ?s2 ent = None
           \<and> (\<forall>l. chain (ef_leafnext ?s2) (leaf_efrags ?s2 l) (L l))
           \<and> (\<forall>l. \<forall>x\<in>set (L l). ef_entity ?s2 x \<noteq> Some ent)"
      using r c(1,2) e fs by simp
    then show ?thesis by blast
  qed
qed


text \<open>
  The theorem in a world of one node, the plane \<open>x = 0\<close>, with an empty leaf 0 in front
  and a water leaf 1 behind. Leaf 0 already holds fragment 7 of entity 5; the free list is
  0, 1, 2. The box of entity 0, from \<open>(-1, -1, -1)\<close> to \<open>(1, 1, 1)\<close>, straddles the
  plane, so two fragments are linked; after the removal the free list has three fragments
  again and leaf 0 holds fragment 7 alone.
\<close>

theorem R_AddEfrags_R_RemoveEfrags_witness:
  "isl (R_AddEfrags 0
     (module_init\<lparr>cl_present := True, cl_free_efrags := Some 0,
        ef_entnext := (\<lambda>_. None)(0 := Some 1, 1 := Some 2),
        ef_entity := (\<lambda>_. None)(7 := Some 5), ef_leaf := (\<lambda>_. None)(7 := Some 0),
        leaf_efrags := (\<lambda>_. None)(0 := Some 7),
        cl_worldmodel := Some \<lparr>wm_nodes = Some
          [Node 0 \<lparr>p_normal = Vec3 (Finite 1) (Finite 0) (Finite 0), p_dist = Finite 0, p_type = 0, p_signbits = 0\<rparr>
             (Leaf 0 CONTENTS_EMPTY) (Leaf 1 CONTENTS_WATER)]\<rparr>,
        ent_model := (\<lambda>_. None)(0 := Some \<lparr>mb_mins = Vec3 (Finite (-1)) (Finite (-1)) (Finite (-1)), mb_maxs = Vec3 (Finite 1) (Finite 1) (Finite 1)\<rparr>)\<rparr>))
     = False
   \<and> (\<exists>s2 fs2. R_RemoveEfrags 0 (projr (R_AddEfrags 0
     (module_init\<lparr>cl_present := True, cl_free_efrags := Some 0,
        ef_entnext := (\<lambda>_. None)(0 := Some 1, 1 := Some 2),
        ef_entity := (\<lambda>_. None)(7 := Some 5), ef_leaf := (\<lambda>_. None)(7 := Some 0),
        leaf_efrags := (\<lambda>_. None)(0 := Some 7),
        cl_worldmodel := Some \<lparr>wm_nodes = Some
          [Node 0 \<lparr>p_normal = Vec3 (Finite 1) (Finite 0) (Finite 0), p_dist = Finite 0, p_type = 0, p_signbits = 0\<rparr>
             (Leaf 0 CONTENTS_EMPTY) (Leaf 1 CONTENTS_WATER)]\<rparr>,
        ent_model := (\<lambda>_. None)(0 := Some \<lparr>mb_mins = Vec3 (Finite (-1)) (Finite (-1)) (Finite (-1)), mb_maxs = Vec3 (Finite 1) (Finite 1) (Finite 1)\<rparr>)\<rparr>)))
       = Some s2
     \<and> chain (ef_entnext s2) (cl_free_efrags s2) fs2 \<and> length fs2 = 3
     \<and> ent_efrag s2 0 = None
     \<and> chain (ef_leafnext s2) (leaf_efrags s2 0) [7]
     \<and> chain (ef_leafnext s2) (leaf_efrags s2 1) [])"
proof -
  let ?s = "module_init\<lparr>cl_present := True, cl_free_efrags := Some 0,
        ef_entnext := (\<lambda>_. None)(0 := Some 1, 1 := Some 2),
        ef_entity := (\<lambda>_. None)(7 := Some 5), ef_leaf := (\<lambda>_. None)(7 := Some 0),
        leaf_efrags := (\<lambda>_. None)(0 := Some 7),
        cl_worldmodel := Some \<lparr>wm_nodes = Some
          [Node 0 \<lparr>p_normal = Vec3 (Finite 1) (Finite 0) (Finite 0), p_dist = Finite 0, p_type = 0, p_signbits = 0\<rparr>
             (Leaf 0 CONTENTS_EMPTY) (Leaf 1 CONTENTS_WATER)]\<rparr>,
        ent_model := (\<lambda>_. None)(0 := Some \<lparr>mb_mins = Vec3 (Finite (-1)) (Finite (-1)) (Finite (-1)), mb_maxs = Vec3 (Finite 1) (Finite 1) (Finite 1)\<rparr>)\<rparr>"
  have add: "R_AddEfrags 0 ?s = Inr (projr (R_AddEfrags 0 ?s))"
    by (simp add: module_init_def R_AddEfrags_def link_efrag_def Let_def nodes0_def vadd_def round64_numeral round32_numeral
      BOX_ON_PLANE_SIDE_def BOX_ON_PLANE_SIDE_axial_def js_le_def js_ge_def
      CONTENTS_EMPTY_def CONTENTS_WATER_def CONTENTS_SOLID_def)
  have h1: "chain (ef_entnext ?s) (cl_free_efrags ?s) [0, 1, 2]"
    by (simp add: module_init_def)
  have h2: "\<forall>l. chain (ef_leafnext ?s) (leaf_efrags ?s l) (((\<lambda>_. [])(0 := [7])) l)"
    by (simp add: module_init_def)
  have h3: "\<forall>l. set (((\<lambda>_. [])(0 := [7::nat])) l) \<inter> set [0, 1, 2] = {}"
    by simp
  have h4: "ent_efrag ?s 0 = None" by (simp add: module_init_def)
  have h5: "\<forall>l. \<forall>x\<in>set (((\<lambda>_. [])(0 := [7])) l). ef_entity ?s x \<noteq> Some 0"
    by (simp add: module_init_def)
  from R_AddEfrags_R_RemoveEfrags[OF h1 h2 h3 h4 h5 add] obtain s2 fs2 where
    "R_RemoveEfrags 0 (projr (R_AddEfrags 0 ?s)) = Some s2"
    "chain (ef_entnext s2) (cl_free_efrags s2) fs2" "length fs2 = length [0::nat, 1, 2]"
    "ent_efrag s2 0 = None"
    "\<forall>l. chain (ef_leafnext s2) (leaf_efrags s2 l) (((\<lambda>_. [])(0 := [7])) l)"
    by blast
  then have "R_RemoveEfrags 0 (projr (R_AddEfrags 0 ?s)) = Some s2
     \<and> chain (ef_entnext s2) (cl_free_efrags s2) fs2 \<and> length fs2 = 3
     \<and> ent_efrag s2 0 = None
     \<and> chain (ef_leafnext s2) (leaf_efrags s2 0) [7]
     \<and> chain (ef_leafnext s2) (leaf_efrags s2 1) []"
    by (auto dest: spec[where x = 0] spec[where x = 1])
  then have "\<exists>s2 fs2. R_RemoveEfrags 0 (projr (R_AddEfrags 0 ?s)) = Some s2
     \<and> chain (ef_entnext s2) (cl_free_efrags s2) fs2 \<and> length fs2 = 3
     \<and> ent_efrag s2 0 = None
     \<and> chain (ef_leafnext s2) (leaf_efrags s2 0) [7]
     \<and> chain (ef_leafnext s2) (leaf_efrags s2 1) []"
    by blast
  moreover have "isl (R_AddEfrags 0 ?s) = False"
    by (subst add) simp
  ultimately show ?thesis by blast
qed

text \<open>
  Claim C5 as stated fails for an entity that is linked already. In the same world with a
  solid leaf behind the plane, entity 0 (box from \<open>(1, 1, 1)\<close> to \<open>(2, 2, 2)\<close>) holds
  fragment 0 in leaf 0, and the free list holds fragment 1 alone. R\_AddEfrags links
  fragment 1 and lets the entity's chain start there, R\_RemoveEfrags unlinks fragment 1
  only: leaf 0 still holds fragment 0, which refers to entity 0.
\<close>

theorem R_AddEfrags_R_RemoveEfrags_counterexample:
  "ent_model (module_init\<lparr>cl_present := True, cl_free_efrags := Some 1,
        ef_entity := (\<lambda>_. None)(0 := Some 0), ef_leaf := (\<lambda>_. None)(0 := Some 0),
        leaf_efrags := (\<lambda>_. None)(0 := Some 0), ent_efrag := (\<lambda>_. None)(0 := Some 0),
        cl_worldmodel := Some \<lparr>wm_nodes = Some
          [Node 0 \<lparr>p_normal = Vec3 (Finite 1) (Finite 0) (Finite 0), p_dist = Finite 0, p_type = 0, p_signbits = 0\<rparr>
             (Leaf 0 CONTENTS_EMPTY) (Leaf 1 CONTENTS_SOLID)]\<rparr>,
        ent_model := (\<lambda>_. None)(0 := Some \<lparr>mb_mins = Vec3 (Finite 1) (Finite 1) (Finite 1), mb_maxs = Vec3 (Finite 2) (Finite 2) (Finite 2)\<rparr>)\<rparr>) 0
     = Some \<lparr>mb_mins = Vec3 (Finite 1) (Finite 1) (Finite 1), mb_maxs = Vec3 (Finite 2) (Finite 2) (Finite 2)\<rparr>
   \<and> isl (R_AddEfrags 0
     (module_init\<lparr>cl_present := True, cl_free_efrags := Some 1,
        ef_entity := (\<lambda>_. None)(0 := Some 0), ef_leaf := (\<lambda>_. None)(0 := Some 0),
        leaf_efrags := (\<lambda>_. None)(0 := Some 0), ent_efrag := (\<lambda>_. None)(0 := Some 0),
        cl_worldmodel := Some \<lparr>wm_nodes = Some
          [Node 0 \<lparr>p_normal = Vec3 (Finite 1) (Finite 0) (Finite 0), p_dist = Finite 0, p_type = 0, p_signbits = 0\<rparr>
             (Leaf 0 CONTENTS_EMPTY) (Leaf 1 CONTENTS_SOLID)]\<rparr>,
        ent_model := (\<lambda>_. None)(0 := Some \<lparr>mb_mins = Vec3 (Finite 1) (Finite 1) (Finite 1), mb_maxs = Vec3 (Finite 2) (Finite 2) (Finite 2)\<rparr>)\<rparr>))
     = False
   \<and> R_RemoveEfrags 0 (projr (R_AddEfrags 0
     (module_init\<lparr>cl_present := True, cl_free_efrags := Some 1,
        ef_entity := (\<lambda>_. None)(0 := Some 0), ef_leaf := (\<lambda>_. None)(0 := Some 0),
        leaf_efrags := (\<lambda>_. None)(0 := Some 0), ent_efrag := (\<lambda>_. None)(0 := Some 0),
        cl_worldmodel := Some \<lparr>wm_nodes = Some
          [Node 0 \<lparr>p_normal = Vec3 (Finite 1) (Finite 0) (Finite 0), p_dist = Finite 0, p_type = 0, p_signbits = 0\<rparr>
             (Leaf 0 CONTENTS_EMPTY) (Leaf 1 CONTENTS_SOLID)]\<rparr>,
        ent_model := (\<lambda>_. None)(0 := Some \<lparr>mb_mins = Vec3 (Finite 1) (Finite 1) (Finite 1), mb_maxs = Vec3 (Finite 2) (Finite 2) (Finite 2)\<rparr>)\<rparr>)))
     \<noteq> None
   \<and> leaf_efrags (the (R_RemoveEfrags 0 (projr (R_AddEfrags 0
     (module_init\<lparr>cl_present := True, cl_free_efrags := Some 1,
        ef_entity := (\<lambda>_. None)(0 := Some 0), ef_leaf := (\<lambda>_. None)(0 := Some 0),
        leaf_efrags := (\<lambda>_. None)(0 := Some 0), ent_efrag := (\<lambda>_. None)(0 := Some 0),
        cl_worldmodel := Some \<lparr>wm_nodes = Some
          [Node 0 \<lparr>p_normal = Vec3 (Finite 1) (Finite 0) (Finite 0), p_dist = Finite 0, p_type = 0, p_signbits = 0\<rparr>
             (Leaf 0 CONTENTS_EMPTY) (Leaf 1 CONTENTS_SOLID)]\<rparr>,
        ent_model := (\<lambda>_. None)(0 := Some \<lparr>mb_mins = Vec3 (Finite 1) (Finite 1) (Finite 1), mb_maxs = Vec3 (Finite 2) (Finite 2) (Finite 2)\<rparr>)\<rparr>)))))
       0 = Some 0
   \<and> ef_entity (the (R_RemoveEfrags 0 (projr (R_AddEfrags 0
     (module_init\<lparr>cl_present := True, cl_free_efrags := Some 1,
        ef_entity := (\<lambda>_. None)(0 := Some 0), ef_leaf := (\<lambda>_. None)(0 := Some 0),
        leaf_efrags := (\<lambda>_. None)(0 := Some 0), ent_efrag := (\<lambda>_. None)(0 := Some 0),
        cl_worldmodel := Some \<lparr>wm_nodes = Some
          [Node 0 \<lparr>p_normal = Vec3 (Finite 1) (Finite 0) (Finite 0), p_dist = Finite 0, p_type = 0, p_signbits = 0\<rparr>
             (Leaf 0 CONTENTS_EMPTY) (Leaf 1 CONTENTS_SOLID)]\<rparr>,
        ent_model := (\<lambda>_. None)(0 := Some \<lparr>mb_mins = Vec3 (Finite 1) (Finite 1) (Finite 1), mb_maxs = Vec3 (Finite 2) (Finite 2) (Finite 2)\<rparr>)\<rparr>)))))
       0 = Some 0"
  by (simp add: module_init_def R_AddEfrags_def link_efrag_def Let_def nodes0_def vadd_def round64_numeral round32_numeral
      BOX_ON_PLANE_SIDE_def BOX_ON_PLANE_SIDE_axial_def js_le_def js_ge_def
      CONTENTS_EMPTY_def CONTENTS_WATER_def CONTENTS_SOLID_def
      R_RemoveEfrags_def R_RemoveEfrags_loop_None R_RemoveEfrags_loop_Some
      unlink_from_leaf_def find_prev_None find_prev_Some)

section \<open>Properties of the loader\<close>

subsection \<open>Reading records\<close>

lemma bindE_Inr [simp]: "bindE (Inr x) f = f x"
  by (simp add: bindE_def)

lemma bindE_Inl [simp]: "bindE (Inl e) f = Inl e"
  by (simp add: bindE_def)

lemma bindE_eq_Inr: "bindE m f = Inr y \<longleftrightarrow> (\<exists>x. m = Inr x \<and> f x = Inr y)"
  by (cases m) simp_all

lemma mapE_length: "mapE f xs = Inr ys \<Longrightarrow> length ys = length xs"
  by (induction xs arbitrary: ys) (auto split: sum.splits)

lemma mapE_nth: "mapE f xs = Inr ys \<Longrightarrow> i < length xs \<Longrightarrow> f (xs ! i) = Inr (ys ! i)"
proof (induction xs arbitrary: ys i)
  case Nil
  then show ?case by simp
next
  case (Cons x xs)
  then show ?case by (cases i) (auto split: sum.splits)
qed

lemma mapE_ok: "(\<And>x. x \<in> set xs \<Longrightarrow> \<exists>y. f x = Inr y) \<Longrightarrow> \<exists>ys. mapE f xs = Inr ys"
proof (induction xs)
  case Nil
  then show ?case by simp
next
  case (Cons x xs)
  then obtain y ys where "f x = Inr y" "mapE f xs = Inr ys" by (meson list.set_intros)
  then show ?case by simp
qed

lemma view_bytes_ok:
  "0 \<le> off \<Longrightarrow> off + int n \<le> int (length view) \<Longrightarrow>
     view_bytes view off n = Inr (take n (drop (nat off) view))"
  by (simp add: view_bytes_def)

lemma getInt32_ok: "0 \<le> off \<Longrightarrow> off + 4 \<le> int (length view) \<Longrightarrow> \<exists>v. getInt32 view off = Inr v"
  by (simp add: getInt32_def view_bytes_ok)

lemma getInt16_ok: "0 \<le> off \<Longrightarrow> off + 2 \<le> int (length view) \<Longrightarrow> \<exists>v. getInt16 view off = Inr v"
  by (simp add: getInt16_def view_bytes_ok)

lemma getUint16_ok: "0 \<le> off \<Longrightarrow> off + 2 \<le> int (length view) \<Longrightarrow> \<exists>v. getUint16 view off = Inr v"
  by (simp add: getUint16_def view_bytes_ok)

lemma getFloat32_ok: "0 \<le> off \<Longrightarrow> off + 4 \<le> int (length view) \<Longrightarrow> \<exists>v. getFloat32 view off = Inr v"
  by (simp add: getFloat32_def view_bytes_ok)

lemma record_in_view:
  assumes "i < nat (len div sz)" "0 < sz" "int (length view) = len"
  shows "int i * sz + sz \<le> int (length view)"
proof -
  from assms have "int i + 1 \<le> len div sz" by linarith
  then have "(int i + 1) * sz \<le> (len div sz) * sz" using assms(2) by (simp add: mult_right_mono)
  also have "\<dots> \<le> len"
    using pos_mod_sign[OF assms(2), of len] div_mult_mod_eq[of len sz] by linarith
  finally show ?thesis using assms(3) by (simp add: algebra_simps)
qed


lemma load_plane_ok:
  assumes "int i * 20 + 20 \<le> int (length view)"
  shows "\<exists>p. load_plane view i = Inr p"
  using assms
  by (simp add: load_plane_def Let_def getFloat32_def getInt32_def view_bytes_ok)

lemma load_vertex_ok:
  assumes "int i * 12 + 12 \<le> int (length view)"
  shows "\<exists>p. load_vertex view i = Inr p"
  using assms
  by (simp add: load_vertex_def Let_def getFloat32_def view_bytes_ok)

lemma load_leaf_ok:
  assumes "int i * 28 + 28 \<le> int (length view)"
  shows "\<exists>p. load_leaf view base fileofs visdata i = Inr p"
  using assms
  by (simp add: load_leaf_def Let_def getInt32_def getInt16_def getUint16_def view_bytes_ok)

lemma load_node_ok:
  assumes "int i * 24 + 24 \<le> int (length view)"
  shows "\<exists>p. load_node view np count nl i = Inr p"
  using assms
  by (simp add: load_node_def Let_def getInt32_def getInt16_def getUint16_def view_bytes_ok)

lemma load_clipnode_ok:
  assumes "int i * 8 + 8 \<le> int (length view)"
  shows "\<exists>p. load_clipnode view i = Inr p"
  using assms
  by (simp add: load_clipnode_def Let_def getInt32_def getInt16_def view_bytes_ok)

lemma load_submodel_ok:
  assumes "int i * 64 + 64 \<le> int (length view)"
  shows "\<exists>p. load_submodel view i = Inr p"
proof -
  have "\<exists>fs. mapE (\<lambda>k. getFloat32 view (int i * 64 + 4 * int k)) [0..<9] = Inr fs"
  proof (rule mapE_ok)
    fix k :: nat assume "k \<in> set [0..<9]"
    then have "k < 9" by simp
    with assms show "\<exists>y. getFloat32 view (int i * 64 + 4 * int k) = Inr y"
      by (intro getFloat32_ok) auto
  qed
  moreover have "\<exists>hs. mapE (\<lambda>j. getInt32 view (int i * 64 + 36 + int j * 4)) [0..<MAX_MAP_HULLS] = Inr hs"
  proof (rule mapE_ok)
    fix j :: nat assume "j \<in> set [0..<MAX_MAP_HULLS]"
    then have "j < 4" by (simp add: MAX_MAP_HULLS_def)
    with assms show "\<exists>y. getInt32 view (int i * 64 + 36 + int j * 4) = Inr y"
      by (intro getInt32_ok) auto
  qed
  ultimately show ?thesis
    using assms
    by (auto simp: load_submodel_def Let_def getInt32_def view_bytes_ok)
qed

lemma new_DataView_eq:
  "new_DataView base fileofs filelen = Inr view \<longleftrightarrow>
     0 \<le> fileofs \<and> 0 \<le> filelen \<and> fileofs + filelen \<le> int (length base)
     \<and> view = take (nat filelen) (drop (nat fileofs) base)"
  by (auto simp: new_DataView_def)

lemma new_DataView_length:
  "new_DataView base fileofs filelen = Inr view \<Longrightarrow> int (length view) = filelen"
  by (auto simp: new_DataView_def split: if_splits)

lemma new_DataView_error:
  "new_DataView base fileofs filelen = Inl e \<longleftrightarrow>
     e = RangeError \<and> (fileofs < 0 \<or> filelen < 0 \<or> int (length base) < fileofs + filelen)"
  by (auto simp: new_DataView_def)

text \<open>
  The records of a region: when the region lies within the buffer, every record below the
  count \<open>filelen div size\<close> lies within the view, so the loop reads all of them.
\<close>

lemma records_ok:
  assumes v: "new_DataView base fileofs filelen = Inr view" and sz: "0 < sz"
    and rd: "\<And>i. int i * sz + sz \<le> int (length view) \<Longrightarrow> \<exists>p. f i = Inr p"
  shows "\<exists>rs. mapE f [0..<nat (filelen div sz)] = Inr rs \<and> length rs = nat (filelen div sz)"
proof -
  have "\<exists>rs. mapE f [0..<nat (filelen div sz)] = Inr rs"
  proof (rule mapE_ok)
    fix i assume "i \<in> set [0..<nat (filelen div sz)]"
    then have "i < nat (filelen div sz)" by simp
    from record_in_view[OF this sz new_DataView_length[OF v]] show "\<exists>y. f i = Inr y"
      by (rule rd)
  qed
  then obtain rs where "mapE f [0..<nat (filelen div sz)] = Inr rs" ..
  with mapE_length[OF this] show ?thesis by simp
qed

subsection \<open>The region loaders\<close>

lemma Mod_LoadPlanes_result:
  assumes "new_DataView base fileofs filelen = Inr view"
  shows "\<exists>planes. Mod_LoadPlanes m (Some base) fileofs filelen
            = Inr (m\<lparr>m_planes := planes, m_numplanes := filelen div 20\<rparr>)
          \<and> length planes = nat (filelen div 20)"
proof -
  from records_ok[OF assms, of 20 "load_plane view"] load_plane_ok[of _ view]
  obtain rs where "mapE (load_plane view) [0..<nat (filelen div 20)] = Inr rs"
    "length rs = nat (filelen div 20)" by auto
  with assms show ?thesis by (intro exI[of _ rs]) (simp add: Mod_LoadPlanes_def Let_def)
qed

lemma load_vertex_length: "load_vertex view i = Inr v \<Longrightarrow> length v = 3"
  by (auto simp: load_vertex_def Let_def bindE_eq_Inr)

lemma length_concat_const:
  "(\<And>x. x \<in> set xss \<Longrightarrow> length x = n) \<Longrightarrow> length (concat xss) = n * length xss"
  by (induction xss) auto

lemma Mod_LoadVertexes_result:
  assumes "new_DataView base fileofs filelen = Inr view"
  shows "\<exists>vs. Mod_LoadVertexes m (Some base) fileofs filelen
            = Inr (m\<lparr>m_numvertexes := filelen div 12, m_vertexes := Some vs\<rparr>)
          \<and> length vs = 3 * nat (filelen div 12)"
proof -
  from records_ok[OF assms, of 12 "load_vertex view"] load_vertex_ok[of _ view]
  obtain rs where rs: "mapE (load_vertex view) [0..<nat (filelen div 12)] = Inr rs"
    "length rs = nat (filelen div 12)" by auto
  have "length x = 3" if "x \<in> set rs" for x
  proof -
    from that obtain i where "i < length rs" "rs ! i = x" by (auto simp: in_set_conv_nth)
    with mapE_nth[OF rs(1), of i] rs(2) show ?thesis by (auto dest: load_vertex_length)
  qed
  then have "length (concat rs) = 3 * length rs" by (rule length_concat_const)
  with assms rs show ?thesis
    by (intro exI[of _ "concat rs"]) (simp add: Mod_LoadVertexes_def Let_def)
qed

lemma Mod_LoadLeafs_result:
  assumes "new_DataView base fileofs filelen = Inr view"
  shows "\<exists>leafs. Mod_LoadLeafs m (Some base) fileofs filelen
            = Inr (m\<lparr>m_leafs := leafs, m_numleafs := filelen div 28\<rparr>)
          \<and> length leafs = nat (filelen div 28)
          \<and> mapE (load_leaf view base fileofs (m_visdata m)) [0..<nat (filelen div 28)] = Inr leafs"
proof -
  from records_ok[OF assms, of 28 "load_leaf view base fileofs (m_visdata m)"]
    load_leaf_ok[of _ view]
  obtain rs where "mapE (load_leaf view base fileofs (m_visdata m)) [0..<nat (filelen div 28)] = Inr rs"
    "length rs = nat (filelen div 28)" by auto
  with assms show ?thesis by (intro exI[of _ rs]) (simp add: Mod_LoadLeafs_def Let_def)
qed

lemma Mod_LoadNodes_result:
  assumes "new_DataView base fileofs filelen = Inr view"
  shows "\<exists>nodes. Mod_LoadNodes stack m (Some base) fileofs filelen
            = Mod_SetParent stack (if nodes = [] then NoChild else NodeChild 0) None
                (m\<lparr>m_nodes := nodes, m_numnodes := filelen div 24\<rparr>)
          \<and> length nodes = nat (filelen div 24)
          \<and> mapE (load_node view (length (m_planes m)) (nat (filelen div 24)) (length (m_leafs m)))
                [0..<nat (filelen div 24)] = Inr nodes"
proof -
  from records_ok[OF assms, of 24
      "load_node view (length (m_planes m)) (nat (filelen div 24)) (length (m_leafs m))"]
    load_node_ok[of _ view]
  obtain rs where "mapE (load_node view (length (m_planes m)) (nat (filelen div 24)) (length (m_leafs m)))
       [0..<nat (filelen div 24)] = Inr rs"
    "length rs = nat (filelen div 24)" by auto
  with assms show ?thesis by (intro exI[of _ rs]) (simp add: Mod_LoadNodes_def Let_def)
qed

lemma Mod_LoadClipnodes_result:
  assumes "new_DataView base fileofs filelen = Inr view"
  shows "\<exists>clipnodes. Mod_LoadClipnodes m (Some base) fileofs filelen
            = Inr (m\<lparr>m_clipnodes := clipnodes, m_numclipnodes := filelen div 8,
                 m_hulls := [new_hull_t,
                   new_hull_t\<lparr>h_clipnodes := ModelClipnodes, h_planes := ModelPlanes,
                     h_clip_mins := [-16, -16, -24], h_clip_maxs := [16, 16, 32]\<rparr>,
                   new_hull_t\<lparr>h_clipnodes := ModelClipnodes, h_planes := ModelPlanes,
                     h_clip_mins := [-32, -32, -24], h_clip_maxs := [32, 32, 64]\<rparr>,
                   new_hull_t]\<rparr>)
          \<and> length clipnodes = nat (filelen div 8)"
proof -
  from records_ok[OF assms, of 8 "load_clipnode view"] load_clipnode_ok[of _ view]
  obtain rs where "mapE (load_clipnode view) [0..<nat (filelen div 8)] = Inr rs"
    "length rs = nat (filelen div 8)" by auto
  with assms show ?thesis by (intro exI[of _ rs]) (simp add: Mod_LoadClipnodes_def Let_def)
qed

lemma Mod_LoadSubmodels_result:
  assumes "new_DataView base fileofs filelen = Inr view"
  shows "\<exists>submodels. Mod_LoadSubmodels m (Some base) fileofs filelen
            = Inr (m\<lparr>m_submodels := submodels, m_numsubmodels := filelen div 64\<rparr>)
          \<and> length submodels = nat (filelen div 64)"
proof -
  from records_ok[OF assms, of 64 "load_submodel view"] load_submodel_ok[of _ view]
  obtain rs where "mapE (load_submodel view) [0..<nat (filelen div 64)] = Inr rs"
    "length rs = nat (filelen div 64)" by auto
  with assms show ?thesis by (intro exI[of _ rs]) (simp add: Mod_LoadSubmodels_def Let_def)
qed

lemma loaders_outside:
  assumes "fileofs < 0 \<or> filelen < 0 \<or> int (length base) < fileofs + filelen"
  shows "Mod_LoadPlanes m (Some base) fileofs filelen = Inl RangeError"
    and "Mod_LoadVertexes m (Some base) fileofs filelen = Inl RangeError"
    and "Mod_LoadLeafs m (Some base) fileofs filelen = Inl RangeError"
    and "Mod_LoadNodes stack m (Some base) fileofs filelen = Inl RangeError"
    and "Mod_LoadClipnodes m (Some base) fileofs filelen = Inl RangeError"
    and "Mod_LoadSubmodels m (Some base) fileofs filelen = Inl RangeError"
proof -
  from assms have "new_DataView base fileofs filelen = Inl RangeError"
    by (simp add: new_DataView_def)
  then show "Mod_LoadPlanes m (Some base) fileofs filelen = Inl RangeError"
    and "Mod_LoadVertexes m (Some base) fileofs filelen = Inl RangeError"
    and "Mod_LoadLeafs m (Some base) fileofs filelen = Inl RangeError"
    and "Mod_LoadNodes stack m (Some base) fileofs filelen = Inl RangeError"
    and "Mod_LoadClipnodes m (Some base) fileofs filelen = Inl RangeError"
    and "Mod_LoadSubmodels m (Some base) fileofs filelen = Inl RangeError"
    by (simp_all add: Mod_LoadPlanes_def Mod_LoadVertexes_def Mod_LoadLeafs_def
        Mod_LoadNodes_def Mod_LoadClipnodes_def Mod_LoadSubmodels_def)
qed

subsection \<open>Hull 0\<close>

lemma indexOf_notin: "x \<notin> set xs \<Longrightarrow> indexOf xs x = -1"
  by (induction xs) (auto simp: Let_def)

lemma indexOf_nonneg: "x \<in> set xs \<Longrightarrow> 0 \<le> indexOf xs x"
  by (induction xs) (auto simp: Let_def)

lemma indexOf_nth:
  "distinct xs \<Longrightarrow> k < length xs \<Longrightarrow> indexOf xs (xs ! k) = int k"
proof (induction xs arbitrary: k)
  case Nil
  then show ?case by simp
next
  case (Cons y ys)
  show ?case
  proof (cases k)
    case 0
    then show ?thesis by simp
  next
    case (Suc j)
    with Cons.prems have j: "j < length ys" "distinct ys" "ys ! j \<noteq> y" by auto
    with Cons.IH[of j] have "indexOf ys (ys ! j) = int j" by simp
    with Suc j show ?thesis by (simp add: Let_def)
  qed
qed

lemma indexOf_map_upt:
  assumes "inj f" "k < n"
  shows "indexOf (map f [0..<n]) (f k) = int k"
proof -
  have "distinct (map f [0..<n])" using assms(1) by (simp add: distinct_map inj_on_def inj_def)
  from indexOf_nth[OF this, of k] assms(2) show ?thesis by simp
qed

lemma hull0_child_ok:
  assumes "child_ok m c" and "\<forall>node\<in>set (m_nodes m). n_contents node = 0"
  shows "hull0_child m c = Inr (hull0_slot m c)"
proof (cases c)
  case NoChild
  then show ?thesis by (simp add: hull0_child_def hull0_slot_def)
next
  case (NodeChild k)
  with assms have k: "k < length (m_nodes m)" "n_contents (m_nodes m ! k) = 0"
    by (auto simp: child_ok_def)
  have "indexOf (map NodeChild [0..<length (m_nodes m)]) (NodeChild k) = int k"
    using k(1) by (intro indexOf_map_upt) (auto simp: inj_def)
  with NodeChild k show ?thesis by (simp add: hull0_child_def hull0_slot_def)
next
  case (LeafChild k)
  with assms have k: "k < length (m_leafs m)" by (auto simp: child_ok_def)
  have "indexOf (map NodeChild [0..<length (m_nodes m)]) (LeafChild k) = -1"
    by (intro indexOf_notin) auto
  with LeafChild k show ?thesis by (simp add: hull0_child_def hull0_slot_def)
qed

lemma hull0_clipnode_ok:
  assumes "model_ok m" and "i < length (m_nodes m)"
  shows "hull0_clipnode m i =
           Inr \<lparr>cn_planenum = (case n_plane (m_nodes m ! i) of None \<Rightarrow> -1 | Some p \<Rightarrow> int p),
                cn_children = [hull0_slot m (n_children (m_nodes m ! i) ! 0),
                               hull0_slot m (n_children (m_nodes m ! i) ! 1)]\<rparr>"
proof -
  from assms have ok: "node_ok m (m_nodes m ! i)"
    and c0: "\<forall>node\<in>set (m_nodes m). n_contents node = 0"
    by (auto simp: model_ok_def list_all_iff node_ok_def)
  have pl: "indexOf (map Some [0..<length (m_planes m)]) (n_plane (m_nodes m ! i))
              = (case n_plane (m_nodes m ! i) of None \<Rightarrow> -1 | Some p \<Rightarrow> int p)"
  proof (cases "n_plane (m_nodes m ! i)")
    case None
    then show ?thesis by (simp add: indexOf_notin image_iff)
  next
    case (Some p)
    with ok have "p < length (m_planes m)" by (simp add: node_ok_def)
    then have "indexOf (map Some [0..<length (m_planes m)]) (Some p) = int p"
      by (intro indexOf_map_upt) auto
    with Some show ?thesis by simp
  qed
  have up: "[0..<2] = [0, Suc 0]" by (simp add: upt_rec)
  from ok have "hull0_child m (n_children (m_nodes m ! i) ! 0)
                  = Inr (hull0_slot m (n_children (m_nodes m ! i) ! 0))"
    and "hull0_child m (n_children (m_nodes m ! i) ! Suc 0)
                  = Inr (hull0_slot m (n_children (m_nodes m ! i) ! Suc 0))"
    using c0 by (auto intro!: hull0_child_ok simp: node_ok_def)
  with assms(2) pl show ?thesis
    by (simp add: hull0_clipnode_def Let_def up)
qed

lemma mapE_eq_map:
  "(\<And>x. x \<in> set xs \<Longrightarrow> f x = Inr (g x)) \<Longrightarrow> mapE f xs = Inr (map g xs)"
  by (induction xs) auto

lemma Mod_MakeHull0_ok:
  assumes ok: "model_ok m" and h: "m_hulls m = hull0 # rest"
  shows "\<exists>cs. Mod_MakeHull0 m =
            Inr (m\<lparr>m_hulls := (hull0\<lparr>h_planes := ModelPlanes, h_firstclipnode := 0,
                       h_lastclipnode := m_numnodes m - 1, h_clipnodes := OwnClipnodes cs\<rparr>) # rest\<rparr>)
          \<and> hull0_matches m cs"
proof -
  let ?g = "\<lambda>i. \<lparr>cn_planenum = (case n_plane (m_nodes m ! i) of None \<Rightarrow> -1 | Some p \<Rightarrow> int p),
                cn_children = [hull0_slot m (n_children (m_nodes m ! i) ! 0),
                               hull0_slot m (n_children (m_nodes m ! i) ! 1)]\<rparr>"
  from ok have n: "nat (m_numnodes m) = length (m_nodes m)" by (simp add: model_ok_def)
  have "mapE (hull0_clipnode m) [0..<nat (m_numnodes m)] = Inr (map ?g [0..<nat (m_numnodes m)])"
    by (rule mapE_eq_map) (simp add: n hull0_clipnode_ok[OF ok])
  moreover have "hull0_matches m (map ?g [0..<nat (m_numnodes m)])"
    by (simp add: hull0_matches_def n)
  ultimately show ?thesis
    using h by (intro exI[of _ "map ?g [0..<nat (m_numnodes m)]"])
      (simp add: Mod_MakeHull0_def Let_def)
qed

subsection \<open>The stages of a load\<close>

lemma Mod_SetParent_no_parents:
  "Mod_SetParent depth node parent m = Inr m' \<Longrightarrow> no_parents m' = no_parents m"
proof (induction depth node parent m arbitrary: m' rule: Mod_SetParent.induct)
  case (1 node parent md)
  then show ?case by simp
next
  case (2 depth parent md)
  then show ?case by simp
next
  case (3 depth i parent md)
  then show ?case
    by (auto simp: no_parents_def map_update list_update_same_conv split: if_splits)
next
  case (4 depth i parent md)
  let ?m1 = "md\<lparr>m_nodes := (m_nodes md)[i := (m_nodes md ! i)\<lparr>n_parent := parent\<rparr>]\<rparr>"
  from "4.prems" have i: "i < length (m_nodes md)" by (auto split: if_splits)
  have e1: "no_parents ?m1 = no_parents md"
    using i by (simp add: no_parents_def map_update list_update_same_conv)
  show ?case
  proof (cases "n_contents (m_nodes ?m1 ! i) < 0")
    case True
    with "4.prems" i have "m' = ?m1" by (simp add: Let_def)
    with e1 show ?thesis by simp
  next
    case False
    with "4.prems" i obtain m2 where
      a: "Mod_SetParent depth (n_children (m_nodes ?m1 ! i) ! 0) (Some i) ?m1 = Inr m2"
      and b: "Mod_SetParent depth (n_children (m_nodes m2 ! i) ! 1) (Some i) m2 = Inr m'"
      by (auto simp: Let_def split: sum.splits)
    from "4.IH"(1)[OF i refl False a] have "no_parents m2 = no_parents ?m1" .
    moreover from "4.IH"(2)[OF i refl False a b] have "no_parents m' = no_parents m2" .
    ultimately show ?thesis using e1 by simp
  qed
qed

lemma no_parents_fields:
  assumes "no_parents m' = no_parents m"
  shows "m_planes m' = m_planes m" "m_visdata m' = m_visdata m" "m_hulls m' = m_hulls m"
    "m_numnodes m' = m_numnodes m" "m_numleafs m' = m_numleafs m"
    "length (m_nodes m') = length (m_nodes m)" "length (m_leafs m') = length (m_leafs m)"
    "map n_children (m_nodes m') = map n_children (m_nodes m)"
    "map n_plane (m_nodes m') = map n_plane (m_nodes m)"
    "map n_contents (m_nodes m') = map n_contents (m_nodes m)"
    "map lf_contents (m_leafs m') = map lf_contents (m_leafs m)"
    "map lf_compressed_vis (m_leafs m') = map lf_compressed_vis (m_leafs m)"
    "m_name m' = m_name m"
proof -
  have n: "map (\<lambda>n. n\<lparr>n_parent := None\<rparr>) (m_nodes m') = map (\<lambda>n. n\<lparr>n_parent := None\<rparr>) (m_nodes m)"
    and l: "map (\<lambda>l. l\<lparr>lf_parent := None\<rparr>) (m_leafs m') = map (\<lambda>l. l\<lparr>lf_parent := None\<rparr>) (m_leafs m)"
    using arg_cong[OF assms, of m_nodes] arg_cong[OF assms, of m_leafs]
    by (simp_all add: no_parents_def)
  show "m_planes m' = m_planes m" "m_visdata m' = m_visdata m" "m_hulls m' = m_hulls m"
    "m_numnodes m' = m_numnodes m" "m_numleafs m' = m_numleafs m"
    using arg_cong[OF assms, of m_planes] arg_cong[OF assms, of m_visdata]
      arg_cong[OF assms, of m_hulls] arg_cong[OF assms, of m_numnodes]
      arg_cong[OF assms, of m_numleafs]
    by (simp_all add: no_parents_def)
  show "length (m_nodes m') = length (m_nodes m)" using arg_cong[OF n, of length] by simp
  show "length (m_leafs m') = length (m_leafs m)" using arg_cong[OF l, of length] by simp
  show "map n_children (m_nodes m') = map n_children (m_nodes m)"
    using arg_cong[OF n, of "map n_children"] by (simp add: comp_def)
  show "map n_plane (m_nodes m') = map n_plane (m_nodes m)"
    using arg_cong[OF n, of "map n_plane"] by (simp add: comp_def)
  show "map n_contents (m_nodes m') = map n_contents (m_nodes m)"
    using arg_cong[OF n, of "map n_contents"] by (simp add: comp_def)
  show "map lf_contents (m_leafs m') = map lf_contents (m_leafs m)"
    using arg_cong[OF l, of "map lf_contents"] by (simp add: comp_def)
  show "map lf_compressed_vis (m_leafs m') = map lf_compressed_vis (m_leafs m)"
    using arg_cong[OF l, of "map lf_compressed_vis"] by (simp add: comp_def)
  show "m_name m' = m_name m"
    using arg_cong[OF assms, of m_name] by (simp add: no_parents_def)
qed


lemma map_eq_nth:
  "map f xs = map f ys \<Longrightarrow> i < length ys \<Longrightarrow> f (xs ! i) = f (ys ! i)"
  by (metis length_map nth_map)

lemma model_ok_no_parents:
  assumes "no_parents m' = no_parents m" and "model_ok m"
  shows "model_ok m'"
proof -
  note f = no_parents_fields[OF assms(1)]
  have "node_ok m' (m_nodes m' ! i)" if i: "i < length (m_nodes m)" for i
  proof -
    from assms(2) i have ok: "node_ok m (m_nodes m ! i)" by (simp add: model_ok_def list_all_length)
    have "n_children (m_nodes m' ! i) = n_children (m_nodes m ! i)"
      "n_plane (m_nodes m' ! i) = n_plane (m_nodes m ! i)"
      "n_contents (m_nodes m' ! i) = n_contents (m_nodes m ! i)"
      using f(8,9,10) i by (auto dest: map_eq_nth)
    with ok show ?thesis
      by (simp add: node_ok_def child_ok_def f cong: child_ref.case_cong option.case_cong)
  qed
  with assms(2) show ?thesis by (simp add: model_ok_def list_all_length f)
qed

lemma load_child_ok: "load_child count nl c = r \<Longrightarrow>
   (case r of NoChild \<Rightarrow> True | NodeChild k \<Rightarrow> k < count | LeafChild k \<Rightarrow> k < nl)"
  by (auto simp: load_child_def split: if_splits)

lemma load_node_fields:
  assumes "load_node view np count nl i = Inr node"
  shows "n_contents node = 0 \<and> length (n_children node) = 2
         \<and> (case n_children node ! 0 of NoChild \<Rightarrow> True | NodeChild k \<Rightarrow> k < count | LeafChild k \<Rightarrow> k < nl)
         \<and> (case n_children node ! 1 of NoChild \<Rightarrow> True | NodeChild k \<Rightarrow> k < count | LeafChild k \<Rightarrow> k < nl)
         \<and> (case n_plane node of None \<Rightarrow> True | Some p \<Rightarrow> p < np)"
proof -
  from assms obtain pn c0 c1 where
    "n_contents node = 0" "n_children node = [load_child count nl c0, load_child count nl c1]"
    "n_plane node = (if 0 \<le> pn \<and> nat pn < np then Some (nat pn) else None)"
    by (auto simp: load_node_def Let_def bindE_eq_Inr new_mnode_t_def)
  then show ?thesis
    using load_child_ok[OF refl, of count nl c0] load_child_ok[OF refl, of count nl c1]
    by (auto split: if_splits)
qed

lemma Mod_LoadNodes_Inr:
  assumes "Mod_LoadNodes stack m (Some base) fileofs filelen = Inr m'"
  shows "model_ok m' \<and> m_planes m' = m_planes m \<and> m_visdata m' = m_visdata m
         \<and> m_hulls m' = m_hulls m \<and> length (m_leafs m') = length (m_leafs m)
         \<and> map lf_contents (m_leafs m') = map lf_contents (m_leafs m)
         \<and> map lf_compressed_vis (m_leafs m') = map lf_compressed_vis (m_leafs m)
         \<and> m_name m' = m_name m"
proof -
  from assms obtain view where v: "new_DataView base fileofs filelen = Inr view"
    by (auto simp: Mod_LoadNodes_def bindE_eq_Inr)
  from Mod_LoadNodes_result[OF v, of stack m] assms obtain nodes where
    sp: "Mod_SetParent stack (if nodes = [] then NoChild else NodeChild 0) None
           (m\<lparr>m_nodes := nodes, m_numnodes := filelen div 24\<rparr>) = Inr m'"
    and len: "length nodes = nat (filelen div 24)"
    and ld: "mapE (load_node view (length (m_planes m)) (nat (filelen div 24)) (length (m_leafs m)))
                [0..<nat (filelen div 24)] = Inr nodes"
    by auto
  let ?m1 = "m\<lparr>m_nodes := nodes, m_numnodes := filelen div 24\<rparr>"
  from v have nonneg: "0 \<le> filelen" by (simp add: new_DataView_eq)
  have "node_ok ?m1 (nodes ! i)" if "i < length nodes" for i
  proof -
    from mapE_nth[OF ld, of i] that len
    have "load_node view (length (m_planes m)) (nat (filelen div 24)) (length (m_leafs m)) i
            = Inr (nodes ! i)" by simp
    from load_node_fields[OF this] len show ?thesis
      by (simp add: node_ok_def child_ok_def cong: child_ref.case_cong option.case_cong)
  qed
  then have ok1: "model_ok ?m1"
    using len nonneg by (simp add: model_ok_def list_all_length pos_imp_zdiv_nonneg_iff)
  note np = Mod_SetParent_no_parents[OF sp]
  from model_ok_no_parents[OF np ok1] no_parents_fields[OF np] show ?thesis by simp
qed

lemma Mod_LoadPlanes_Inr:
  assumes "Mod_LoadPlanes m (Some base) fileofs filelen = Inr m'"
  shows "\<exists>planes. m' = m\<lparr>m_planes := planes, m_numplanes := filelen div 20\<rparr>"
proof -
  from assms obtain view where v: "new_DataView base fileofs filelen = Inr view"
    by (auto simp: Mod_LoadPlanes_def bindE_eq_Inr)
  from Mod_LoadPlanes_result[OF v, of m] assms show ?thesis by auto
qed

lemma Mod_LoadVertexes_Inr:
  assumes "Mod_LoadVertexes m (Some base) fileofs filelen = Inr m'"
  shows "\<exists>vs. m' = m\<lparr>m_numvertexes := filelen div 12, m_vertexes := Some vs\<rparr>"
proof -
  from assms obtain view where v: "new_DataView base fileofs filelen = Inr view"
    by (auto simp: Mod_LoadVertexes_def bindE_eq_Inr)
  from Mod_LoadVertexes_result[OF v, of m] assms show ?thesis by auto
qed

lemma Mod_LoadVisibility_Inr:
  assumes "Mod_LoadVisibility m (Some base) fileofs filelen = Inr m'"
  shows "\<exists>vis. m' = m\<lparr>m_visdata := vis\<rparr> \<and> (vis = None \<longleftrightarrow> filelen = 0)"
  using assms by (auto simp: Mod_LoadVisibility_def Let_def split: if_splits)

lemma Mod_LoadLeafs_Inr:
  assumes "Mod_LoadLeafs m (Some base) fileofs filelen = Inr m'"
  shows "\<exists>view leafs. new_DataView base fileofs filelen = Inr view
           \<and> m' = m\<lparr>m_leafs := leafs, m_numleafs := filelen div 28\<rparr>
           \<and> length leafs = nat (filelen div 28)
           \<and> mapE (load_leaf view base fileofs (m_visdata m)) [0..<nat (filelen div 28)] = Inr leafs"
proof -
  from assms obtain view where v: "new_DataView base fileofs filelen = Inr view"
    by (auto simp: Mod_LoadLeafs_def bindE_eq_Inr)
  from Mod_LoadLeafs_result[OF v, of m] assms v show ?thesis by auto
qed

lemma Mod_LoadClipnodes_Inr:
  assumes "Mod_LoadClipnodes m (Some base) fileofs filelen = Inr m'"
  shows "\<exists>clipnodes hull0 rest. m' = m\<lparr>m_clipnodes := clipnodes, m_numclipnodes := filelen div 8,
            m_hulls := hull0 # rest\<rparr>"
proof -
  from assms obtain view where v: "new_DataView base fileofs filelen = Inr view"
    by (auto simp: Mod_LoadClipnodes_def bindE_eq_Inr)
  from Mod_LoadClipnodes_result[OF v, of m] assms show ?thesis by auto
qed

lemma Mod_LoadEntities_Inr:
  assumes "Mod_LoadEntities m (Some base) fileofs filelen = Inr m'"
  shows "\<exists>es. m' = m\<lparr>m_entities := es\<rparr>"
  using assms by (auto simp: Mod_LoadEntities_def split: if_splits)

lemma Mod_LoadSubmodels_Inr:
  assumes "Mod_LoadSubmodels m (Some base) fileofs filelen = Inr m'"
  shows "\<exists>submodels. m' = m\<lparr>m_submodels := submodels, m_numsubmodels := filelen div 64\<rparr>"
proof -
  from assms obtain view where v: "new_DataView base fileofs filelen = Inr view"
    by (auto simp: Mod_LoadSubmodels_def bindE_eq_Inr)
  from Mod_LoadSubmodels_result[OF v, of m] assms show ?thesis by auto
qed

subsection \<open>A completed load\<close>

lemma load_leaf_vis:
  assumes "load_leaf view base fileofs visdata i = Inr leaf"
  shows "\<exists>visofs. getInt32 view (int i * 28 + 4) = Inr visofs \<and>
           lf_compressed_vis leaf =
             (case visdata of
                None \<Rightarrow> None
              | Some vis \<Rightarrow> if visofs \<noteq> -1 then Some (subarray_from vis visofs) else None)"
  using assms by (auto simp: load_leaf_def Let_def bindE_eq_Inr new_mleaf_t_def)

lemma Mod_LoadBrushModel_stages:
  assumes "Mod_LoadBrushModel stack m buffer (Some base) = Inr m'"
  shows "\<exists>lumps m1 m2 m3 m4 m5 m6 m7 m8 m9.
     mapE (read_lump buffer) [0..<HEADER_LUMPS] = Inr lumps \<and>
     Mod_LoadPlanes (m\<lparr>m_type := mod_brush\<rparr>) (Some base) (fst (lumps ! LUMP_PLANES)) (snd (lumps ! LUMP_PLANES)) = Inr m1 \<and>
     Mod_LoadVertexes m1 (Some base) (fst (lumps ! LUMP_VERTEXES)) (snd (lumps ! LUMP_VERTEXES)) = Inr m2 \<and>
     Mod_LoadVisibility m2 (Some base) (fst (lumps ! LUMP_VISIBILITY)) (snd (lumps ! LUMP_VISIBILITY)) = Inr m3 \<and>
     Mod_LoadLeafs m3 (Some base) (fst (lumps ! LUMP_LEAFS)) (snd (lumps ! LUMP_LEAFS)) = Inr m4 \<and>
     Mod_LoadNodes stack m4 (Some base) (fst (lumps ! LUMP_NODES)) (snd (lumps ! LUMP_NODES)) = Inr m5 \<and>
     Mod_LoadClipnodes m5 (Some base) (fst (lumps ! LUMP_CLIPNODES)) (snd (lumps ! LUMP_CLIPNODES)) = Inr m6 \<and>
     Mod_LoadEntities m6 (Some base) (fst (lumps ! LUMP_ENTITIES)) (snd (lumps ! LUMP_ENTITIES)) = Inr m7 \<and>
     Mod_LoadSubmodels m7 (Some base) (fst (lumps ! LUMP_MODELS)) (snd (lumps ! LUMP_MODELS)) = Inr m8 \<and>
     Mod_MakeHull0 m8 = Inr m9 \<and>
     m' = (case m_submodels m9 of [] \<Rightarrow> m9
           | sub # _ \<Rightarrow> m9\<lparr>m_mins := dm_mins sub, m_maxs := dm_maxs sub\<rparr>)"
proof -
  from assms have "\<exists>lumps m1 m2 m3 m4 m5 m6 m7 m8 m9.
     mapE (read_lump buffer) [0..<HEADER_LUMPS] = Inr lumps \<and>
     Mod_LoadPlanes (m\<lparr>m_type := mod_brush\<rparr>) (Some base) (fst (lumps ! LUMP_PLANES)) (snd (lumps ! LUMP_PLANES)) = Inr m1 \<and>
     Mod_LoadVertexes m1 (Some base) (fst (lumps ! LUMP_VERTEXES)) (snd (lumps ! LUMP_VERTEXES)) = Inr m2 \<and>
     Mod_LoadVisibility m2 (Some base) (fst (lumps ! LUMP_VISIBILITY)) (snd (lumps ! LUMP_VISIBILITY)) = Inr m3 \<and>
     Mod_LoadLeafs m3 (Some base) (fst (lumps ! LUMP_LEAFS)) (snd (lumps ! LUMP_LEAFS)) = Inr m4 \<and>
     Mod_LoadNodes stack m4 (Some base) (fst (lumps ! LUMP_NODES)) (snd (lumps ! LUMP_NODES)) = Inr m5 \<and>
     Mod_LoadClipnodes m5 (Some base) (fst (lumps ! LUMP_CLIPNODES)) (snd (lumps ! LUMP_CLIPNODES)) = Inr m6 \<and>
     Mod_LoadEntities m6 (Some base) (fst (lumps ! LUMP_ENTITIES)) (snd (lumps ! LUMP_ENTITIES)) = Inr m7 \<and>
     Mod_LoadSubmodels m7 (Some base) (fst (lumps ! LUMP_MODELS)) (snd (lumps ! LUMP_MODELS)) = Inr m8 \<and>
     Mod_MakeHull0 m8 = Inr m9 \<and>
     Inr (case m_submodels m9 of [] \<Rightarrow> m9
           | sub # _ \<Rightarrow> m9\<lparr>m_mins := dm_mins sub, m_maxs := dm_maxs sub\<rparr>) = (Inr m' :: error + model_t)"
    by (simp add: Mod_LoadBrushModel_def Let_def bindE_eq_Inr split: if_splits)
  then obtain lumps m1 m2 m3 m4 m5 m6 m7 m8 m9 where st:
     "mapE (read_lump buffer) [0..<HEADER_LUMPS] = Inr lumps"
     "Mod_LoadPlanes (m\<lparr>m_type := mod_brush\<rparr>) (Some base) (fst (lumps ! LUMP_PLANES)) (snd (lumps ! LUMP_PLANES)) = Inr m1"
     "Mod_LoadVertexes m1 (Some base) (fst (lumps ! LUMP_VERTEXES)) (snd (lumps ! LUMP_VERTEXES)) = Inr m2"
     "Mod_LoadVisibility m2 (Some base) (fst (lumps ! LUMP_VISIBILITY)) (snd (lumps ! LUMP_VISIBILITY)) = Inr m3"
     "Mod_LoadLeafs m3 (Some base) (fst (lumps ! LUMP_LEAFS)) (snd (lumps ! LUMP_LEAFS)) = Inr m4"
     "Mod_LoadNodes stack m4 (Some base) (fst (lumps ! LUMP_NODES)) (snd (lumps ! LUMP_NODES)) = Inr m5"
     "Mod_LoadClipnodes m5 (Some base) (fst (lumps ! LUMP_CLIPNODES)) (snd (lumps ! LUMP_CLIPNODES)) = Inr m6"
     "Mod_LoadEntities m6 (Some base) (fst (lumps ! LUMP_ENTITIES)) (snd (lumps ! LUMP_ENTITIES)) = Inr m7"
     "Mod_LoadSubmodels m7 (Some base) (fst (lumps ! LUMP_MODELS)) (snd (lumps ! LUMP_MODELS)) = Inr m8"
     "Mod_MakeHull0 m8 = Inr m9"
     "m' = (case m_submodels m9 of [] \<Rightarrow> m9
           | sub # _ \<Rightarrow> m9\<lparr>m_mins := dm_mins sub, m_maxs := dm_maxs sub\<rparr>)"
    by auto
  show ?thesis
    apply (rule exI[of _ lumps], rule exI[of _ m1], rule exI[of _ m2], rule exI[of _ m3])
    apply (rule exI[of _ m4], rule exI[of _ m5], rule exI[of _ m6], rule exI[of _ m7])
    apply (rule exI[of _ m8], rule exI[of _ m9])
    apply (intro conjI)
    apply (fact st)+
    done
qed


lemma model_ok_cong:
  assumes "m_nodes m' = m_nodes m" "m_numnodes m' = m_numnodes m"
    "m_leafs m' = m_leafs m" "m_planes m' = m_planes m"
  shows "model_ok m' = model_ok m"
  unfolding model_ok_def node_ok_def child_ok_def assms by (rule refl)

lemma hull0_matches_cong:
  assumes "m_nodes m' = m_nodes m" "m_leafs m' = m_leafs m"
  shows "hull0_matches m' cs = hull0_matches m cs"
  unfolding hull0_matches_def hull0_slot_def assms by (rule refl)

text \<open>
  What a completed Mod\_LoadBrushModel leaves: the model after the node stage, \<open>m5\<close>,
  with clipnodes, hulls, entities, submodels and bounds set, and hull 0 synthesized from it.
\<close>

lemma Mod_LoadBrushModel_result:
  assumes "Mod_LoadBrushModel stack m buffer (Some base) = Inr m'"
  shows "\<exists>lumps view vis leafs m5 hull0 rest cs.
     mapE (read_lump buffer) [0..<HEADER_LUMPS] = Inr lumps \<and>
     new_DataView base (fst (lumps ! LUMP_LEAFS)) (snd (lumps ! LUMP_LEAFS)) = Inr view \<and>
     (vis = None \<longleftrightarrow> snd (lumps ! LUMP_VISIBILITY) = 0) \<and>
     mapE (load_leaf view base (fst (lumps ! LUMP_LEAFS)) vis)
       [0..<nat (snd (lumps ! LUMP_LEAFS) div 28)] = Inr leafs \<and>
     length leafs = nat (snd (lumps ! LUMP_LEAFS) div 28) \<and>
     model_ok m5 \<and>
     map lf_compressed_vis (m_leafs m5) = map lf_compressed_vis leafs \<and>
     length (m_leafs m5) = length leafs \<and>
     m_nodes m' = m_nodes m5 \<and> m_leafs m' = m_leafs m5 \<and> m_planes m' = m_planes m5 \<and>
     m_numnodes m' = m_numnodes m5 \<and> m_visdata m' = vis \<and>
     m_hulls m' = (hull0\<lparr>h_planes := ModelPlanes, h_firstclipnode := 0,
                     h_lastclipnode := m_numnodes m5 - 1, h_clipnodes := OwnClipnodes cs\<rparr>) # rest \<and>
     hull0_matches m5 cs"
proof -
  from Mod_LoadBrushModel_stages[OF assms] obtain lumps m1 m2 m3 m4 m5 m6 m7 m8 m9 where
     lumps: "mapE (read_lump buffer) [0..<HEADER_LUMPS] = Inr lumps"
     and s1: "Mod_LoadPlanes (m\<lparr>m_type := mod_brush\<rparr>) (Some base) (fst (lumps ! LUMP_PLANES)) (snd (lumps ! LUMP_PLANES)) = Inr m1"
     and s2: "Mod_LoadVertexes m1 (Some base) (fst (lumps ! LUMP_VERTEXES)) (snd (lumps ! LUMP_VERTEXES)) = Inr m2"
     and s3: "Mod_LoadVisibility m2 (Some base) (fst (lumps ! LUMP_VISIBILITY)) (snd (lumps ! LUMP_VISIBILITY)) = Inr m3"
     and s4: "Mod_LoadLeafs m3 (Some base) (fst (lumps ! LUMP_LEAFS)) (snd (lumps ! LUMP_LEAFS)) = Inr m4"
     and s5: "Mod_LoadNodes stack m4 (Some base) (fst (lumps ! LUMP_NODES)) (snd (lumps ! LUMP_NODES)) = Inr m5"
     and s6: "Mod_LoadClipnodes m5 (Some base) (fst (lumps ! LUMP_CLIPNODES)) (snd (lumps ! LUMP_CLIPNODES)) = Inr m6"
     and s7: "Mod_LoadEntities m6 (Some base) (fst (lumps ! LUMP_ENTITIES)) (snd (lumps ! LUMP_ENTITIES)) = Inr m7"
     and s8: "Mod_LoadSubmodels m7 (Some base) (fst (lumps ! LUMP_MODELS)) (snd (lumps ! LUMP_MODELS)) = Inr m8"
     and s9: "Mod_MakeHull0 m8 = Inr m9"
     and fin: "m' = (case m_submodels m9 of [] \<Rightarrow> m9
           | sub # _ \<Rightarrow> m9\<lparr>m_mins := dm_mins sub, m_maxs := dm_maxs sub\<rparr>)"
    by blast
  from Mod_LoadVisibility_Inr[OF s3] obtain vis where
    m3: "m3 = m2\<lparr>m_visdata := vis\<rparr>" and vis: "vis = None \<longleftrightarrow> snd (lumps ! LUMP_VISIBILITY) = 0"
    by blast
  from Mod_LoadLeafs_Inr[OF s4] obtain view leafs where
    view: "new_DataView base (fst (lumps ! LUMP_LEAFS)) (snd (lumps ! LUMP_LEAFS)) = Inr view"
    and m4: "m4 = m3\<lparr>m_leafs := leafs, m_numleafs := snd (lumps ! LUMP_LEAFS) div 28\<rparr>"
    and len: "length leafs = nat (snd (lumps ! LUMP_LEAFS) div 28)"
    and ld: "mapE (load_leaf view base (fst (lumps ! LUMP_LEAFS)) (m_visdata m3))
               [0..<nat (snd (lumps ! LUMP_LEAFS) div 28)] = Inr leafs"
    by blast
  from Mod_LoadNodes_Inr[OF s5] have m5: "model_ok m5" "m_visdata m5 = m_visdata m4"
    "length (m_leafs m5) = length (m_leafs m4)"
    "map lf_compressed_vis (m_leafs m5) = map lf_compressed_vis (m_leafs m4)"
    by simp_all
  from Mod_LoadClipnodes_Inr[OF s6] obtain clipnodes hull0 rest where
    m6: "m6 = m5\<lparr>m_clipnodes := clipnodes, m_numclipnodes := snd (lumps ! LUMP_CLIPNODES) div 8,
            m_hulls := hull0 # rest\<rparr>" by blast
  from Mod_LoadEntities_Inr[OF s7] obtain es where m7: "m7 = m6\<lparr>m_entities := es\<rparr>" by blast
  from Mod_LoadSubmodels_Inr[OF s8] obtain subs where
    m8: "m8 = m7\<lparr>m_submodels := subs, m_numsubmodels := snd (lumps ! LUMP_MODELS) div 64\<rparr>" by blast
  have f8: "m_nodes m8 = m_nodes m5" "m_numnodes m8 = m_numnodes m5" "m_leafs m8 = m_leafs m5"
    "m_planes m8 = m_planes m5" "m_hulls m8 = hull0 # rest" "m_visdata m8 = m_visdata m5"
    by (simp_all add: m8 m7 m6)
  have ok8: "model_ok m8" using m5(1) model_ok_cong[OF f8(1,2,3,4)] by simp
  from Mod_MakeHull0_ok[OF ok8 f8(5)] s9 obtain cs where
    m9: "m9 = m8\<lparr>m_hulls := (hull0\<lparr>h_planes := ModelPlanes, h_firstclipnode := 0,
                       h_lastclipnode := m_numnodes m8 - 1, h_clipnodes := OwnClipnodes cs\<rparr>) # rest\<rparr>"
    and hm: "hull0_matches m8 cs" by auto
  have f': "m_nodes m' = m_nodes m5" "m_leafs m' = m_leafs m5" "m_planes m' = m_planes m5"
    "m_numnodes m' = m_numnodes m5" "m_visdata m' = vis"
    "m_hulls m' = (hull0\<lparr>h_planes := ModelPlanes, h_firstclipnode := 0,
                     h_lastclipnode := m_numnodes m5 - 1, h_clipnodes := OwnClipnodes cs\<rparr>) # rest"
    by (simp_all add: fin m9 f8 m5(2) m4 m3 split: list.split)
  have hm5: "hull0_matches m5 cs" using hm hull0_matches_cong[OF f8(1,3)] by simp
  have ld': "mapE (load_leaf view base (fst (lumps ! LUMP_LEAFS)) vis)
       [0..<nat (snd (lumps ! LUMP_LEAFS) div 28)] = Inr leafs"
    using ld by (simp add: m3)
  have l5: "map lf_compressed_vis (m_leafs m5) = map lf_compressed_vis leafs"
    "length (m_leafs m5) = length leafs"
    using m5(3,4) by (simp_all add: m4)
  show ?thesis
    apply (rule exI[of _ lumps], rule exI[of _ view], rule exI[of _ vis], rule exI[of _ leafs])
    apply (rule exI[of _ m5], rule exI[of _ hull0], rule exI[of _ rest], rule exI[of _ cs])
    using lumps view vis ld' len m5(1) l5 f' hm5 by simp
qed

subsection \<open>The model cache\<close>

lemma Mod_MakeHull0_name: "Mod_MakeHull0 m = Inr m' \<Longrightarrow> m_name m' = m_name m"
  by (auto simp: Mod_MakeHull0_def Let_def bindE_eq_Inr split: list.splits)

lemma Mod_LoadBrushModel_name:
  assumes "Mod_LoadBrushModel stack m buffer (Some base) = Inr m'"
  shows "m_name m' = m_name m"
proof -
  from Mod_LoadBrushModel_stages[OF assms] obtain lumps m1 m2 m3 m4 m5 m6 m7 m8 m9 where
     s1: "Mod_LoadPlanes (m\<lparr>m_type := mod_brush\<rparr>) (Some base) (fst (lumps ! LUMP_PLANES)) (snd (lumps ! LUMP_PLANES)) = Inr m1"
     and s2: "Mod_LoadVertexes m1 (Some base) (fst (lumps ! LUMP_VERTEXES)) (snd (lumps ! LUMP_VERTEXES)) = Inr m2"
     and s3: "Mod_LoadVisibility m2 (Some base) (fst (lumps ! LUMP_VISIBILITY)) (snd (lumps ! LUMP_VISIBILITY)) = Inr m3"
     and s4: "Mod_LoadLeafs m3 (Some base) (fst (lumps ! LUMP_LEAFS)) (snd (lumps ! LUMP_LEAFS)) = Inr m4"
     and s5: "Mod_LoadNodes stack m4 (Some base) (fst (lumps ! LUMP_NODES)) (snd (lumps ! LUMP_NODES)) = Inr m5"
     and s6: "Mod_LoadClipnodes m5 (Some base) (fst (lumps ! LUMP_CLIPNODES)) (snd (lumps ! LUMP_CLIPNODES)) = Inr m6"
     and s7: "Mod_LoadEntities m6 (Some base) (fst (lumps ! LUMP_ENTITIES)) (snd (lumps ! LUMP_ENTITIES)) = Inr m7"
     and s8: "Mod_LoadSubmodels m7 (Some base) (fst (lumps ! LUMP_MODELS)) (snd (lumps ! LUMP_MODELS)) = Inr m8"
     and s9: "Mod_MakeHull0 m8 = Inr m9"
     and fin: "m' = (case m_submodels m9 of [] \<Rightarrow> m9
           | sub # _ \<Rightarrow> m9\<lparr>m_mins := dm_mins sub, m_maxs := dm_maxs sub\<rparr>)"
    by blast
  from Mod_LoadPlanes_Inr[OF s1] have "m_name m1 = m_name m" by auto
  moreover from Mod_LoadVertexes_Inr[OF s2] have "m_name m2 = m_name m1" by auto
  moreover from Mod_LoadVisibility_Inr[OF s3] have "m_name m3 = m_name m2" by auto
  moreover from Mod_LoadLeafs_Inr[OF s4] have "m_name m4 = m_name m3" by auto
  moreover from Mod_LoadNodes_Inr[OF s5] have "m_name m5 = m_name m4" by simp
  moreover from Mod_LoadClipnodes_Inr[OF s6] have "m_name m6 = m_name m5" by auto
  moreover from Mod_LoadEntities_Inr[OF s7] have "m_name m7 = m_name m6" by auto
  moreover from Mod_LoadSubmodels_Inr[OF s8] have "m_name m8 = m_name m7" by auto
  moreover from Mod_MakeHull0_name[OF s9] have "m_name m9 = m_name m8" .
  moreover from fin have "m_name m' = m_name m9" by (simp split: list.split)
  ultimately show ?thesis by simp
qed

lemma find_known_names:
  "map m_name k1 = map m_name k2 \<Longrightarrow> find_known k1 name xs = find_known k2 name xs"
proof (induction xs)
  case Nil
  then show ?case by simp
next
  case (Cons i xs)
  from Cons.prems have l: "length k1 = length k2" by (rule map_eq_imp_length_eq)
  have "i < length k2 \<Longrightarrow> m_name (k1 ! i) = m_name (k2 ! i)"
    using map_eq_nth[OF Cons.prems] by simp
  with Cons l show ?case by simp
qed

lemma find_known_append:
  "find_known k name (xs @ ys) =
     (case find_known k name xs of
        Inl e \<Rightarrow> Inl e
      | Inr (Some i) \<Rightarrow> Inr (Some i)
      | Inr None \<Rightarrow> find_known k name ys)"
  by (induction xs) simp_all

lemma find_known_None:
  "find_known k name xs = Inr None \<Longrightarrow> i \<in> set xs \<Longrightarrow> i < length k \<and> m_name (k ! i) \<noteq> name"
  by (induction xs) (auto split: if_splits)

lemma find_known_Some:
  "find_known k name xs = Inr (Some i) \<Longrightarrow> i \<in> set xs \<and> i < length k \<and> m_name (k ! i) = name"
  by (induction xs) (auto split: if_splits)

lemma find_known_update:
  "n \<notin> set xs \<Longrightarrow> find_known (k[n := x]) name xs = find_known k name xs"
  by (induction xs) auto

lemma Mod_FindName_again:
  assumes "Mod_FindName name s = Inr (slot, s0)"
  shows "Mod_FindName name s0 = Inr (slot, s0) \<and> slot < length (mod_known s0)
         \<and> m_name (mod_known s0 ! slot) = name"
proof -
  from assms have ne: "name \<noteq> []" by (auto simp: Mod_FindName_def split: if_splits)
  from assms ne obtain found where
    f: "find_known (mod_known s) name [0..<nat (mod_numknown s)] = Inr found"
    by (auto simp: Mod_FindName_def bindE_eq_Inr)
  show ?thesis
  proof (cases found)
    case (Some i)
    with assms ne f have e: "slot = i" "s0 = s" by (auto simp: Mod_FindName_def)
    from find_known_Some[OF f[unfolded Some]] e f Some ne show ?thesis
      by (simp add: Mod_FindName_def)
  next
    case None
    let ?n = "nat (mod_numknown s)"
    from assms ne f None have c: "\<not> mod_numknown s \<ge> MAX_MOD_KNOWN" "0 \<le> mod_numknown s"
      "?n < length (mod_known s)"
      and e: "slot = ?n"
        "s0 = s\<lparr>mod_known := (mod_known s)[?n := (mod_known s ! ?n)\<lparr>m_name := name\<rparr>],
                 mod_numknown := mod_numknown s + 1\<rparr>"
      by (auto simp: Mod_FindName_def split: if_splits)
    have n1: "nat (mod_numknown s + 1) = Suc ?n" using c(2) by simp
    have "find_known (mod_known s0) name [0..<nat (mod_numknown s0)] = Inr (Some ?n)"
      using f None c(3)
      by (simp add: e n1 find_known_append find_known_update)
    with e c ne show ?thesis by (simp add: Mod_FindName_def)
  qed
qed

lemma Mod_FindName_names:
  assumes "Mod_FindName name s = Inr (slot, s)"
    and "map m_name (mod_known s') = map m_name (mod_known s)"
    and "mod_numknown s' = mod_numknown s"
  shows "Mod_FindName name s' = Inr (slot, s')"
proof -
  from assms(1) have ne: "name \<noteq> []" by (auto simp: Mod_FindName_def split: if_splits)
  from assms(1) ne obtain found where
    f: "find_known (mod_known s) name [0..<nat (mod_numknown s)] = Inr found"
    by (auto simp: Mod_FindName_def bindE_eq_Inr)
  have l: "length (mod_known s') = length (mod_known s)"
    using assms(2) by (rule map_eq_imp_length_eq)
  show ?thesis
  proof (cases found)
    case (Some i)
    with assms(1) ne f have "slot = i" by (auto simp: Mod_FindName_def)
    with f Some ne find_known_names[OF assms(2), of name "[0..<nat (mod_numknown s)]"]
    show ?thesis by (simp add: Mod_FindName_def assms(3))
  next
    case None
    with assms(1) ne f have "s = s\<lparr>mod_known := (mod_known s)[nat (mod_numknown s) := (mod_known s ! nat (mod_numknown s))\<lparr>m_name := name\<rparr>],
                 mod_numknown := mod_numknown s + 1\<rparr>"
      by (auto simp: Mod_FindName_def split: if_splits)
    from arg_cong[OF this, of mod_numknown] have False by simp
    then show ?thesis ..
  qed
qed

lemma Mod_LoadModel_again:
  assumes "Mod_LoadModel e slot crash s0 = Inr (Some slot', s1)"
  shows "slot' = slot \<and> slot < length (mod_known s1) \<and> m_loaded (mod_known s1 ! slot)
         \<and> map m_name (mod_known s1) = map m_name (mod_known s0)
         \<and> mod_numknown s1 = mod_numknown s0"
proof -
  from assms have i: "slot < length (mod_known s0)"
    by (auto simp: Mod_LoadModel_def split: if_splits)
  show ?thesis
  proof (cases "m_loaded (mod_known s0 ! slot)")
    case True
    with assms i show ?thesis by (simp add: Mod_LoadModel_def)
  next
    case False
    let ?mdl = "mod_known s0 ! slot"
    from assms i False obtain buf where b: "com_files e (m_name ?mdl) = Some buf"
      by (auto simp: Mod_LoadModel_def Let_def split: option.splits if_splits)
    let ?s2 = "s0\<lparr>com_loaded := com_loaded s0 @ [m_name ?mdl], loadmodel := Some slot,
                   mod_base := Some buf\<rparr>"
    from assms i False b obtain magic mdl' where
      m: "(if magic = BSPVERSION then Mod_LoadBrushModel (stack_limit e) ?mdl buf (Some buf)
           else Inr (?mdl\<lparr>m_type := (if endsWith (m_name ?mdl) ''.spr''
                                                then mod_sprite else mod_alias)\<rparr>)) = Inr mdl'"
      and r: "slot' = slot" "s1 = ?s2\<lparr>mod_known := (mod_known ?s2)[slot := mdl'\<lparr>m_loaded := True\<rparr>]\<rparr>"
      by (auto simp: Mod_LoadModel_def Let_def bindE_eq_Inr cong: if_cong)
    have n: "m_name mdl' = m_name ?mdl"
    proof (cases "magic = BSPVERSION")
      case True
      with m show ?thesis by (simp add: Mod_LoadBrushModel_name)
    next
      case False
      with m show ?thesis by auto
    qed
    have "map m_name (mod_known s1) = map m_name (mod_known s0)"
      using i n by (simp add: r map_update list_update_same_conv)
    with r i show ?thesis by simp
  qed
qed

subsection \<open>The load of the example map\<close>

lemma upt_small: "[0..<1] = [0]" "[0..<2] = [0, 1]" "[0..<3] = [0, 1, 2]" "[0..<4] = [0, 1, 2, 3]"
  by code_simp+

lemma upt_15: "[0..<15] = [0, 1, 2, 3, 4, 5, 6, 7, 8, 9, 10, 11, 12, 13, 14]"
  by code_simp

lemmas ev = example_bsp_def getInt32_def getInt16_def getUint16_def getFloat32_def view_bytes_def
  new_DataView_def Let_def

lemma ex_len: "length example_bsp = 278"
  by (simp add: example_bsp_def)

lemma ex_version: "getInt32 example_bsp 0 = Inr 29"
  by (simp add: ev)

lemma ex_lumps: "mapE (read_lump example_bsp) [0..<HEADER_LUMPS] =
    Inr [(0, 0), (124, 20), (0, 0), (0, 0), (144, 2), (230, 48), (0, 0),
      (0, 0), (0, 0), (0, 0), (146, 84), (0, 0), (0, 0), (0, 0), (0, 0)]"
  by (simp add: ev HEADER_LUMPS_def read_lump_def upt_15)

lemma ex_vis: "Mod_LoadVisibility m (Some example_bsp) 144 2 = Inr (m\<lparr>m_visdata := Some [255, 1]\<rparr>)"
  by (simp add: Mod_LoadVisibility_def subarray_def clamp_index_def example_bsp_def)

lemma ex_leafs: "mapE (load_leaf (take 84 (drop 146 example_bsp)) example_bsp 146 (Some [255, 1])) [0..<3] =
   Inr [new_mleaf_t\<lparr>lf_contents := -2\<rparr>,
        new_mleaf_t\<lparr>lf_contents := -1, lf_compressed_vis := Some [255, 1]\<rparr>,
        new_mleaf_t\<lparr>lf_contents := -3\<rparr>]"
  by (simp add: ev load_leaf_def upt_small subarray_from_def clamp_index_def u8_at_def new_mleaf_t_def)

lemma ex_nodes: "mapE (load_node (take 48 (drop 230 example_bsp)) 1 2 3) [0..<2] =
   Inr [new_mnode_t\<lparr>n_plane := Some 0, n_children := [NodeChild 1, LeafChild 0]\<rparr>,
        new_mnode_t\<lparr>n_plane := Some 0, n_children := [LeafChild 1, NoChild]\<rparr>]"
  by (simp add: ev load_node_def load_child_def upt_small new_mnode_t_def)


lemma ex_Planes: "Mod_LoadPlanes m (Some example_bsp) 124 20 =
   Inr (m\<lparr>m_planes := [\<lparr>pl_normal = [0x3F800000, 0, 0], pl_dist = 0, pl_type = 0, pl_signbits = 0\<rparr>],
          m_numplanes := 1\<rparr>)"
  by (simp add: ev Mod_LoadPlanes_def load_plane_def plane_signbits_def float32_negative_def upt_small)

lemma ex_Vertexes: "Mod_LoadVertexes m (Some example_bsp) 0 0 =
   Inr (m\<lparr>m_numvertexes := 0, m_vertexes := Some []\<rparr>)"
  by (simp add: Mod_LoadVertexes_def new_DataView_def)

lemma ex_Leafs:
  assumes "m_visdata m = Some [255, 1]"
  shows "Mod_LoadLeafs m (Some example_bsp) 146 84 =
   Inr (m\<lparr>m_leafs := [new_mleaf_t\<lparr>lf_contents := -2\<rparr>,
        new_mleaf_t\<lparr>lf_contents := -1, lf_compressed_vis := Some [255, 1]\<rparr>,
        new_mleaf_t\<lparr>lf_contents := -3\<rparr>], m_numleafs := 3\<rparr>)"
proof -
  have "new_DataView example_bsp 146 84 = Inr (take 84 (drop 146 example_bsp))"
    by (simp add: new_DataView_def ex_len)
  then show ?thesis
    by (simp add: Mod_LoadLeafs_def assms ex_leafs)
qed

lemma Mod_SetParent_numeral:
  "Mod_SetParent (numeral k) NoChild parent m = Inr m"
  "Mod_SetParent (numeral k) (LeafChild i) parent m =
     (if i < length (m_leafs m) then
        (if lf_contents (m_leafs m ! i) < 0
         then Inr (m\<lparr>m_leafs := (m_leafs m)[i := (m_leafs m ! i)\<lparr>lf_parent := parent\<rparr>]\<rparr>)
         else Inl TypeError)
      else Inl TypeError)"
  "Mod_SetParent (numeral k) (NodeChild i) parent m =
     (if i < length (m_nodes m) then
        (let mod1 = m\<lparr>m_nodes := (m_nodes m)[i := (m_nodes m ! i)\<lparr>n_parent := parent\<rparr>]\<rparr>
         in if n_contents (m_nodes mod1 ! i) < 0 then Inr mod1
            else
              (case Mod_SetParent (pred_numeral k) (n_children (m_nodes mod1 ! i) ! 0) (Some i) mod1 of
                 Inl e \<Rightarrow> Inl e
               | Inr mod2 \<Rightarrow>
                   Mod_SetParent (pred_numeral k) (n_children (m_nodes mod2 ! i) ! 1) (Some i) mod2))
      else Inl TypeError)"
  by (simp_all only: numeral_eq_Suc Mod_SetParent.simps)

lemma ex_SetParent:
  assumes "m_nodes m = [new_mnode_t\<lparr>n_plane := Some 0, n_children := [NodeChild 1, LeafChild 0]\<rparr>,
        new_mnode_t\<lparr>n_plane := Some 0, n_children := [LeafChild 1, NoChild]\<rparr>]"
    and "m_leafs m = [new_mleaf_t\<lparr>lf_contents := -2\<rparr>,
        new_mleaf_t\<lparr>lf_contents := -1, lf_compressed_vis := Some [255, 1]\<rparr>,
        new_mleaf_t\<lparr>lf_contents := -3\<rparr>]"
  shows "Mod_SetParent 10 (NodeChild 0) None m =
     Inr (m\<lparr>m_nodes := [new_mnode_t\<lparr>n_plane := Some 0, n_children := [NodeChild 1, LeafChild 0]\<rparr>,
        new_mnode_t\<lparr>n_plane := Some 0, n_children := [LeafChild 1, NoChild], n_parent := Some 0\<rparr>],
           m_leafs := [new_mleaf_t\<lparr>lf_contents := -2, lf_parent := Some 0\<rparr>,
        new_mleaf_t\<lparr>lf_contents := -1, lf_compressed_vis := Some [255, 1], lf_parent := Some 1\<rparr>,
        new_mleaf_t\<lparr>lf_contents := -3\<rparr>]\<rparr>)"
  by (simp add: Mod_SetParent_numeral assms Let_def new_mnode_t_def new_mleaf_t_def)


lemma ex_Nodes:
  assumes "length (m_planes m) = 1"
    and "m_leafs m = [new_mleaf_t\<lparr>lf_contents := -2\<rparr>,
        new_mleaf_t\<lparr>lf_contents := -1, lf_compressed_vis := Some [255, 1]\<rparr>,
        new_mleaf_t\<lparr>lf_contents := -3\<rparr>]"
  shows "Mod_LoadNodes 10 m (Some example_bsp) 230 48 =
     Inr (m\<lparr>m_nodes := [new_mnode_t\<lparr>n_plane := Some 0, n_children := [NodeChild 1, LeafChild 0]\<rparr>,
        new_mnode_t\<lparr>n_plane := Some 0, n_children := [LeafChild 1, NoChild], n_parent := Some 0\<rparr>],
           m_numnodes := 2,
           m_leafs := [new_mleaf_t\<lparr>lf_contents := -2, lf_parent := Some 0\<rparr>,
        new_mleaf_t\<lparr>lf_contents := -1, lf_compressed_vis := Some [255, 1], lf_parent := Some 1\<rparr>,
        new_mleaf_t\<lparr>lf_contents := -3\<rparr>]\<rparr>)"
proof -
  have v: "new_DataView example_bsp 230 48 = Inr (take 48 (drop 230 example_bsp))"
    by (simp add: new_DataView_def ex_len)
  have l: "length (m_leafs m) = 3" by (simp add: assms(2))
  have c: "nat (48 div 24) = 2" by simp
  have n: "mapE (load_node (take 48 (drop 230 example_bsp)) (length (m_planes m)) (nat (48 div 24))
             (length (m_leafs m))) [0..<nat (48 div 24)]
       = Inr [new_mnode_t\<lparr>n_plane := Some 0, n_children := [NodeChild 1, LeafChild 0]\<rparr>,
        new_mnode_t\<lparr>n_plane := Some 0, n_children := [LeafChild 1, NoChild]\<rparr>]"
    unfolding l c assms(1) by (rule ex_nodes)
  have sp: "Mod_SetParent 10 (NodeChild 0) None
       (m\<lparr>m_nodes := [new_mnode_t\<lparr>n_plane := Some 0, n_children := [NodeChild 1, LeafChild 0]\<rparr>,
        new_mnode_t\<lparr>n_plane := Some 0, n_children := [LeafChild 1, NoChild]\<rparr>],
          m_numnodes := 48 div 24\<rparr>) =
     Inr (m\<lparr>m_nodes := [new_mnode_t\<lparr>n_plane := Some 0, n_children := [NodeChild 1, LeafChild 0]\<rparr>,
        new_mnode_t\<lparr>n_plane := Some 0, n_children := [LeafChild 1, NoChild]\<rparr>],
          m_numnodes := 48 div 24\<rparr>
          \<lparr>m_nodes := [new_mnode_t\<lparr>n_plane := Some 0, n_children := [NodeChild 1, LeafChild 0]\<rparr>,
        new_mnode_t\<lparr>n_plane := Some 0, n_children := [LeafChild 1, NoChild], n_parent := Some 0\<rparr>],
           m_leafs := [new_mleaf_t\<lparr>lf_contents := -2, lf_parent := Some 0\<rparr>,
        new_mleaf_t\<lparr>lf_contents := -1, lf_compressed_vis := Some [255, 1], lf_parent := Some 1\<rparr>,
        new_mleaf_t\<lparr>lf_contents := -3\<rparr>]\<rparr>)"
    by (rule ex_SetParent) (simp_all add: assms)
  show ?thesis
    apply (simp only: Mod_LoadNodes_def Let_def option.case v bindE_Inr n)
    apply (simp only: list.simps if_False sp)
    apply simp
    done
qed

lemma ex_Clipnodes: "Mod_LoadClipnodes m (Some example_bsp) 0 0 =
   Inr (m\<lparr>m_clipnodes := [], m_numclipnodes := 0,
          m_hulls := [new_hull_t,
                   new_hull_t\<lparr>h_clipnodes := ModelClipnodes, h_planes := ModelPlanes,
                     h_clip_mins := [-16, -16, -24], h_clip_maxs := [16, 16, 32]\<rparr>,
                   new_hull_t\<lparr>h_clipnodes := ModelClipnodes, h_planes := ModelPlanes,
                     h_clip_mins := [-32, -32, -24], h_clip_maxs := [32, 32, 64]\<rparr>,
                   new_hull_t]\<rparr>)"
  by (simp add: Mod_LoadClipnodes_def new_DataView_def Let_def)

lemma ex_Entities: "Mod_LoadEntities m (Some example_bsp) 0 0 = Inr (m\<lparr>m_entities := []\<rparr>)"
  by (simp add: Mod_LoadEntities_def)

lemma ex_Submodels: "Mod_LoadSubmodels m (Some example_bsp) 0 0 =
   Inr (m\<lparr>m_submodels := [], m_numsubmodels := 0\<rparr>)"
  by (simp add: Mod_LoadSubmodels_def new_DataView_def)

lemma ex_MakeHull0:
  assumes "m_nodes m = [new_mnode_t\<lparr>n_plane := Some 0, n_children := [NodeChild 1, LeafChild 0]\<rparr>,
        new_mnode_t\<lparr>n_plane := Some 0, n_children := [LeafChild 1, NoChild], n_parent := Some 0\<rparr>]"
    and "m_leafs m = [new_mleaf_t\<lparr>lf_contents := -2, lf_parent := Some 0\<rparr>,
        new_mleaf_t\<lparr>lf_contents := -1, lf_compressed_vis := Some [255, 1], lf_parent := Some 1\<rparr>,
        new_mleaf_t\<lparr>lf_contents := -3\<rparr>]"
    and "m_numnodes m = 2" and "length (m_planes m) = 1" and "m_hulls m = h # rest"
  shows "Mod_MakeHull0 m =
     Inr (m\<lparr>m_hulls := (h\<lparr>h_planes := ModelPlanes, h_firstclipnode := 0, h_lastclipnode := 1,
                     h_clipnodes := OwnClipnodes [\<lparr>cn_planenum = 0, cn_children = [1, -2]\<rparr>,
                                                  \<lparr>cn_planenum = 0, cn_children = [-1, -2]\<rparr>]\<rparr>) # rest\<rparr>)"
  by (simp add: Mod_MakeHull0_def hull0_clipnode_def hull0_child_def assms upt_small Let_def
      new_mnode_t_def new_mleaf_t_def CONTENTS_SOLID_def)

lemma example_load:
  "Mod_LoadBrushModel 10 (new_model_t\<lparr>m_name := name\<rparr>) example_bsp (Some example_bsp)
     = Inr (example_model\<lparr>m_name := name\<rparr>)"
  unfolding Mod_LoadBrushModel_def Let_def
  apply (simp add: ex_version ex_lumps BSPVERSION_def LUMP_PLANES_def LUMP_VERTEXES_def
      LUMP_VISIBILITY_def LUMP_LEAFS_def LUMP_NODES_def LUMP_CLIPNODES_def LUMP_ENTITIES_def
      LUMP_MODELS_def ex_Planes ex_Vertexes ex_vis ex_Leafs ex_Nodes ex_Clipnodes ex_Entities
      ex_Submodels ex_MakeHull0)
  apply (simp add: example_model_def new_model_t_def mod_brush_def)
  done

text \<open>The load of the example map without visibility data.\<close>

lemmas ev0 = example_bsp0_def getInt32_def getInt16_def getUint16_def getFloat32_def view_bytes_def
  new_DataView_def Let_def

lemma ex0_len: "length example_bsp0 = 278"
  by (simp add: example_bsp0_def)

lemma ex0_version: "getInt32 example_bsp0 0 = Inr 29"
  by (simp add: ev0)

lemma ex0_lumps: "mapE (read_lump example_bsp0) [0..<HEADER_LUMPS] =
    Inr [(0, 0), (124, 20), (0, 0), (0, 0), (144, 0), (230, 48), (0, 0),
      (0, 0), (0, 0), (0, 0), (146, 84), (0, 0), (0, 0), (0, 0), (0, 0)]"
  by (simp add: ev0 HEADER_LUMPS_def read_lump_def upt_15)

lemma ex0_vis: "Mod_LoadVisibility m (Some example_bsp0) 144 0 = Inr (m\<lparr>m_visdata := None\<rparr>)"
  by (simp add: Mod_LoadVisibility_def subarray_def clamp_index_def example_bsp0_def)

lemma ex0_leafs: "mapE (load_leaf (take 84 (drop 146 example_bsp0)) example_bsp0 146 None) [0..<3] =
   Inr [new_mleaf_t\<lparr>lf_contents := -2\<rparr>,
        new_mleaf_t\<lparr>lf_contents := -1\<rparr>,
        new_mleaf_t\<lparr>lf_contents := -3\<rparr>]"
  by (simp add: ev0 load_leaf_def upt_small subarray_from_def clamp_index_def u8_at_def new_mleaf_t_def)

lemma ex0_nodes: "mapE (load_node (take 48 (drop 230 example_bsp0)) 1 2 3) [0..<2] =
   Inr [new_mnode_t\<lparr>n_plane := Some 0, n_children := [NodeChild 1, LeafChild 0]\<rparr>,
        new_mnode_t\<lparr>n_plane := Some 0, n_children := [LeafChild 1, NoChild]\<rparr>]"
  by (simp add: ev0 load_node_def load_child_def upt_small new_mnode_t_def)


lemma ex0_Planes: "Mod_LoadPlanes m (Some example_bsp0) 124 20 =
   Inr (m\<lparr>m_planes := [\<lparr>pl_normal = [0x3F800000, 0, 0], pl_dist = 0, pl_type = 0, pl_signbits = 0\<rparr>],
          m_numplanes := 1\<rparr>)"
  by (simp add: ev0 Mod_LoadPlanes_def load_plane_def plane_signbits_def float32_negative_def upt_small)

lemma ex0_Vertexes: "Mod_LoadVertexes m (Some example_bsp0) 0 0 =
   Inr (m\<lparr>m_numvertexes := 0, m_vertexes := Some []\<rparr>)"
  by (simp add: Mod_LoadVertexes_def new_DataView_def)

lemma ex0_Leafs:
  assumes "m_visdata m = None"
  shows "Mod_LoadLeafs m (Some example_bsp0) 146 84 =
   Inr (m\<lparr>m_leafs := [new_mleaf_t\<lparr>lf_contents := -2\<rparr>,
        new_mleaf_t\<lparr>lf_contents := -1\<rparr>,
        new_mleaf_t\<lparr>lf_contents := -3\<rparr>], m_numleafs := 3\<rparr>)"
proof -
  have "new_DataView example_bsp0 146 84 = Inr (take 84 (drop 146 example_bsp0))"
    by (simp add: new_DataView_def ex0_len)
  then show ?thesis
    by (simp add: Mod_LoadLeafs_def assms ex0_leafs)
qed

lemma ex0_SetParent:
  assumes "m_nodes m = [new_mnode_t\<lparr>n_plane := Some 0, n_children := [NodeChild 1, LeafChild 0]\<rparr>,
        new_mnode_t\<lparr>n_plane := Some 0, n_children := [LeafChild 1, NoChild]\<rparr>]"
    and "m_leafs m = [new_mleaf_t\<lparr>lf_contents := -2\<rparr>,
        new_mleaf_t\<lparr>lf_contents := -1\<rparr>,
        new_mleaf_t\<lparr>lf_contents := -3\<rparr>]"
  shows "Mod_SetParent 10 (NodeChild 0) None m =
     Inr (m\<lparr>m_nodes := [new_mnode_t\<lparr>n_plane := Some 0, n_children := [NodeChild 1, LeafChild 0]\<rparr>,
        new_mnode_t\<lparr>n_plane := Some 0, n_children := [LeafChild 1, NoChild], n_parent := Some 0\<rparr>],
           m_leafs := [new_mleaf_t\<lparr>lf_contents := -2, lf_parent := Some 0\<rparr>,
        new_mleaf_t\<lparr>lf_contents := -1, lf_parent := Some 1\<rparr>,
        new_mleaf_t\<lparr>lf_contents := -3\<rparr>]\<rparr>)"
  by (simp add: Mod_SetParent_numeral assms Let_def new_mnode_t_def new_mleaf_t_def)


lemma ex0_Nodes:
  assumes "length (m_planes m) = 1"
    and "m_leafs m = [new_mleaf_t\<lparr>lf_contents := -2\<rparr>,
        new_mleaf_t\<lparr>lf_contents := -1\<rparr>,
        new_mleaf_t\<lparr>lf_contents := -3\<rparr>]"
  shows "Mod_LoadNodes 10 m (Some example_bsp0) 230 48 =
     Inr (m\<lparr>m_nodes := [new_mnode_t\<lparr>n_plane := Some 0, n_children := [NodeChild 1, LeafChild 0]\<rparr>,
        new_mnode_t\<lparr>n_plane := Some 0, n_children := [LeafChild 1, NoChild], n_parent := Some 0\<rparr>],
           m_numnodes := 2,
           m_leafs := [new_mleaf_t\<lparr>lf_contents := -2, lf_parent := Some 0\<rparr>,
        new_mleaf_t\<lparr>lf_contents := -1, lf_parent := Some 1\<rparr>,
        new_mleaf_t\<lparr>lf_contents := -3\<rparr>]\<rparr>)"
proof -
  have v: "new_DataView example_bsp0 230 48 = Inr (take 48 (drop 230 example_bsp0))"
    by (simp add: new_DataView_def ex0_len)
  have l: "length (m_leafs m) = 3" by (simp add: assms(2))
  have c: "nat (48 div 24) = 2" by simp
  have n: "mapE (load_node (take 48 (drop 230 example_bsp0)) (length (m_planes m)) (nat (48 div 24))
             (length (m_leafs m))) [0..<nat (48 div 24)]
       = Inr [new_mnode_t\<lparr>n_plane := Some 0, n_children := [NodeChild 1, LeafChild 0]\<rparr>,
        new_mnode_t\<lparr>n_plane := Some 0, n_children := [LeafChild 1, NoChild]\<rparr>]"
    unfolding l c assms(1) by (rule ex0_nodes)
  have sp: "Mod_SetParent 10 (NodeChild 0) None
       (m\<lparr>m_nodes := [new_mnode_t\<lparr>n_plane := Some 0, n_children := [NodeChild 1, LeafChild 0]\<rparr>,
        new_mnode_t\<lparr>n_plane := Some 0, n_children := [LeafChild 1, NoChild]\<rparr>],
          m_numnodes := 48 div 24\<rparr>) =
     Inr (m\<lparr>m_nodes := [new_mnode_t\<lparr>n_plane := Some 0, n_children := [NodeChild 1, LeafChild 0]\<rparr>,
        new_mnode_t\<lparr>n_plane := Some 0, n_children := [LeafChild 1, NoChild]\<rparr>],
          m_numnodes := 48 div 24\<rparr>
          \<lparr>m_nodes := [new_mnode_t\<lparr>n_plane := Some 0, n_children := [NodeChild 1, LeafChild 0]\<rparr>,
        new_mnode_t\<lparr>n_plane := Some 0, n_children := [LeafChild 1, NoChild], n_parent := Some 0\<rparr>],
           m_leafs := [new_mleaf_t\<lparr>lf_contents := -2, lf_parent := Some 0\<rparr>,
        new_mleaf_t\<lparr>lf_contents := -1, lf_parent := Some 1\<rparr>,
        new_mleaf_t\<lparr>lf_contents := -3\<rparr>]\<rparr>)"
    by (rule ex0_SetParent) (simp_all add: assms)
  show ?thesis
    apply (simp only: Mod_LoadNodes_def Let_def option.case v bindE_Inr n)
    apply (simp only: list.simps if_False sp)
    apply simp
    done
qed

lemma ex0_Clipnodes: "Mod_LoadClipnodes m (Some example_bsp0) 0 0 =
   Inr (m\<lparr>m_clipnodes := [], m_numclipnodes := 0,
          m_hulls := [new_hull_t,
                   new_hull_t\<lparr>h_clipnodes := ModelClipnodes, h_planes := ModelPlanes,
                     h_clip_mins := [-16, -16, -24], h_clip_maxs := [16, 16, 32]\<rparr>,
                   new_hull_t\<lparr>h_clipnodes := ModelClipnodes, h_planes := ModelPlanes,
                     h_clip_mins := [-32, -32, -24], h_clip_maxs := [32, 32, 64]\<rparr>,
                   new_hull_t]\<rparr>)"
  by (simp add: Mod_LoadClipnodes_def new_DataView_def Let_def)

lemma ex0_Entities: "Mod_LoadEntities m (Some example_bsp0) 0 0 = Inr (m\<lparr>m_entities := []\<rparr>)"
  by (simp add: Mod_LoadEntities_def)

lemma ex0_Submodels: "Mod_LoadSubmodels m (Some example_bsp0) 0 0 =
   Inr (m\<lparr>m_submodels := [], m_numsubmodels := 0\<rparr>)"
  by (simp add: Mod_LoadSubmodels_def new_DataView_def)

lemma ex0_MakeHull0:
  assumes "m_nodes m = [new_mnode_t\<lparr>n_plane := Some 0, n_children := [NodeChild 1, LeafChild 0]\<rparr>,
        new_mnode_t\<lparr>n_plane := Some 0, n_children := [LeafChild 1, NoChild], n_parent := Some 0\<rparr>]"
    and "m_leafs m = [new_mleaf_t\<lparr>lf_contents := -2, lf_parent := Some 0\<rparr>,
        new_mleaf_t\<lparr>lf_contents := -1, lf_parent := Some 1\<rparr>,
        new_mleaf_t\<lparr>lf_contents := -3\<rparr>]"
    and "m_numnodes m = 2" and "length (m_planes m) = 1" and "m_hulls m = h # rest"
  shows "Mod_MakeHull0 m =
     Inr (m\<lparr>m_hulls := (h\<lparr>h_planes := ModelPlanes, h_firstclipnode := 0, h_lastclipnode := 1,
                     h_clipnodes := OwnClipnodes [\<lparr>cn_planenum = 0, cn_children = [1, -2]\<rparr>,
                                                  \<lparr>cn_planenum = 0, cn_children = [-1, -2]\<rparr>]\<rparr>) # rest\<rparr>)"
  by (simp add: Mod_MakeHull0_def hull0_clipnode_def hull0_child_def assms upt_small Let_def
      new_mnode_t_def new_mleaf_t_def CONTENTS_SOLID_def)

lemma example_load0:
  "Mod_LoadBrushModel 10 (new_model_t\<lparr>m_name := name\<rparr>) example_bsp0 (Some example_bsp0)
     = Inr (example_model0\<lparr>m_name := name\<rparr>)"
  unfolding Mod_LoadBrushModel_def Let_def
  apply (simp add: ex0_version ex0_lumps BSPVERSION_def LUMP_PLANES_def LUMP_VERTEXES_def
      LUMP_VISIBILITY_def LUMP_LEAFS_def LUMP_NODES_def LUMP_CLIPNODES_def LUMP_ENTITIES_def
      LUMP_MODELS_def ex0_Planes ex0_Vertexes ex0_vis ex0_Leafs ex0_Nodes ex0_Clipnodes ex0_Entities
      ex0_Submodels ex0_MakeHull0)
  apply (simp add: example_model0_def new_model_t_def mod_brush_def)
  done

lemma replicate_512: "replicate 512 x = x # replicate 511 x"
proof -
  have "(512::nat) = Suc 511" by simp
  then show ?thesis by (simp only: replicate_Suc)
qed

text \<open>
  Claim C1, as the code has it. For each of the six regions with fixed-size records
  (planes, vertexes, leafs, nodes, clipnodes, submodels) the number of records is the
  declared length divided by the record size, rounded down: a length that is not a multiple
  of the record size is accepted and the bytes after the last whole record are ignored.
  The loader raises (a \<^verbatim>\<open>RangeError\<close>) when the region does not lie within the buffer,
  that is, when its offset or length is negative or its end lies beyond the buffer's; for
  a region within the buffer, only the node loader can still raise, in Mod\_SetParent.
\<close>

theorem region_record_counts:
  "if 0 \<le> fileofs \<and> 0 \<le> filelen \<and> fileofs + filelen \<le> int (length base) then
     (\<exists>planes. Mod_LoadPlanes m (Some base) fileofs filelen
         = Inr (m\<lparr>m_planes := planes, m_numplanes := filelen div 20\<rparr>)
       \<and> length planes = nat (filelen div 20)) \<and>
     (\<exists>vs. Mod_LoadVertexes m (Some base) fileofs filelen
         = Inr (m\<lparr>m_numvertexes := filelen div 12, m_vertexes := Some vs\<rparr>)
       \<and> length vs = 3 * nat (filelen div 12)) \<and>
     (\<exists>leafs. Mod_LoadLeafs m (Some base) fileofs filelen
         = Inr (m\<lparr>m_leafs := leafs, m_numleafs := filelen div 28\<rparr>)
       \<and> length leafs = nat (filelen div 28)) \<and>
     (\<exists>nodes. Mod_LoadNodes stack m (Some base) fileofs filelen
         = Mod_SetParent stack (if nodes = [] then NoChild else NodeChild 0) None
             (m\<lparr>m_nodes := nodes, m_numnodes := filelen div 24\<rparr>)
       \<and> length nodes = nat (filelen div 24)) \<and>
     (\<exists>clipnodes m'. Mod_LoadClipnodes m (Some base) fileofs filelen = Inr m'
       \<and> m_clipnodes m' = clipnodes \<and> m_numclipnodes m' = filelen div 8
       \<and> length clipnodes = nat (filelen div 8)) \<and>
     (\<exists>submodels. Mod_LoadSubmodels m (Some base) fileofs filelen
         = Inr (m\<lparr>m_submodels := submodels, m_numsubmodels := filelen div 64\<rparr>)
       \<and> length submodels = nat (filelen div 64))
   else
     Mod_LoadPlanes m (Some base) fileofs filelen = Inl RangeError \<and>
     Mod_LoadVertexes m (Some base) fileofs filelen = Inl RangeError \<and>
     Mod_LoadLeafs m (Some base) fileofs filelen = Inl RangeError \<and>
     Mod_LoadNodes stack m (Some base) fileofs filelen = Inl RangeError \<and>
     Mod_LoadClipnodes m (Some base) fileofs filelen = Inl RangeError \<and>
     Mod_LoadSubmodels m (Some base) fileofs filelen = Inl RangeError"
proof (cases "0 \<le> fileofs \<and> 0 \<le> filelen \<and> fileofs + filelen \<le> int (length base)")
  case True
  then have v: "new_DataView base fileofs filelen = Inr (take (nat filelen) (drop (nat fileofs) base))"
    by (simp add: new_DataView_eq)
  have "\<exists>clipnodes m'. Mod_LoadClipnodes m (Some base) fileofs filelen = Inr m'
       \<and> m_clipnodes m' = clipnodes \<and> m_numclipnodes m' = filelen div 8
       \<and> length clipnodes = nat (filelen div 8)"
    using Mod_LoadClipnodes_result[OF v, of m] by auto
  moreover have "\<exists>leafs. Mod_LoadLeafs m (Some base) fileofs filelen
         = Inr (m\<lparr>m_leafs := leafs, m_numleafs := filelen div 28\<rparr>)
       \<and> length leafs = nat (filelen div 28)"
    using Mod_LoadLeafs_result[OF v, of m] by blast
  moreover have "\<exists>nodes. Mod_LoadNodes stack m (Some base) fileofs filelen
         = Mod_SetParent stack (if nodes = [] then NoChild else NodeChild 0) None
             (m\<lparr>m_nodes := nodes, m_numnodes := filelen div 24\<rparr>)
       \<and> length nodes = nat (filelen div 24)"
    using Mod_LoadNodes_result[OF v, of stack m] by blast
  ultimately show ?thesis
    using True Mod_LoadPlanes_result[OF v, of m] Mod_LoadVertexes_result[OF v, of m]
      Mod_LoadSubmodels_result[OF v, of m]
    by simp
next
  case False
  then have "fileofs < 0 \<or> filelen < 0 \<or> int (length base) < fileofs + filelen" by auto
  from loaders_outside[OF this] False show ?thesis by simp
qed

text \<open>
  The theorem on the plane region of 50 bytes at offset 2 of a buffer of 60 zero bytes:
  two planes are read, ten bytes are left over.
\<close>

theorem region_record_counts_witness:
  "\<exists>planes. Mod_LoadPlanes new_model_t (Some (replicate 60 0)) 2 50
       = Inr (new_model_t\<lparr>m_planes := planes, m_numplanes := 2\<rparr>)
     \<and> length planes = 2"
  using region_record_counts[of 2 50 "replicate 60 0" new_model_t 0]
  by simp

text \<open>
  Claim C1 as stated fails: a plane region of 21 bytes, which is not a multiple of 20,
  loads without an error, as one plane.
\<close>

theorem Mod_LoadPlanes_counterexample:
  "\<not> (20 dvd (21 :: int))
   \<and> isl (Mod_LoadPlanes new_model_t (Some (replicate 21 0)) 0 21) = False
   \<and> m_numplanes (projr (Mod_LoadPlanes new_model_t (Some (replicate 21 0)) 0 21)) = 1
   \<and> length (m_planes (projr (Mod_LoadPlanes new_model_t (Some (replicate 21 0)) 0 21))) = 1"
proof -
  have "new_DataView (replicate 21 0) 0 21 = Inr (replicate 21 0)"
    by (simp add: new_DataView_def)
  from Mod_LoadPlanes_result[OF this, of new_model_t] show ?thesis by auto
qed

text \<open>
  Claim C3, as the code has it. The loader applies no limit to the number of leafs or of
  planes (MAX\_MAP\_LEAFS is declared and never used; no maximum for planes is declared):
  for a region that lies within the buffer, Mod\_LoadLeafs populates the leaf table with
  all \<open>filelen div 28\<close> leafs and Mod\_LoadPlanes the plane table with all
  \<open>filelen div 20\<close> planes, also when the count is above the maximum, and neither raises.
\<close>

theorem Mod_LoadLeafs_no_limit:
  assumes "0 \<le> fileofs" and "0 \<le> filelen" and "fileofs + filelen \<le> int (length base)"
  shows "(\<exists>leafs. Mod_LoadLeafs m (Some base) fileofs filelen
            = Inr (m\<lparr>m_leafs := leafs, m_numleafs := filelen div 28\<rparr>)
          \<and> length leafs = nat (filelen div 28)
          \<and> (MAX_MAP_LEAFS < filelen div 28 \<longrightarrow> nat MAX_MAP_LEAFS < length leafs))
       \<and> (\<exists>planes. Mod_LoadPlanes m (Some base) fileofs filelen
            = Inr (m\<lparr>m_planes := planes, m_numplanes := filelen div 20\<rparr>)
          \<and> length planes = nat (filelen div 20))"
proof -
  from assms have v: "new_DataView base fileofs filelen = Inr (take (nat filelen) (drop (nat fileofs) base))"
    by (simp add: new_DataView_eq)
  from Mod_LoadLeafs_result[OF v, of m] obtain leafs where
    l: "Mod_LoadLeafs m (Some base) fileofs filelen
            = Inr (m\<lparr>m_leafs := leafs, m_numleafs := filelen div 28\<rparr>)"
    "length leafs = nat (filelen div 28)" by blast
  then have "MAX_MAP_LEAFS < filelen div 28 \<longrightarrow> nat MAX_MAP_LEAFS < length leafs"
    unfolding MAX_MAP_LEAFS_def by linarith
  with l Mod_LoadPlanes_result[OF v, of m] show ?thesis by blast
qed

text \<open>The theorem on a leaf region of 8193 records, one more than MAX\_MAP\_LEAFS.\<close>

theorem Mod_LoadLeafs_no_limit_witness:
  "\<exists>leafs. Mod_LoadLeafs new_model_t (Some (replicate 229404 0)) 0 229404
       = Inr (new_model_t\<lparr>m_leafs := leafs, m_numleafs := 8193\<rparr>)
     \<and> length leafs = 8193"
  using Mod_LoadLeafs_no_limit[of 0 229404 "replicate 229404 0" new_model_t]
  by auto

text \<open>
  Claim C3 as stated fails: a leaf region of 8193 records loads without an error, and the
  leaf table then holds 8193 leafs, more than MAX\_MAP\_LEAFS.
\<close>

theorem Mod_LoadLeafs_counterexample:
  "MAX_MAP_LEAFS = 8192
   \<and> isl (Mod_LoadLeafs new_model_t (Some (replicate 229404 0)) 0 229404) = False
   \<and> m_numleafs (projr (Mod_LoadLeafs new_model_t (Some (replicate 229404 0)) 0 229404)) = 8193
   \<and> length (m_leafs (projr (Mod_LoadLeafs new_model_t (Some (replicate 229404 0)) 0 229404)))
       = 8193"
proof -
  have "new_DataView (replicate 229404 0) 0 229404 = Inr (replicate 229404 0)"
    by (simp add: new_DataView_def)
  from Mod_LoadLeafs_result[OF this, of new_model_t] show ?thesis
    by (auto simp: MAX_MAP_LEAFS_def)
qed

text \<open>
  Claim C9. After a load of a brush model that succeeds, a leaf's \<^verbatim>\<open>compressed_vis\<close> is
  non-null exactly when the visibility offset stored in its record (the 32-bit integer at
  byte 4 of record \<open>i\<close> of the leaf lump) differs from \<open>-1\<close> and the model's \<^verbatim>\<open>visdata\<close> is
  non-null; \<^verbatim>\<open>visdata\<close> is null exactly when the length of the visibility lump is 0, and
  then every leaf has \<^verbatim>\<open>compressed_vis\<close> null, whatever offsets the leaf records store.
\<close>

theorem compressed_vis_non_null:
  assumes "Mod_LoadBrushModel stack m buffer (Some base) = Inr m'"
  shows "\<exists>lumps view.
     mapE (read_lump buffer) [0..<HEADER_LUMPS] = Inr lumps \<and>
     new_DataView base (fst (lumps ! LUMP_LEAFS)) (snd (lumps ! LUMP_LEAFS)) = Inr view \<and>
     length (m_leafs m') = nat (snd (lumps ! LUMP_LEAFS) div 28) \<and>
     (m_visdata m' = None \<longleftrightarrow> snd (lumps ! LUMP_VISIBILITY) = 0) \<and>
     (\<forall>i<length (m_leafs m'). \<exists>visofs.
        getInt32 view (int i * 28 + 4) = Inr visofs \<and>
        (lf_compressed_vis (m_leafs m' ! i) \<noteq> None \<longleftrightarrow> visofs \<noteq> -1 \<and> m_visdata m' \<noteq> None)) \<and>
     (snd (lumps ! LUMP_VISIBILITY) = 0 \<longrightarrow>
        (\<forall>i<length (m_leafs m'). lf_compressed_vis (m_leafs m' ! i) = None))"
proof -
  from Mod_LoadBrushModel_result[OF assms] obtain lumps view vis leafs m5 hull0 rest cs where
    lumps: "mapE (read_lump buffer) [0..<HEADER_LUMPS] = Inr lumps"
    and view: "new_DataView base (fst (lumps ! LUMP_LEAFS)) (snd (lumps ! LUMP_LEAFS)) = Inr view"
    and vis: "vis = None \<longleftrightarrow> snd (lumps ! LUMP_VISIBILITY) = 0"
    and ld: "mapE (load_leaf view base (fst (lumps ! LUMP_LEAFS)) vis)
       [0..<nat (snd (lumps ! LUMP_LEAFS) div 28)] = Inr leafs"
    and len: "length leafs = nat (snd (lumps ! LUMP_LEAFS) div 28)"
    and ok: "model_ok m5"
    and cv: "map lf_compressed_vis (m_leafs m5) = map lf_compressed_vis leafs"
    and l5: "length (m_leafs m5) = length leafs"
    and nd: "m_nodes m' = m_nodes m5"
    and lf: "m_leafs m' = m_leafs m5"
    and pl: "m_planes m' = m_planes m5"
    and nn: "m_numnodes m' = m_numnodes m5"
    and vd: "m_visdata m' = vis"
    and hl: "m_hulls m' = (hull0\<lparr>h_planes := ModelPlanes, h_firstclipnode := 0,
                     h_lastclipnode := m_numnodes m5 - 1, h_clipnodes := OwnClipnodes cs\<rparr>) # rest"
    and hm: "hull0_matches m5 cs"
    by (elim exE conjE) (rule that)
  have each: "\<exists>visofs. getInt32 view (int i * 28 + 4) = Inr visofs \<and>
        lf_compressed_vis (m_leafs m' ! i) =
          (case vis of None \<Rightarrow> None
           | Some v \<Rightarrow> if visofs \<noteq> -1 then Some (subarray_from v visofs) else None)"
    if "i < length (m_leafs m')" for i
  proof -
    from that have i: "i < length leafs" by (simp add: lf l5)
    with mapE_nth[OF ld, of i] len
    have "load_leaf view base (fst (lumps ! LUMP_LEAFS)) vis i = Inr (leafs ! i)" by simp
    from load_leaf_vis[OF this] map_eq_nth[OF cv i] show ?thesis by (simp add: lf)
  qed
  have a: "\<forall>i<length (m_leafs m'). \<exists>visofs.
        getInt32 view (int i * 28 + 4) = Inr visofs \<and>
        (lf_compressed_vis (m_leafs m' ! i) \<noteq> None \<longleftrightarrow> visofs \<noteq> -1 \<and> m_visdata m' \<noteq> None)"
  proof (intro allI impI)
    fix i assume "i < length (m_leafs m')"
    from each[OF this] obtain visofs where
      g: "getInt32 view (int i * 28 + 4) = Inr visofs"
      and c: "lf_compressed_vis (m_leafs m' ! i) =
          (case vis of None \<Rightarrow> None
           | Some v \<Rightarrow> if visofs \<noteq> -1 then Some (subarray_from v visofs) else None)"
      by blast
    from c have "lf_compressed_vis (m_leafs m' ! i) \<noteq> None \<longleftrightarrow> visofs \<noteq> -1 \<and> m_visdata m' \<noteq> None"
      by (simp add: vd split: option.split)
    with g show "\<exists>visofs. getInt32 view (int i * 28 + 4) = Inr visofs \<and>
        (lf_compressed_vis (m_leafs m' ! i) \<noteq> None \<longleftrightarrow> visofs \<noteq> -1 \<and> m_visdata m' \<noteq> None)"
      by blast
  qed
  have b: "snd (lumps ! LUMP_VISIBILITY) = 0 \<longrightarrow>
        (\<forall>i<length (m_leafs m'). lf_compressed_vis (m_leafs m' ! i) = None)"
  proof (intro allI impI)
    fix i assume z: "snd (lumps ! LUMP_VISIBILITY) = 0" and "i < length (m_leafs m')"
    from each[OF this(2)] z vis show "lf_compressed_vis (m_leafs m' ! i) = None" by auto
  qed
  have len': "length (m_leafs m') = nat (snd (lumps ! LUMP_LEAFS) div 28)"
    using len by (simp add: lf l5)
  have vis': "m_visdata m' = None \<longleftrightarrow> snd (lumps ! LUMP_VISIBILITY) = 0"
    using vis by (simp add: vd)
  from lumps view len' vis' a b show ?thesis
    by (intro exI[of _ lumps] exI[of _ view] conjI)
qed

text \<open>
  The theorem on the two example maps. In the first the visibility lump has two bytes,
  leaf 1 stores the offset 0 and leafs 0 and 2 store \<open>-1\<close>, and only leaf 1 has a non-null
  \<^verbatim>\<open>compressed_vis\<close>. In the second the visibility lump has length 0: \<^verbatim>\<open>visdata\<close> is null
  and no leaf has a \<^verbatim>\<open>compressed_vis\<close>, although leaf 1 stores the offset 0.
\<close>

theorem compressed_vis_non_null_witness:
  "Mod_LoadBrushModel 10 (new_model_t\<lparr>m_name := ''maps/example.bsp''\<rparr>) example_bsp (Some example_bsp)
     = Inr (example_model\<lparr>m_name := ''maps/example.bsp''\<rparr>)
   \<and> m_visdata (example_model\<lparr>m_name := ''maps/example.bsp''\<rparr>) = Some [255, 1]
   \<and> map lf_compressed_vis (m_leafs (example_model\<lparr>m_name := ''maps/example.bsp''\<rparr>))
       = [None, Some [255, 1], None]
   \<and> (\<exists>lumps view.
     mapE (read_lump example_bsp) [0..<HEADER_LUMPS] = Inr lumps \<and>
     new_DataView example_bsp (fst (lumps ! LUMP_LEAFS)) (snd (lumps ! LUMP_LEAFS)) = Inr view \<and>
     snd (lumps ! LUMP_VISIBILITY) = 2 \<and>
     getInt32 view 4 = Inr (-1) \<and> getInt32 view 32 = Inr 0 \<and> getInt32 view 60 = Inr (-1))
   \<and> Mod_LoadBrushModel 10 (new_model_t\<lparr>m_name := ''maps/novis.bsp''\<rparr>) example_bsp0 (Some example_bsp0)
     = Inr (example_model0\<lparr>m_name := ''maps/novis.bsp''\<rparr>)
   \<and> m_visdata (example_model0\<lparr>m_name := ''maps/novis.bsp''\<rparr>) = None
   \<and> map lf_compressed_vis (m_leafs (example_model0\<lparr>m_name := ''maps/novis.bsp''\<rparr>))
       = [None, None, None]
   \<and> (\<exists>lumps view.
     mapE (read_lump example_bsp0) [0..<HEADER_LUMPS] = Inr lumps \<and>
     new_DataView example_bsp0 (fst (lumps ! LUMP_LEAFS)) (snd (lumps ! LUMP_LEAFS)) = Inr view \<and>
     snd (lumps ! LUMP_VISIBILITY) = 0 \<and>
     getInt32 view 4 = Inr (-1) \<and> getInt32 view 32 = Inr 0 \<and> getInt32 view 60 = Inr (-1))"
proof -
  note l = example_load[of "''maps/example.bsp''"]
  from compressed_vis_non_null[OF l] obtain lumps view where
    lumps: "mapE (read_lump example_bsp) [0..<HEADER_LUMPS] = Inr lumps"
    and view: "new_DataView example_bsp (fst (lumps ! LUMP_LEAFS)) (snd (lumps ! LUMP_LEAFS)) = Inr view"
    by (elim exE conjE) (rule that)
  from lumps have le: "lumps = [(0, 0), (124, 20), (0, 0), (0, 0), (144, 2), (230, 48), (0, 0),
      (0, 0), (0, 0), (0, 0), (146, 84), (0, 0), (0, 0), (0, 0), (0, 0)]"
    by (simp only: ex_lumps sum.inject)
  have lv: "snd (lumps ! LUMP_VISIBILITY) = 2" "lumps ! LUMP_LEAFS = (146, 84)"
    by (simp_all add: le LUMP_VISIBILITY_def LUMP_LEAFS_def)
  from view lv have v: "view = take 84 (drop 146 example_bsp)"
    by (simp add: new_DataView_def ex_len)
  have g: "getInt32 view 4 = Inr (-1)" "getInt32 view 32 = Inr 0" "getInt32 view 60 = Inr (-1)"
    by (simp_all add: v ev)
  have c: "m_visdata (example_model\<lparr>m_name := ''maps/example.bsp''\<rparr>) = Some [255, 1]"
    "map lf_compressed_vis (m_leafs (example_model\<lparr>m_name := ''maps/example.bsp''\<rparr>))
       = [None, Some [255, 1], None]"
    by (simp_all add: example_model_def new_mleaf_t_def)
  have e: "\<exists>lumps view.
     mapE (read_lump example_bsp) [0..<HEADER_LUMPS] = Inr lumps \<and>
     new_DataView example_bsp (fst (lumps ! LUMP_LEAFS)) (snd (lumps ! LUMP_LEAFS)) = Inr view \<and>
     snd (lumps ! LUMP_VISIBILITY) = 2 \<and>
     getInt32 view 4 = Inr (-1) \<and> getInt32 view 32 = Inr 0 \<and> getInt32 view 60 = Inr (-1)"
    using lumps view lv(1) g by (intro exI[of _ lumps] exI[of _ view] conjI)
  note l0 = example_load0[of "''maps/novis.bsp''"]
  from compressed_vis_non_null[OF l0] obtain lumps0 view0 where
    lumps0: "mapE (read_lump example_bsp0) [0..<HEADER_LUMPS] = Inr lumps0"
    and view0: "new_DataView example_bsp0 (fst (lumps0 ! LUMP_LEAFS)) (snd (lumps0 ! LUMP_LEAFS)) = Inr view0"
    and none0: "snd (lumps0 ! LUMP_VISIBILITY) = 0 \<longrightarrow>
        (\<forall>i<length (m_leafs (example_model0\<lparr>m_name := ''maps/novis.bsp''\<rparr>)).
           lf_compressed_vis (m_leafs (example_model0\<lparr>m_name := ''maps/novis.bsp''\<rparr>) ! i) = None)"
    by (elim exE conjE) (rule that)
  from lumps0 have le0: "lumps0 = [(0, 0), (124, 20), (0, 0), (0, 0), (144, 0), (230, 48), (0, 0),
      (0, 0), (0, 0), (0, 0), (146, 84), (0, 0), (0, 0), (0, 0), (0, 0)]"
    by (simp only: ex0_lumps sum.inject)
  have lv0: "snd (lumps0 ! LUMP_VISIBILITY) = 0" "lumps0 ! LUMP_LEAFS = (146, 84)"
    by (simp_all add: le0 LUMP_VISIBILITY_def LUMP_LEAFS_def)
  from view0 lv0 have v0: "view0 = take 84 (drop 146 example_bsp0)"
    by (simp add: new_DataView_def ex0_len)
  have g0: "getInt32 view0 4 = Inr (-1)" "getInt32 view0 32 = Inr 0" "getInt32 view0 60 = Inr (-1)"
    by (simp_all add: v0 ev0)
  have n0: "length (m_leafs (example_model0\<lparr>m_name := ''maps/novis.bsp''\<rparr>)) = 3"
    by (simp add: example_model0_def)
  from none0 lv0(1) have a0: "\<And>i. i < 3 \<Longrightarrow>
      lf_compressed_vis (m_leafs (example_model0\<lparr>m_name := ''maps/novis.bsp''\<rparr>) ! i) = None"
    by (simp only: n0)
  have c0: "m_visdata (example_model0\<lparr>m_name := ''maps/novis.bsp''\<rparr>) = None"
    by (simp add: example_model0_def)
  have "map lf_compressed_vis (m_leafs (example_model0\<lparr>m_name := ''maps/novis.bsp''\<rparr>))
       = [lf_compressed_vis (m_leafs (example_model0\<lparr>m_name := ''maps/novis.bsp''\<rparr>) ! 0),
          lf_compressed_vis (m_leafs (example_model0\<lparr>m_name := ''maps/novis.bsp''\<rparr>) ! 1),
          lf_compressed_vis (m_leafs (example_model0\<lparr>m_name := ''maps/novis.bsp''\<rparr>) ! 2)]"
    by (simp add: example_model0_def)
  then have c0': "map lf_compressed_vis (m_leafs (example_model0\<lparr>m_name := ''maps/novis.bsp''\<rparr>))
       = [None, None, None]"
    using a0[of 0] a0[of 1] a0[of 2] by simp
  have e0: "\<exists>lumps view.
     mapE (read_lump example_bsp0) [0..<HEADER_LUMPS] = Inr lumps \<and>
     new_DataView example_bsp0 (fst (lumps ! LUMP_LEAFS)) (snd (lumps ! LUMP_LEAFS)) = Inr view \<and>
     snd (lumps ! LUMP_VISIBILITY) = 0 \<and>
     getInt32 view 4 = Inr (-1) \<and> getInt32 view 32 = Inr 0 \<and> getInt32 view 60 = Inr (-1)"
    using lumps0 view0 lv0(1) g0 by (intro exI[of _ lumps0] exI[of _ view0] conjI)
  from l c e l0 c0 c0' e0 show ?thesis by (intro conjI)
qed

text \<open>
  Claim C4. After a load of a brush model that succeeds (Mod\_MakeHull0 is its last
  stage), hull 0 has a clipnode array of its own with exactly as many entries as the
  model has nodes, and for every node index \<open>i\<close>: the plane number of clipnode \<open>i\<close> is the
  index of the plane of node \<open>i\<close> in the model's plane table, and child \<open>j\<close> of clipnode \<open>i\<close>
  is the index in the node array of child \<open>j\<close> of node \<open>i\<close> when that child is a node,
  the child's contents when it is a leaf with negative contents, and CONTENTS\_SOLID when
  there is no child. Every node has contents 0 and references that point into the model's
  tables (\<open>model_ok\<close>). Two cases that the correspondence \<open>hull0_matches\<close> gives beside
  these: a node without a plane gets the plane number \<open>-1\<close>, and so does the child slot of
  a leaf whose contents are not negative.
\<close>

theorem Mod_MakeHull0_isomorphic:
  assumes "Mod_LoadBrushModel stack m buffer (Some base) = Inr m'"
  shows "\<exists>hull0 rest cs.
     m_hulls m' = hull0 # rest \<and> h_clipnodes hull0 = OwnClipnodes cs \<and> h_planes hull0 = ModelPlanes \<and>
     h_firstclipnode hull0 = 0 \<and> h_lastclipnode hull0 = m_numnodes m' - 1 \<and>
     length cs = length (m_nodes m') \<and> model_ok m' \<and> hull0_matches m' cs"
proof -
  from Mod_LoadBrushModel_result[OF assms] obtain m5 hull0 rest cs where
    ok: "model_ok m5"
    and f: "m_nodes m' = m_nodes m5" "m_numnodes m' = m_numnodes m5" "m_leafs m' = m_leafs m5"
       "m_planes m' = m_planes m5"
    and h: "m_hulls m' = (hull0\<lparr>h_planes := ModelPlanes, h_firstclipnode := 0,
                     h_lastclipnode := m_numnodes m5 - 1, h_clipnodes := OwnClipnodes cs\<rparr>) # rest"
    and hm: "hull0_matches m5 cs"
    by blast
  from ok model_ok_cong[OF f] have ok': "model_ok m'" by simp
  from hm hull0_matches_cong[OF f(1,3)] have hm': "hull0_matches m' cs" by simp
  then have len: "length cs = length (m_nodes m')" by (simp add: hull0_matches_def)
  show ?thesis
    apply (rule exI[of _ "hull0\<lparr>h_planes := ModelPlanes, h_firstclipnode := 0,
                     h_lastclipnode := m_numnodes m5 - 1, h_clipnodes := OwnClipnodes cs\<rparr>"])
    apply (rule exI[of _ rest], rule exI[of _ cs])
    using h ok' hm' len f(2) by simp
qed

text \<open>
  The theorem on the example map: node 0 has the children node 1 and leaf 0 (contents
  \<open>-2\<close>), node 1 the children leaf 1 (contents \<open>-1\<close>) and none; both nodes lie on plane 0.
\<close>

theorem Mod_MakeHull0_isomorphic_witness:
  "Mod_LoadBrushModel 10 (new_model_t\<lparr>m_name := ''maps/example.bsp''\<rparr>) example_bsp (Some example_bsp)
     = Inr (example_model\<lparr>m_name := ''maps/example.bsp''\<rparr>)
   \<and> h_clipnodes (hd (m_hulls (example_model\<lparr>m_name := ''maps/example.bsp''\<rparr>)))
       = OwnClipnodes [\<lparr>cn_planenum = 0, cn_children = [1, -2]\<rparr>,
                       \<lparr>cn_planenum = 0, cn_children = [-1, -2]\<rparr>]
   \<and> map n_children (m_nodes (example_model\<lparr>m_name := ''maps/example.bsp''\<rparr>))
       = [[NodeChild 1, LeafChild 0], [LeafChild 1, NoChild]]
   \<and> map lf_contents (m_leafs (example_model\<lparr>m_name := ''maps/example.bsp''\<rparr>)) = [-2, -1, -3]
   \<and> model_ok (example_model\<lparr>m_name := ''maps/example.bsp''\<rparr>)
   \<and> hull0_matches (example_model\<lparr>m_name := ''maps/example.bsp''\<rparr>)
       [\<lparr>cn_planenum = 0, cn_children = [1, -2]\<rparr>, \<lparr>cn_planenum = 0, cn_children = [-1, -2]\<rparr>]"
proof -
  note l = example_load[of "''maps/example.bsp''"]
  from Mod_MakeHull0_isomorphic[OF l] obtain hull0 rest cs where
    h: "m_hulls (example_model\<lparr>m_name := ''maps/example.bsp''\<rparr>) = hull0 # rest"
    "h_clipnodes hull0 = OwnClipnodes cs"
    and ok: "model_ok (example_model\<lparr>m_name := ''maps/example.bsp''\<rparr>)"
    and hm: "hull0_matches (example_model\<lparr>m_name := ''maps/example.bsp''\<rparr>) cs"
    by blast
  have c: "h_clipnodes (hd (m_hulls (example_model\<lparr>m_name := ''maps/example.bsp''\<rparr>)))
       = OwnClipnodes [\<lparr>cn_planenum = 0, cn_children = [1, -2]\<rparr>,
                       \<lparr>cn_planenum = 0, cn_children = [-1, -2]\<rparr>]"
    "map n_children (m_nodes (example_model\<lparr>m_name := ''maps/example.bsp''\<rparr>))
       = [[NodeChild 1, LeafChild 0], [LeafChild 1, NoChild]]"
    "map lf_contents (m_leafs (example_model\<lparr>m_name := ''maps/example.bsp''\<rparr>)) = [-2, -1, -3]"
    by (simp_all add: example_model_def new_mnode_t_def new_mleaf_t_def)
  from c(1) h have "cs = [\<lparr>cn_planenum = 0, cn_children = [1, -2]\<rparr>,
                       \<lparr>cn_planenum = 0, cn_children = [-1, -2]\<rparr>]" by simp
  with l c ok hm show ?thesis by simp
qed

text \<open>
  Claim C6. Loading is idempotent. When Mod\_ForName has returned a model for a name (the
  slot of the model in \<^verbatim>\<open>mod_known\<close>), a second call for the same name, with either value
  of \<^verbatim>\<open>crash\<close>, returns the same slot and leaves every variable of the module as it was:
  the table of models is unchanged (nothing is parsed again) and so is the list of the
  names that \<^verbatim>\<open>COM_LoadFile\<close> was called with (the byte source is not invoked). The same
  holds of a second call of Mod\_LoadModel on the returned model.
\<close>

theorem Mod_ForName_idempotent:
  assumes "Mod_ForName e name crash s = Inr (Some slot, s1)"
  shows "Mod_ForName e name crash' s1 = Inr (Some slot, s1)
       \<and> Mod_LoadModel e slot crash' s1 = Inr (Some slot, s1)
       \<and> slot < length (mod_known s1) \<and> m_loaded (mod_known s1 ! slot)
       \<and> m_name (mod_known s1 ! slot) = name"
proof -
  from assms obtain slot0 s0 where
    f: "Mod_FindName name s = Inr (slot0, s0)"
    and l: "Mod_LoadModel e slot0 crash s0 = Inr (Some slot, s1)"
    by (auto simp: Mod_ForName_def bindE_eq_Inr)
  note a = Mod_FindName_again[OF f]
  note b = Mod_LoadModel_again[OF l]
  from a b have f1: "Mod_FindName name s1 = Inr (slot, s1)"
    using Mod_FindName_names[of name s0 slot s1] by simp
  from b have l1: "Mod_LoadModel e slot crash' s1 = Inr (Some slot, s1)"
    by (simp add: Mod_LoadModel_def)
  from a b have "m_name (mod_known s1 ! slot) = name"
    using map_eq_nth[of m_name "mod_known s1" "mod_known s0" slot] by simp
  with f1 l1 b show ?thesis by (simp add: Mod_ForName_def)
qed

text \<open>
  The theorem on the example map: the first call, after Mod\_Init, reads the file and
  loads it into slot 0; the second call returns slot 0 and the state is the same, with
  one call of \<^verbatim>\<open>COM_LoadFile\<close> in all.
\<close>

theorem Mod_ForName_idempotent_witness:
  "Mod_ForName example_env ''maps/example.bsp'' False (Mod_Init module_vars)
     = Inr (Some 0, example_loaded)
   \<and> Mod_ForName example_env ''maps/example.bsp'' True example_loaded = Inr (Some 0, example_loaded)
   \<and> Mod_LoadModel example_env 0 True example_loaded = Inr (Some 0, example_loaded)
   \<and> com_loaded example_loaded = [''maps/example.bsp'']"
proof -
  have a: "Mod_ForName example_env ''maps/example.bsp'' False (Mod_Init module_vars)
       = Inr (Some 0, example_loaded)"
    by (simp add: Mod_ForName_def Mod_FindName_def Mod_LoadModel_def Mod_Init_def module_vars_def
      example_env_def example_loaded_def MAX_MOD_KNOWN_def Let_def ex_version BSPVERSION_def
      example_load replicate_512) (simp add: new_model_t_def)
  from Mod_ForName_idempotent[OF a, of True] a show ?thesis
    by (simp add: example_loaded_def)
qed

end
